(* ===== verification/Prelude.thy ===== *)
theory Prelude
  imports Main "HOL-Library.AList" "HOL-Library.Sublist"
begin

text \<open>
  Shared vocabulary of the development: the JavaScript string and object operations that
  \<open>src/build/index.js\<close> relies on, written once as HOL functions, and the lemmas about
  them that the component theories use.
  \<^item> JavaScript strings are \<open>string\<close> (a \<open>char list\<close>); characters are bytes, so the
    model covers ASCII text exactly and treats non-ASCII whitespace as ordinary text.
  \<^item> A value that is either a string or \<open>null\<close>/\<open>undefined\<close> is \<open>string option\<close>;
    JavaScript truthiness of such a value is \<open>js_truthy\<close> (the empty string is falsy).
  \<^item> \<open>s.includes(p)\<close> is \<open>sublist p s\<close> (contiguous occurrence, HOL-Library.Sublist).
  \<^item> A plain object used as a string-keyed dictionary is an association list updated with
    \<open>AList.update\<close>: assigning an existing key keeps its position, a new key goes last,
    which is the insertion order that \<open>Object.keys\<close>/\<open>Object.entries\<close> report for keys
    that are not array indices.
\<close>

type_synonym url = string

named_theorems model_simps \<open>evaluation rules for the model's definitions\<close>

declare sublist_code [model_simps]

subsection \<open>Truthiness and logical or on optional strings\<close>

definition js_truthy :: "string option \<Rightarrow> bool" where
  "js_truthy v = (case v of None \<Rightarrow> False | Some s \<Rightarrow> s \<noteq> [])"

text \<open>\<open>a || b\<close> on values that are strings or null: \<open>a\<close> when it is truthy, else \<open>b\<close>.\<close>

definition js_or :: "string option \<Rightarrow> string option \<Rightarrow> string option" where
  "js_or a b = (if js_truthy a then a else b)"

lemma js_truthy_simps [simp]:
  "js_truthy None = False"
  "js_truthy (Some s) = (s \<noteq> [])"
  by (simp_all add: js_truthy_def)

lemma js_truthy_iff: "js_truthy v \<longleftrightarrow> (\<exists>s. v = Some s \<and> s \<noteq> [])"
  by (cases v) auto

lemma js_or_truthy_left [simp]: "s \<noteq> [] \<Longrightarrow> js_or (Some s) b = Some s"
  by (simp add: js_or_def)

lemma js_or_falsy_left [simp]: "\<not> js_truthy a \<Longrightarrow> js_or a b = b"
  by (simp add: js_or_def)

lemma js_truthy_js_or [simp]: "js_truthy (js_or a b) \<longleftrightarrow> js_truthy a \<or> js_truthy b"
  by (simp add: js_or_def)

subsection \<open>Whitespace and \<open>String.prototype.trim\<close>\<close>

text \<open>The ASCII members of JavaScript's \<open>\s\<close>: space, tab, line feed, vertical tab,
  form feed, carriage return.\<close>

definition is_js_space :: "char \<Rightarrow> bool" where
  "is_js_space c \<longleftrightarrow> c \<in> set [CHR '' '', CHR 0x09, CHR 0x0A, CHR 0x0B, CHR 0x0C, CHR 0x0D]"

definition js_trim :: "string \<Rightarrow> string" where
  "js_trim s = rev (dropWhile is_js_space (rev (dropWhile is_js_space s)))"

lemma is_js_space_newline [simp]: "is_js_space CHR 0x0A"
  by (simp add: is_js_space_def)

lemma js_trim_Nil [simp]: "js_trim [] = []"
  by (simp add: js_trim_def)

lemma set_js_trim: "set (js_trim s) \<subseteq> set s"
  unfolding js_trim_def by (metis set_dropWhileD set_rev subsetI)

subsection \<open>Decimal rendering of a number, as a template literal prints it\<close>

definition decimal_digits :: string where
  "decimal_digits = ''0123456789''"

lemma length_decimal_digits [simp]: "length decimal_digits = 10"
  by (simp add: decimal_digits_def)

fun show_nat :: "nat \<Rightarrow> string" where
  "show_nat n =
     (if n < 10 then [decimal_digits ! n]
      else show_nat (n div 10) @ [decimal_digits ! (n mod 10)])"

declare show_nat.simps [simp del]

lemmas show_nat_eval [model_simps] = show_nat.simps decimal_digits_def

lemma show_nat_ne [simp]: "show_nat n \<noteq> []"
  by (subst show_nat.simps) simp

lemma show_nat_digits: "set (show_nat n) \<subseteq> set decimal_digits"
proof (induction n rule: show_nat.induct)
  case (1 n)
  show ?case
  proof (cases "n < 10")
    case True
    then show ?thesis by (subst show_nat.simps) simp
  next
    case False
    with "1.IH" show ?thesis by (subst show_nat.simps) simp
  qed
qed

lemma newline_notin_show_nat [simp]: "CHR 0x0A \<notin> set (show_nat n)"
proof -
  have "CHR 0x0A \<notin> set decimal_digits" by (simp add: decimal_digits_def)
  with show_nat_digits show ?thesis by blast
qed

subsection \<open>Results of fallible steps\<close>

text \<open>A step that may throw returns \<open>Inl\<close> of the exception or \<open>Inr\<close> of its value.\<close>

lemma map_sum_eq_Inr [simp]: "map_sum f g x = Inr y \<longleftrightarrow> (\<exists>z. x = Inr z \<and> y = g z)"
  by (cases x) auto

lemma map_sum_eq_Inl [simp]: "map_sum f g x = Inl y \<longleftrightarrow> (\<exists>z. x = Inl z \<and> y = f z)"
  by (cases x) auto

subsection \<open>Objects as insertion-ordered association lists\<close>

text \<open>\<open>obj[k] = v\<close> on a plain object: \<open>AList.update\<close>.\<close>

lemma keys_update_present:
  "k \<in> set (map fst al) \<Longrightarrow> map fst (AList.update k v al) = map fst al"
  by (induction al) auto

lemma keys_update_absent:
  "k \<notin> set (map fst al) \<Longrightarrow> AList.update k v al = al @ [(k, v)]"
  by (induction al) auto

lemma keys_update_subset: "set (map fst al) \<subseteq> set (map fst (AList.update k v al))"
  by (induction al) auto

lemma set_update_subset: "set (AList.update k v al) \<subseteq> insert (k, v) (set al)"
  by (induction al) auto

lemma map_of_update_same [simp]: "map_of (AList.update k v al) k = Some v"
  by (simp add: update_conv')

end
