(* ===== verification/Html.thy ===== *)
theory Html
  imports Prelude
begin

text \<open>
  The parsed document as the program sees it through the DOM: a tree of text nodes and
  elements with a lower-case tag name, attributes in source order and children. Parsing
  itself (JSDOM, turndown's parser) is a collaborator and appears in later theories only as
  a function from strings to node lists. This theory gives the DOM operations that
  \<open>src/build/index.js\<close> calls on such trees: \<open>textContent\<close>, \<open>getAttribute\<close>,
  \<open>querySelector\<close>/\<open>querySelectorAll\<close> with a type selector (document order is
  pre-order), and \<open>outerHTML\<close> (the HTML fragment serialisation, used by turndown's
  \<open>keep\<close> rule).
\<close>

datatype html = Txt string | Elem string "(string \<times> string) list" "html list"

fun tag_of :: "html \<Rightarrow> string option" where
  "tag_of (Txt _) = None"
| "tag_of (Elem t _ _) = Some t"

fun text_content :: "html \<Rightarrow> string" where
  "text_content (Txt s) = s"
| "text_content (Elem _ _ kids) = concat (map text_content kids)"

text \<open>\<open>el.getAttribute(a)\<close>: the value of the first attribute of that name, \<open>null\<close> when absent.\<close>

fun get_attribute :: "string \<Rightarrow> html \<Rightarrow> string option" where
  "get_attribute a (Txt _) = None"
| "get_attribute a (Elem _ attrs _) = map_of attrs a"

text \<open>The elements with a given tag name in document order (the node itself first, then its
  descendants left to right): the result of \<open>querySelectorAll(tag)\<close>.\<close>

fun elems_named :: "string \<Rightarrow> html \<Rightarrow> html list" where
  "elems_named t (Txt _) = []"
| "elems_named t (Elem t' attrs kids) =
     (if t' = t then [Elem t' attrs kids] else []) @ concat (map (elems_named t) kids)"

definition query_selector_all :: "string \<Rightarrow> html list \<Rightarrow> html list" where
  "query_selector_all t doc = concat (map (elems_named t) doc)"

definition query_selector :: "string \<Rightarrow> html list \<Rightarrow> html option" where
  "query_selector t doc = (case query_selector_all t doc of [] \<Rightarrow> None | e # _ \<Rightarrow> Some e)"

lemma elems_named_tag: "e \<in> set (elems_named t n) \<Longrightarrow> \<exists>a k. e = Elem t a k"
  by (induction t n rule: elems_named.induct) (auto split: if_splits)

lemma query_selector_all_tag: "e \<in> set (query_selector_all t doc) \<Longrightarrow> \<exists>a k. e = Elem t a k"
  by (auto simp: query_selector_all_def dest: elems_named_tag)

lemma query_selector_all_no_elems [simp]: "query_selector_all t (map Txt ss) = []"
  by (simp add: query_selector_all_def)

lemma query_selector_None_iff: "query_selector t doc = None \<longleftrightarrow> query_selector_all t doc = []"
  by (simp add: query_selector_def split: list.splits)

subsection \<open>Serialisation: \<open>outerHTML\<close>\<close>

text \<open>
  The HTML fragment serialisation algorithm: void elements have no end tag; text is
  escaped (\<open>&\<close>, \<open><\<close>, \<open>>\<close>) except inside raw-text elements; attribute values
  are double-quoted with \<open>&\<close> and \<open>"\<close> escaped. (The no-break space, which is escaped
  too, is not an ASCII character and is not modelled.)
\<close>

definition void_elements :: "string list" where
  "void_elements = [''area'', ''base'', ''basefont'', ''bgsound'', ''br'', ''col'', ''embed'',
     ''frame'', ''hr'', ''img'', ''input'', ''keygen'', ''link'', ''meta'', ''param'', ''source'',
     ''track'', ''wbr'']"

definition raw_text_elements :: "string list" where
  "raw_text_elements = [''style'', ''script'', ''xmp'', ''iframe'', ''noembed'', ''noframes'',
     ''plaintext'']"

fun escape_char :: "bool \<Rightarrow> char \<Rightarrow> string" where
  "escape_char attr c =
     (if c = CHR ''&'' then ''&amp;''
      else if attr \<and> c = CHR ''\"'' then ''&quot;''
      else if \<not> attr \<and> c = CHR ''<'' then ''&lt;''
      else if \<not> attr \<and> c = CHR ''>'' then ''&gt;''
      else [c])"

definition escape_html :: "bool \<Rightarrow> string \<Rightarrow> string" where
  "escape_html attr s = concat (map (escape_char attr) s)"

definition serialize_attr :: "string \<times> string \<Rightarrow> string" where
  "serialize_attr av = '' '' @ fst av @ ''=\"'' @ escape_html True (snd av) @ ''\"''"

fun outer_html :: "bool \<Rightarrow> html \<Rightarrow> string" where
  "outer_html raw (Txt s) = (if raw then s else escape_html False s)"
| "outer_html raw (Elem t attrs kids) =
     ''<'' @ t @ concat (map serialize_attr attrs) @ ''>'' @
     (if t \<in> set void_elements then []
      else concat (map (outer_html (t \<in> set raw_text_elements)) kids) @ ''</'' @ t @ ''>'')"

definition outerHTML :: "html \<Rightarrow> string" where
  "outerHTML n = outer_html False n"

lemmas html_eval [model_simps] =
  void_elements_def raw_text_elements_def escape_html_def serialize_attr_def outerHTML_def
  query_selector_def query_selector_all_def

lemma outerHTML_start_tag:
  "prefix (''<'' @ t @ concat (map serialize_attr attrs) @ ''>'') (outerHTML (Elem t attrs kids))"
  by (simp add: outerHTML_def)

end
