(* ===== verification/Metadata.thy ===== *)
theory Metadata
  imports Html
begin

text \<open>
  The metadata harvester and the front-matter formatter of \<open>fetchSingleUrl\<close>
  (\<open>src/build/index.js\<close>, lines 121--166). The metadata object is an insertion-ordered
  association list (see the prelude); the parsed document is a node list of theory
  \<open>Html\<close>. The parse itself (\<open>new JSDOM(html)\<close>) and the clock read
  (\<open>new Date().toISOString()\<close>) happen in the pipeline, which passes their results in.
\<close>

type_synonym metadata = "(string \<times> string) list"

subsection \<open>Title (lines 125--131)\<close>

text \<open>\<open>if (!metadata.title)\<close>: the first \<open>title\<close> element of the document, its text
  trimmed, unless a truthy title is already there.\<close>

definition harvest_title :: "html list \<Rightarrow> metadata \<Rightarrow> metadata" where
  "harvest_title doc md =
     (if js_truthy (map_of md ''title'') then md
      else (case query_selector ''title'' doc of
              None \<Rightarrow> md
            | Some el \<Rightarrow> AList.update ''title'' (js_trim (text_content el)) md))"

subsection \<open>Meta tags (lines 133--152)\<close>

text \<open>The classification of a key candidate, in the code's order: \<open>description\<close>,
  \<open>author\<close>, \<open>keywords\<close>, then Open Graph names kept verbatim; \<open>None\<close>: ignored.\<close>

definition meta_key :: "string \<Rightarrow> string option" where
  "meta_key name =
     (if sublist ''description'' name then Some ''description''
      else if sublist ''author'' name then Some ''author''
      else if sublist ''keywords'' name then Some ''keywords''
      else if sublist ''og:'' name then Some name
      else None)"

text \<open>The classification as the spec's design notes describe it: an ordered table of
  (substring, destination) rules evaluated top to bottom, the first rule whose substring
  the name contains deciding; an Open Graph tag is filed under its own name.\<close>

datatype key_dest = Fixed_key string | Own_name

definition classification_rules :: "(string \<times> key_dest) list" where
  "classification_rules =
     [(''description'', Fixed_key ''description''), (''author'', Fixed_key ''author''),
      (''keywords'', Fixed_key ''keywords''), (''og:'', Own_name)]"

fun classify :: "(string \<times> key_dest) list \<Rightarrow> string \<Rightarrow> string option" where
  "classify [] name = None"
| "classify ((p, d) # rules) name =
     (if sublist p name then Some (case d of Fixed_key k \<Rightarrow> k | Own_name \<Rightarrow> name)
      else classify rules name)"

text \<open>The body of the \<open>forEach\<close> callback for one \<open>meta\<close> element.\<close>

definition harvest_tag :: "metadata \<Rightarrow> html \<Rightarrow> metadata" where
  "harvest_tag md tag =
     (let name = js_or (get_attribute ''name'' tag) (get_attribute ''property'' tag);
          content = get_attribute ''content'' tag
      in if js_truthy name \<and> js_truthy content
         then (case (name, content) of
                 (Some n, Some c) \<Rightarrow>
                   (case meta_key n of Some k \<Rightarrow> AList.update k c md | None \<Rightarrow> md)
               | _ \<Rightarrow> md)
         else md)"

definition harvest_meta_tags :: "html list \<Rightarrow> metadata \<Rightarrow> metadata" where
  "harvest_meta_tags doc md = foldl harvest_tag md (query_selector_all ''meta'' doc)"

subsection \<open>The whole harvest (lines 121--156)\<close>

text \<open>Title, then the meta tags in document order, then \<open>url\<close> and \<open>fetchedAt\<close>.\<close>

definition harvest_metadata :: "html list \<Rightarrow> url \<Rightarrow> string \<Rightarrow> metadata \<Rightarrow> metadata" where
  "harvest_metadata doc u fetched_at md =
     AList.update ''fetchedAt'' fetched_at
       (AList.update ''url'' u (harvest_meta_tags doc (harvest_title doc md)))"

subsection \<open>Formatting the response (lines 157--166)\<close>

definition front_matter_line :: "string \<times> string \<Rightarrow> string" where
  "front_matter_line kv = fst kv @ '': '' @ snd kv @ ''\<newline>''"

definition front_matter :: "metadata \<Rightarrow> string" where
  "front_matter md = ''---\<newline>'' @ concat (map front_matter_line md) @ ''---\<newline>\<newline>''"

definition format_content :: "bool \<Rightarrow> metadata \<Rightarrow> string \<Rightarrow> string" where
  "format_content include md markdown =
     (if include \<and> md \<noteq> [] then front_matter md else []) @ markdown"

lemmas metadata_eval [model_simps] =
  harvest_title_def meta_key_def harvest_tag_def harvest_meta_tags_def harvest_metadata_def
  front_matter_line_def front_matter_def format_content_def

subsection \<open>What a meta tag contributes\<close>

text \<open>The entry one \<open>meta\<close> element contributes, if any: the abstract reading of the
  callback, against which the code's in-place updates are checked.\<close>

definition tag_entry :: "html \<Rightarrow> (string \<times> string) option" where
  "tag_entry tag =
     (case (js_or (get_attribute ''name'' tag) (get_attribute ''property'' tag),
            get_attribute ''content'' tag) of
        (Some n, Some c) \<Rightarrow>
          if n \<noteq> [] \<and> c \<noteq> [] then map_option (\<lambda>k. (k, c)) (meta_key n) else None
      | _ \<Rightarrow> None)"

lemma harvest_tag_entry:
  "harvest_tag md tag = (case tag_entry tag of None \<Rightarrow> md | Some (k, v) \<Rightarrow> AList.update k v md)"
  by (auto simp: harvest_tag_def tag_entry_def js_truthy_iff split: option.splits)

lemma meta_key_cases:
  "meta_key n = Some k \<Longrightarrow>
     k \<in> {''description'', ''author'', ''keywords''} \<or> (k = n \<and> sublist ''og:'' n)"
  by (auto simp: meta_key_def split: if_splits)

lemma tag_entry_Some:
  "tag_entry tag = Some (k, v) \<Longrightarrow>
     v \<noteq> [] \<and> (k \<in> {''description'', ''author'', ''keywords''} \<or> (k \<noteq> [] \<and> sublist ''og:'' k))"
  by (auto simp: tag_entry_def split: option.splits if_splits dest!: meta_key_cases)

subsection \<open>Which keys the harvest can write\<close>

definition harvested_keys :: "string set" where
  "harvested_keys = {''description'', ''author'', ''keywords''} \<union> {k. sublist ''og:'' k}"

lemma keys_harvest_tag: "fst ` set (harvest_tag md tag) \<subseteq> fst ` set md \<union> harvested_keys"
  by (auto simp: harvest_tag_entry harvested_keys_def dom_update split: option.splits
           dest!: tag_entry_Some)

lemma keys_harvest_meta_tags:
  "fst ` set (foldl harvest_tag md tags) \<subseteq> fst ` set md \<union> harvested_keys"
proof (induction tags arbitrary: md)
  case (Cons t ts)
  from Cons.IH [of "harvest_tag md t"] keys_harvest_tag [of md t] show ?case by auto
qed simp

lemma keys_harvest_title: "fst ` set (harvest_title doc md) \<subseteq> insert ''title'' (fst ` set md)"
  by (auto simp: harvest_title_def dom_update split: option.splits)

lemma url_fetchedAt_not_harvested: "''url'' \<notin> harvested_keys" "''fetchedAt'' \<notin> harvested_keys"
  by (simp_all add: harvested_keys_def model_simps)

lemma harvest_metadata_appends:
  assumes "''url'' \<notin> fst ` set md" and "''fetchedAt'' \<notin> fst ` set md"
  shows "harvest_metadata doc u t md =
           harvest_meta_tags doc (harvest_title doc md) @ [(''url'', u), (''fetchedAt'', t)]"
proof -
  let ?h = "harvest_meta_tags doc (harvest_title doc md)"
  have keys: "fst ` set ?h \<subseteq> insert ''title'' (fst ` set md) \<union> harvested_keys"
    using keys_harvest_meta_tags [of "harvest_title doc md"] keys_harvest_title [of doc md]
    unfolding harvest_meta_tags_def by blast
  with assms url_fetchedAt_not_harvested have "''url'' \<notin> set (map fst ?h)" by auto
  then have u: "AList.update ''url'' u ?h = ?h @ [(''url'', u)]" by (rule keys_update_absent)
  from keys assms url_fetchedAt_not_harvested
  have "''fetchedAt'' \<notin> set (map fst (?h @ [(''url'', u)]))" by auto
  then have "AList.update ''fetchedAt'' t (?h @ [(''url'', u)]) = ?h @ [(''url'', u), (''fetchedAt'', t)]"
    by (simp add: keys_update_absent)
  with u show ?thesis by (simp add: harvest_metadata_def)
qed

subsection \<open>The metadata as a map: the code's in-place updates against map updates\<close>

definition tag_update :: "(string \<rightharpoonup> string) \<Rightarrow> html \<Rightarrow> (string \<rightharpoonup> string)" where
  "tag_update m tag = (case tag_entry tag of None \<Rightarrow> m | Some (k, v) \<Rightarrow> m(k \<mapsto> v))"

lemma map_of_foldl_harvest_tag:
  "map_of (foldl harvest_tag md tags) = foldl tag_update (map_of md) tags"
  by (induction tags arbitrary: md)
    (auto simp: harvest_tag_entry tag_update_def update_conv' split: option.splits)

lemma tag_entry_harvested_key: "tag_entry tag = Some (k, v) \<Longrightarrow> k \<in> harvested_keys"
  by (auto simp: harvested_keys_def dest!: tag_entry_Some)

text \<open>Keys the meta tags cannot write keep their value through the loop.\<close>

lemma map_of_harvest_meta_tags_other:
  "k \<notin> harvested_keys \<Longrightarrow> map_of (harvest_meta_tags doc md) k = map_of md k"
proof -
  assume k: "k \<notin> harvested_keys"
  have "foldl tag_update m tags k = m k" for m tags
    using k by (induction tags arbitrary: m)
       (auto simp: tag_update_def dest: tag_entry_harvested_key split: option.splits)
  then show ?thesis by (simp add: harvest_meta_tags_def map_of_foldl_harvest_tag)
qed

lemma title_not_harvested: "''title'' \<notin> harvested_keys"
  by (simp add: harvested_keys_def sublist_code)

text \<open>A truthy title already in the metadata survives the whole harvest.\<close>

lemma map_of_harvest_metadata_title:
  "js_truthy (map_of md ''title'') \<Longrightarrow>
   map_of (harvest_metadata doc u t md) ''title'' = map_of md ''title''"
  by (simp add: harvest_metadata_def update_conv' harvest_title_def
                map_of_harvest_meta_tags_other [OF title_not_harvested])

subsection \<open>Values\<close>

lemma values_harvest_meta_tags:
  "\<forall>(k, v) \<in> set md. v = [] \<longrightarrow> k = ''title'' \<Longrightarrow>
   \<forall>(k, v) \<in> set (foldl harvest_tag md tags). v = [] \<longrightarrow> k = ''title''"
proof (induction tags arbitrary: md)
  case (Cons t ts)
  have "\<forall>(k, v) \<in> set (harvest_tag md t). v = [] \<longrightarrow> k = ''title''"
    using Cons.prems
    by (auto simp: harvest_tag_entry split: option.splits
             dest!: tag_entry_Some set_update_subset [THEN subsetD])
  then show ?case using Cons.IH by simp
qed simp

lemma values_harvest_title:
  "\<forall>(k, v) \<in> set md. v = [] \<longrightarrow> k = ''title'' \<Longrightarrow>
   \<forall>(k, v) \<in> set (harvest_title doc md). v = [] \<longrightarrow> k = ''title''"
  by (auto simp: harvest_title_def split: option.splits dest!: set_update_subset [THEN subsetD])

subsection \<open>Reading the front matter back\<close>

text \<open>The consumer's reading of the front matter: lines up to the closing \<open>---\<close>, each
  split at its first \<open>": "\<close>; the closing line is followed by the blank line the
  formatter writes, and the rest is the markdown body.\<close>

fun take_line :: "string \<Rightarrow> (string \<times> string) option" where
  "take_line [] = None"
| "take_line (c # s) =
     (if c = CHR 0x0A then Some ([], s) else map_option (apfst (Cons c)) (take_line s))"

fun split_key_value :: "string \<Rightarrow> (string \<times> string) option" where
  "split_key_value [] = None"
| "split_key_value [c] = None"
| "split_key_value (c # d # s) =
     (if c = CHR '':'' \<and> d = CHR '' '' then Some ([], s)
      else map_option (apfst (Cons c)) (split_key_value (d # s)))"

lemma take_line_shorter: "take_line s = Some (l, r) \<Longrightarrow> length r < length s"
  by (induction s arbitrary: l rule: take_line.induct) (auto split: if_splits)

function parse_entries :: "string \<Rightarrow> (metadata \<times> string) option" where
  "parse_entries s =
     (case take_line s of
        None \<Rightarrow> None
      | Some (l, rest) \<Rightarrow>
          if l = ''---'' then
            (case take_line rest of Some ([], body) \<Rightarrow> Some ([], body) | _ \<Rightarrow> None)
          else (case split_key_value l of
                  None \<Rightarrow> None
                | Some kv \<Rightarrow> map_option (apfst (Cons kv)) (parse_entries rest)))"
  by pat_completeness auto
termination
  by (relation "measure length") (auto dest: take_line_shorter)

declare parse_entries.simps [simp del]

definition parse_front_matter :: "string \<Rightarrow> (metadata \<times> string) option" where
  "parse_front_matter s =
     (case take_line s of
        Some (l, rest) \<Rightarrow> if l = ''---'' then parse_entries rest else None
      | None \<Rightarrow> None)"

text \<open>An entry prints as one line and reads back as itself when neither part has a line
  break and the key has no \<open>": "\<close>.\<close>

definition line_safe :: "string \<times> string \<Rightarrow> bool" where
  "line_safe kv \<longleftrightarrow>
     CHR 0x0A \<notin> set (fst kv) \<and> CHR 0x0A \<notin> set (snd kv) \<and> \<not> sublist '': '' (fst kv)"

lemma take_line_append: "CHR 0x0A \<notin> set l \<Longrightarrow> take_line (l @ CHR 0x0A # r) = Some (l, r)"
  by (induction l) auto

lemma split_key_value_append:
  "\<not> sublist '': '' k \<Longrightarrow> split_key_value (k @ '': '' @ v) = Some (k, v)"
proof (induction k)
  case Nil
  then show ?case by simp
next
  case (Cons c k)
  then have "\<not> sublist '': '' k" by (simp add: sublist_Cons_right)
  with Cons.IH have IH: "split_key_value (k @ '': '' @ v) = Some (k, v)" by blast
  have "\<not> (c = CHR '':'' \<and> hd (k @ '': '' @ v) = CHR '' '')"
  proof
    assume "c = CHR '':'' \<and> hd (k @ '': '' @ v) = CHR '' ''"
    then have "prefix '': '' (c # k @ '': '' @ v)" by (cases k) auto
    moreover have "\<not> prefix '': '' (c # k)" using Cons.prems by (auto intro: prefix_imp_sublist)
    ultimately show False using Cons.prems by (cases k) (auto simp: sublist_code)
  qed
  then show ?case using IH by (cases "k @ '': '' @ v") auto
qed

lemma parse_entries_front_matter:
  "\<forall>kv \<in> set md. line_safe kv \<Longrightarrow>
   parse_entries (concat (map front_matter_line md) @ ''---\<newline>\<newline>'' @ body) = Some (md, body)"
proof (induction md)
  case Nil
  have "take_line (''---\<newline>\<newline>'' @ body) = Some (''---'', ''\<newline>'' @ body)" by simp
  then show ?case by (simp add: parse_entries.simps)
next
  case (Cons kv md)
  obtain k v where kv: "kv = (k, v)" by fastforce
  with Cons.prems have safe: "CHR 0x0A \<notin> set k" "CHR 0x0A \<notin> set v" "\<not> sublist '': '' k"
    by (auto simp: line_safe_def)
  let ?rest = "concat (map front_matter_line md) @ ''---\<newline>\<newline>'' @ body"
  have line: "take_line (front_matter_line kv @ ?rest) = Some (k @ '': '' @ v, ?rest)"
    using take_line_append [of "k @ '': '' @ v" ?rest] safe by (simp add: kv front_matter_line_def)
  have not_end: "k @ '': '' @ v \<noteq> ''---''"
  proof
    assume "k @ '': '' @ v = ''---''"
    then have "CHR '':'' \<in> set ''---''" by (metis Un_iff set_append list.set_intros(1))
    then show False by simp
  qed
  from Cons have IH: "parse_entries ?rest = Some (md, body)" by simp
  have "parse_entries (front_matter_line kv @ ?rest) = Some (kv # md, body)"
    by (subst parse_entries.simps)
      (simp only: line option.simps prod.simps not_end if_False split_key_value_append [OF safe(3)]
        IH option.map apfst_conv, simp add: kv)
  then show ?case by simp
qed

subsection \<open>Properties of the harvester and the formatter\<close>

text \<open>Claim C8. When metadata is requested, \<open>url\<close> and \<open>fetchedAt\<close> are the last two
  entries of the metadata, in that order, whatever the document holds: no meta tag can write
  either key, so both are appended as new keys.\<close>

theorem harvest_metadata_url_last:
  assumes "''url'' \<notin> fst ` set md" and "''fetchedAt'' \<notin> fst ` set md"
  shows "\<exists>pre. harvest_metadata doc u t md = pre @ [(''url'', u), (''fetchedAt'', t)]"
  using harvest_metadata_appends [OF assms] by blast

theorem harvest_metadata_url_last_witness:
  "''url'' \<notin> fst ` set ([] :: metadata) \<and> ''fetchedAt'' \<notin> fst ` set ([] :: metadata) \<and>
   (\<exists>pre. harvest_metadata [Elem ''meta'' [(''property'', ''og:url''), (''content'', ''x'')] []]
            ''https://a.example'' ''now'' [] = pre @ [(''url'', ''https://a.example''), (''fetchedAt'', ''now'')])"
  using harvest_metadata_url_last [of "[]" "[Elem ''meta'' [(''property'', ''og:url''), (''content'', ''x'')] []]"
      "''https://a.example''" "''now''"]
  by simp

text \<open>Claim C38. The only entry the harvest can leave with an empty value is \<open>title\<close>:
  meta tags need a non-empty content, but a \<open>title\<close> element whose text is blank is
  stored as the empty string. (The spec's invariant that no entry has an empty value does
  not hold for \<open>title\<close>; the witness shows it.)\<close>

theorem harvest_metadata_empty_value_title:
  assumes "\<forall>(k, v) \<in> set md. v = [] \<longrightarrow> k = ''title''" and "u \<noteq> []" and "t \<noteq> []"
    and "(k, []) \<in> set (harvest_metadata doc u t md)"
  shows "k = ''title''"
proof -
  let ?h = "harvest_meta_tags doc (harvest_title doc md)"
  have h: "\<forall>(k, v) \<in> set ?h. v = [] \<longrightarrow> k = ''title''"
    unfolding harvest_meta_tags_def
    by (rule values_harvest_meta_tags, rule values_harvest_title, rule assms(1))
  have "set (harvest_metadata doc u t md) \<subseteq> insert (''fetchedAt'', t) (insert (''url'', u) (set ?h))"
    unfolding harvest_metadata_def
    using set_update_subset [of "''fetchedAt''" t "AList.update ''url'' u ?h"]
      set_update_subset [of "''url''" u ?h] by blast
  with assms(2,3,4) have "(k, []) \<in> set ?h" by auto
  with h show ?thesis by auto
qed

theorem harvest_metadata_empty_value_title_witness:
  "(''title'', []) \<in> set (harvest_metadata [Elem ''title'' [] [Txt '' '']] ''https://a.example'' ''now'' [])"
proof -
  have "(''title'', []) \<in> set (harvest_metadata [Elem ''title'' [] [Txt '' '']] ''https://a.example'' ''now'' [])"
    by (simp add: model_simps js_trim_def is_js_space_def)
  with harvest_metadata_empty_value_title [of "[]" "''https://a.example''" "''now''" "''title''"
      "[Elem ''title'' [] [Txt '' '']]"]
  show ?thesis by simp
qed

text \<open>Claim C36. Roundtrip: when metadata is requested, reading the front matter of the
  formatted response back gives exactly the metadata entries, in order, and the markdown
  body, provided no key or value holds a line break and no key holds \<open>": "\<close>.\<close>

theorem front_matter_roundtrip:
  assumes "\<forall>kv \<in> set md. line_safe kv" and "md \<noteq> []"
  shows "parse_front_matter (format_content True md body) = Some (md, body)"
proof -
  have "take_line (format_content True md body) =
          Some (''---'', concat (map front_matter_line md) @ ''---\<newline>\<newline>'' @ body)"
    using assms(2) by (simp add: format_content_def front_matter_def)
  with parse_entries_front_matter [OF assms(1)] show ?thesis
    by (simp add: parse_front_matter_def)
qed

theorem front_matter_roundtrip_witness:
  "line_safe (''title'', ''Hello'') \<and> line_safe (''url'', ''https://a.example'') \<and>
   parse_front_matter (format_content True [(''title'', ''Hello''), (''url'', ''https://a.example'')] ''# Hi'') =
     Some ([(''title'', ''Hello''), (''url'', ''https://a.example'')], ''# Hi'')"
proof -
  have s: "\<forall>kv \<in> set [(''title'', ''Hello''), (''url'', ''https://a.example'')]. line_safe kv"
    by (simp add: line_safe_def model_simps)
  show ?thesis using front_matter_roundtrip [OF s, of "''# Hi''"] s by simp
qed

text \<open>Claim C37. Without the side condition the front matter can be forged: whenever the
  value of an entry holds a line break followed by \<open>key: value\<close>, reading the formatted
  front matter back gives two entries in its place, so the content of a meta tag can add
  any key, a second \<open>url\<close> included, to what a client reads.\<close>

theorem front_matter_newline_forgery:
  assumes "\<forall>kv \<in> set (pre @ [(k, a), (k', b)] @ post). line_safe kv"
  shows "parse_front_matter (format_content True (pre @ [(k, a @ ''\<newline>'' @ k' @ '': '' @ b)] @ post) body) =
           Some (pre @ [(k, a), (k', b)] @ post, body)"
proof -
  have "format_content True (pre @ [(k, a @ ''\<newline>'' @ k' @ '': '' @ b)] @ post) body =
          ''---\<newline>'' @ concat (map front_matter_line (pre @ [(k, a), (k', b)] @ post)) @ ''---\<newline>\<newline>'' @ body"
    by (simp add: format_content_def front_matter_def front_matter_line_def)
  then have "take_line (format_content True (pre @ [(k, a @ ''\<newline>'' @ k' @ '': '' @ b)] @ post) body) =
          Some (''---'', concat (map front_matter_line (pre @ [(k, a), (k', b)] @ post)) @ ''---\<newline>\<newline>'' @ body)"
    by simp
  with parse_entries_front_matter [OF assms] show ?thesis
    by (simp add: parse_front_matter_def)
qed

theorem front_matter_newline_forgery_witness:
  "line_safe (''title'', ''T'') \<and> line_safe (''description'', ''x'') \<and>
   line_safe (''url'', ''https://evil.example'') \<and> line_safe (''url'', ''https://a.example'') \<and>
   parse_front_matter (format_content True
       [(''title'', ''T''), (''description'', ''x\<newline>url: https://evil.example''), (''url'', ''https://a.example'')]
       ''# Hi'') =
     Some ([(''title'', ''T''), (''description'', ''x''), (''url'', ''https://evil.example''),
            (''url'', ''https://a.example'')], ''# Hi'')"
proof -
  have s: "\<forall>kv \<in> set ([(''title'', ''T'')] @ [(''description'', ''x''), (''url'', ''https://evil.example'')] @
                        [(''url'', ''https://a.example'')]). line_safe kv"
    by (simp add: line_safe_def model_simps)
  from front_matter_newline_forgery [OF s, of "''# Hi''"] s show ?thesis by simp
qed

text \<open>Claim C12. Equivalence with the spec's rule table: the code's chain of \<open>includes\<close>
  tests classifies every key candidate exactly as the ordered table of rules
  \<open>description\<close>, \<open>author\<close>, \<open>keywords\<close>, \<open>og:\<close> evaluated top to bottom.\<close>

theorem meta_key_rule_table: "meta_key name = classify classification_rules name"
  by (simp add: meta_key_def classification_rules_def)

end
