(* ===== verification/Transport.thy ===== *)
theory Transport
  imports Prelude
begin

text \<open>
  The transport: the \<open>axios.get\<close> call of \<open>fetchSingleUrl\<close> (\<open>src/build/index.js\<close>,
  lines 85--95) with its fixed headers, the caller's timeout, \<open>maxRedirects: 5\<close> and
  \<open>validateStatus: status < 400\<close>. The outside world is an explicit record: the servers
  are a function from a request and the current tick to a reply, and the world logs every
  \<open>axios.get\<close> invocation, every HTTP request actually issued (redirect hops included)
  and every \<open>console.error\<close> line. A request takes one tick.

  Axios sorts its failures the way the code later inspects them: with a response
  (\<open>error.response\<close>), with a request but no response (\<open>error.request\<close>: connection
  failures, DNS failures, timeouts, too many redirects) or with neither (errors raised before
  a request exists, such as an unsupported protocol); that is \<open>axios_error\<close>.
\<close>

text \<open>\<open>response.data\<close>: axios parses bodies that are valid JSON, so the data is a string
  or another JavaScript value, kept here with its \<open>String(...)\<close> rendering.\<close>

datatype js_value = JStr string | JOther string

fun js_to_string :: "js_value \<Rightarrow> string" where
  "js_to_string (JStr s) = s"
| "js_to_string (JOther s) = s"

record http_request =
  req_url :: url
  req_timeout :: int
  req_headers :: "(string \<times> string) list"
  req_max_redirects :: nat

text \<open>What a server does with one request: answer, redirect, fail after the request was
  sent, or make axios fail before sending it.\<close>

datatype net_reply =
    Reply nat string js_value
  | Redirect nat url
  | Net_fail string
  | Setup_fail string

record world =
  net :: "http_request \<Rightarrow> nat \<Rightarrow> net_reply"
  clock :: nat
  calls :: "url list"
  requests :: "http_request list"
  errlog :: "string list"

record response =
  status :: nat
  status_text :: string
  data :: js_value

datatype axios_error =
    Err_response nat string
  | Err_request string
  | Err_setup string

subsection \<open>The request configuration (lines 85--95)\<close>

definition fetch_headers :: "(string \<times> string) list" where
  "fetch_headers =
     [(''User-Agent'', ''Mozilla/5.0 (Windows NT 10.0; Win64; x64) AppleWebKit/537.36 (KHTML, like Gecko) Chrome/91.0.4472.124 Safari/537.36 (MCP Fetch Bot)''),
      (''Accept'', ''text/html,application/xhtml+xml,application/xml;q=0.9,*/*;q=0.8''),
      (''Accept-Language'', ''en-US,en;q=0.5''),
      (''Accept-Encoding'', ''gzip, deflate, br'')]"

definition validate_status :: "nat \<Rightarrow> bool" where
  "validate_status s \<longleftrightarrow> s < 400"

definition get_request :: "url \<Rightarrow> int \<Rightarrow> http_request" where
  "get_request u timeout =
     \<lparr>req_url = u, req_timeout = timeout, req_headers = fetch_headers, req_max_redirects = 5\<rparr>"

subsection \<open>Issuing requests and following redirects\<close>

text \<open>One request: logged and answered at the current tick.\<close>

definition issue :: "http_request \<Rightarrow> world \<Rightarrow> net_reply \<times> world" where
  "issue req w =
     (case net w req (clock w) of
        Setup_fail m \<Rightarrow> (Setup_fail m, w)
      | r \<Rightarrow> (r, w\<lparr>requests := requests w @ [req], clock := Suc (clock w)\<rparr>))"

text \<open>The redirect loop with \<open>hops\<close> redirects still allowed: one more redirect than
  allowed is an error with a request and no response; a final reply resolves or rejects by
  \<open>validateStatus\<close>.\<close>

fun follow :: "nat \<Rightarrow> http_request \<Rightarrow> world \<Rightarrow> (axios_error + response) \<times> world" where
  "follow hops req w =
     (case issue req w of
        (Reply st txt d, w') \<Rightarrow>
          (if validate_status st then Inr \<lparr>status = st, status_text = txt, data = d\<rparr>
           else Inl (Err_response st txt), w')
      | (Redirect st loc, w') \<Rightarrow>
          (case hops of
             0 \<Rightarrow> (Inl (Err_request ''Maximum number of redirects exceeded''), w')
           | Suc h \<Rightarrow> follow h (req\<lparr>req_url := loc\<rparr>) w')
      | (Net_fail m, w') \<Rightarrow> (Inl (Err_request m), w')
      | (Setup_fail m, w') \<Rightarrow> (Inl (Err_setup m), w'))"

declare follow.simps [simp del]

definition axios_get :: "world \<Rightarrow> url \<Rightarrow> int \<Rightarrow> (axios_error + response) \<times> world" where
  "axios_get w u timeout =
     (let req = get_request u timeout
      in follow (req_max_redirects req) req (w\<lparr>calls := calls w @ [u]\<rparr>))"

subsection \<open>Reference: redirect following without a cap\<close>

text \<open>HTTP's redirect semantics with no cap, against which the code's configuration is
  compared: every redirect is followed to its \<open>Location\<close>, so on a server that redirects
  forever the call never returns (\<open>None\<close>). It returns the final reply, the world and the
  number of redirects followed; \<open>http_outcome\<close> reads a final reply as the spec describes
  a fetch's transport outcome (statuses below 400 succeed).\<close>

partial_function (option) http_follow ::
  "http_request \<Rightarrow> world \<Rightarrow> (net_reply \<times> world \<times> nat) option" where
  "http_follow req w =
     (case issue req w of
        (Redirect st loc, w') \<Rightarrow>
          Option.bind (http_follow (req\<lparr>req_url := loc\<rparr>) w') (\<lambda>(x, w'', n). Some (x, w'', Suc n))
      | (x, w') \<Rightarrow> Some (x, w', 0))"

fun http_outcome :: "net_reply \<Rightarrow> axios_error + response" where
  "http_outcome (Reply st txt d) =
     (if st < 400 then Inr \<lparr>status = st, status_text = txt, data = d\<rparr> else Inl (Err_response st txt))"
| "http_outcome (Net_fail m) = Inl (Err_request m)"
| "http_outcome (Setup_fail m) = Inl (Err_setup m)"
| "http_outcome (Redirect st loc) = Inl (Err_request ''Maximum number of redirects exceeded'')"

lemmas transport_eval [model_simps] =
  fetch_headers_def validate_status_def get_request_def issue_def follow.simps axios_get_def

subsection \<open>Frame lemmas\<close>

lemma issue_frame:
  "issue req w = (r, w') \<Longrightarrow>
   net w' = net w \<and> calls w' = calls w \<and> errlog w' = errlog w \<and>
   (\<exists>rs. requests w' = requests w @ rs \<and> length rs \<le> 1 \<and> set rs \<subseteq> {req})"
proof -
  assume "issue req w = (r, w')"
  then have "w' = w \<or> w' = w\<lparr>requests := requests w @ [req], clock := Suc (clock w)\<rparr>"
    by (auto simp: issue_def split: net_reply.splits)
  then show ?thesis
  proof
    assume "w' = w" then show ?thesis by (intro conjI exI [of _ "[]"]) simp_all
  next
    assume "w' = w\<lparr>requests := requests w @ [req], clock := Suc (clock w)\<rparr>"
    then show ?thesis by (intro conjI exI [of _ "[req]"]) simp_all
  qed
qed

lemma follow_frame:
  "follow hops req w = (r, w') \<Longrightarrow>
   net w' = net w \<and> calls w' = calls w \<and> errlog w' = errlog w \<and>
   (\<exists>rs. requests w' = requests w @ rs \<and> length rs \<le> Suc hops \<and>
         (\<forall>q \<in> set rs. req_headers q = req_headers req \<and> req_timeout q = req_timeout req \<and>
                       req_max_redirects q = req_max_redirects req))"
proof (induction hops req w arbitrary: r w' rule: follow.induct)
  case (1 hops req w)
  obtain x w1 where iss: "issue req w = (x, w1)" by fastforce
  from issue_frame [OF iss] obtain rs1 where f1: "net w1 = net w" "calls w1 = calls w"
    "errlog w1 = errlog w" and r1: "requests w1 = requests w @ rs1" "length rs1 \<le> 1" "set rs1 \<subseteq> {req}"
    by blast
  show ?case
  proof (cases "\<exists>h loc st. hops = Suc h \<and> x = Redirect st loc")
    case True
    then obtain h loc st where h: "hops = Suc h" and x: "x = Redirect st loc" by blast
    with "1.prems" iss have rec: "follow h (req\<lparr>req_url := loc\<rparr>) w1 = (r, w')"
      by (simp add: follow.simps)
    from "1.IH" [OF iss [symmetric] x h rec]
    obtain rs where "net w' = net w1" "calls w' = calls w1" "errlog w' = errlog w1"
      "requests w' = requests w1 @ rs" "length rs \<le> Suc h"
      "\<forall>q \<in> set rs. req_headers q = req_headers req \<and> req_timeout q = req_timeout req \<and>
                    req_max_redirects q = req_max_redirects req"
      by auto
    with f1 r1 h show ?thesis by (intro conjI exI [of _ "rs1 @ rs"]) auto
  next
    case False
    with "1.prems" iss have "w' = w1"
      by (cases x; cases hops) (auto simp: follow.simps split: if_splits)
    with f1 r1 show ?thesis by (intro conjI exI [of _ rs1]) auto
  qed
qed

lemma axios_get_frame:
  "axios_get w u t = (r, w') \<Longrightarrow>
   net w' = net w \<and> calls w' = calls w @ [u] \<and> errlog w' = errlog w \<and>
   (\<exists>rs. requests w' = requests w @ rs \<and> length rs \<le> 6 \<and>
         (\<forall>q \<in> set rs. req_headers q = fetch_headers \<and> req_timeout q = t \<and> req_max_redirects q = 5))"
  unfolding axios_get_def Let_def
  by (drule follow_frame) (simp add: get_request_def)

text \<open>Against a server whose answers do not depend on the time, the outcome of a request
  depends on the server alone, not on the rest of the world.\<close>

lemma follow_static:
  "\<forall>q n. net w q n = net w q 0 \<Longrightarrow> net w' = net w \<Longrightarrow> fst (follow h req w') = fst (follow h req w)"
proof (induction h arbitrary: req w w')
  case 0
  then have "net w' req (clock w') = net w req (clock w)" by metis
  then show ?case by (simp add: follow.simps [of 0] issue_def split: net_reply.split)
next
  case (Suc h)
  then have n: "net w' req (clock w') = net w req (clock w)" by metis
  have IH: "fst (follow h r (w'\<lparr>requests := a, clock := b\<rparr>)) = fst (follow h r (w\<lparr>requests := c, clock := d\<rparr>))"
    for r a b c d using Suc.IH [of "w\<lparr>requests := c, clock := d\<rparr>" "w'\<lparr>requests := a, clock := b\<rparr>" r] Suc.prems
    by simp
  show ?case by (simp add: follow.simps [of "Suc h"] issue_def n IH split: net_reply.split nat.split)
qed

lemma axios_get_static:
  "\<forall>q n. net w q n = net w q 0 \<Longrightarrow> net w' = net w \<Longrightarrow> fst (axios_get w' u t) = fst (axios_get w u t)"
  unfolding axios_get_def Let_def by (rule follow_static) simp_all

lemma follow_Inr: "fst (follow hops req w) = Inr resp \<Longrightarrow> validate_status (status resp)"
proof (induction hops req w rule: follow.induct)
  case (1 hops req w)
  then show ?case
    by (subst (asm) follow.simps) (auto split: prod.splits net_reply.splits nat.splits if_splits)
qed

text \<open>A server that redirects every request to the same URL.\<close>

definition redirect_loop :: "http_request \<Rightarrow> nat \<Rightarrow> net_reply" where
  "redirect_loop q n = Redirect 301 (req_url q)"

lemma follow_redirect_loop:
  "net w = redirect_loop \<Longrightarrow>
   follow hops req w = (Inl (Err_request ''Maximum number of redirects exceeded''),
     w\<lparr>requests := requests w @ replicate (Suc hops) req, clock := clock w + Suc hops\<rparr>)"
proof (induction hops arbitrary: w)
  case 0
  then show ?case by (simp add: follow.simps issue_def redirect_loop_def)
next
  case (Suc h)
  let ?w1 = "w\<lparr>requests := requests w @ [req], clock := Suc (clock w)\<rparr>"
  have "net ?w1 = redirect_loop" using Suc.prems by simp
  note IH = Suc.IH [OF this]
  have "follow (Suc h) req w = follow h (req\<lparr>req_url := req_url req\<rparr>) ?w1"
    using Suc.prems by (simp add: follow.simps [of "Suc h" req w] issue_def redirect_loop_def)
  also have "req\<lparr>req_url := req_url req\<rparr> = req" by simp
  finally show ?case by (simp add: IH replicate_append_same)
qed

subsection \<open>The bounded loop against the reference\<close>

text \<open>Where the reference returns after \<open>n\<close> redirects, the code's loop with at least
  \<open>n\<close> redirects allowed returns the same outcome in the same world, and with fewer it
  rejects with the too-many-redirects error.\<close>

lemma follow_agrees_all:
  assumes ret: "http_follow req w = Some res"
  shows "\<forall>h. (snd (snd res) \<le> h \<longrightarrow> follow h req w = (http_outcome (fst res), fst (snd res))) \<and>
             (h < snd (snd res) \<longrightarrow>
                fst (follow h req w) = Inl (Err_request ''Maximum number of redirects exceeded''))"
proof (rule http_follow.raw_induct
    [where P = "\<lambda>req w res. \<forall>h. (snd (snd res) \<le> h \<longrightarrow> follow h req w = (http_outcome (fst res), fst (snd res))) \<and>
             (h < snd (snd res) \<longrightarrow>
                fst (follow h req w) = Inl (Err_request ''Maximum number of redirects exceeded''))",
     OF _ ret])
  fix f req w res
  assume IH: "\<And>req w res. f req w = Some res \<Longrightarrow>
                \<forall>h. (snd (snd res) \<le> h \<longrightarrow> follow h req w = (http_outcome (fst res), fst (snd res))) \<and>
             (h < snd (snd res) \<longrightarrow>
                fst (follow h req w) = Inl (Err_request ''Maximum number of redirects exceeded''))"
    and eq: "(case issue req w of
        (Redirect st loc, w') \<Rightarrow>
          Option.bind (f (req\<lparr>req_url := loc\<rparr>) w') (\<lambda>(x, w'', n). Some (x, w'', Suc n))
      | (x, w') \<Rightarrow> Some (x, w', 0)) = Some res"
  show "\<forall>h. (snd (snd res) \<le> h \<longrightarrow> follow h req w = (http_outcome (fst res), fst (snd res))) \<and>
             (h < snd (snd res) \<longrightarrow>
                fst (follow h req w) = Inl (Err_request ''Maximum number of redirects exceeded''))"
  proof
    fix h
    obtain x w1 where iss: "issue req w = (x, w1)" by fastforce
    show "(snd (snd res) \<le> h \<longrightarrow> follow h req w = (http_outcome (fst res), fst (snd res))) \<and>
          (h < snd (snd res) \<longrightarrow>
             fst (follow h req w) = Inl (Err_request ''Maximum number of redirects exceeded''))"
    proof (cases x)
      case (Redirect st loc)
      with eq iss obtain r w2 n where fr: "f (req\<lparr>req_url := loc\<rparr>) w1 = Some (r, w2, n)"
        and res: "res = (r, w2, Suc n)"
        by (auto simp: bind_eq_Some_conv)
      show ?thesis
      proof (cases h)
        case 0
        with iss Redirect res show ?thesis by (simp add: follow.simps [of 0])
      next
        case (Suc h')
        with IH [OF fr] iss Redirect res show ?thesis by (simp add: follow.simps [of "Suc h'"])
      qed
    qed (use eq iss in \<open>auto simp: follow.simps [of h] validate_status_def\<close>)
  qed
qed

text \<open>The first request's reply decides the call when it is final.\<close>

lemma axios_get_direct_reply:
  "net w (get_request u t) (clock w) = Reply st txt d \<Longrightarrow>
   axios_get w u t =
     (if st < 400 then Inr \<lparr>status = st, status_text = txt, data = d\<rparr> else Inl (Err_response st txt),
      w\<lparr>calls := calls w @ [u], requests := requests w @ [get_request u t], clock := Suc (clock w)\<rparr>)"
  by (simp add: axios_get_def follow.simps issue_def validate_status_def)

lemma axios_get_direct_fail:
  "net w (get_request u t) (clock w) = Net_fail m \<Longrightarrow>
   axios_get w u t =
     (Inl (Err_request m),
      w\<lparr>calls := calls w @ [u], requests := requests w @ [get_request u t], clock := Suc (clock w)\<rparr>)"
  by (simp add: axios_get_def follow.simps issue_def)

text \<open>An error raised while the request is set up: nothing is sent.\<close>

lemma axios_get_direct_setup:
  "net w (get_request u t) (clock w) = Setup_fail m \<Longrightarrow>
   axios_get w u t = (Inl (Err_setup m), w\<lparr>calls := calls w @ [u]\<rparr>)"
  by (simp add: axios_get_def follow.simps issue_def)

subsection \<open>Properties of the transport\<close>

text \<open>A small world for the witnesses: every server answers 200 with a short page.\<close>

definition ok_world :: world where
  "ok_world = \<lparr>net = (\<lambda>q n. Reply 200 ''OK'' (JStr ''<p>hi</p>'')), clock = 0, calls = [],
     requests = [], errlog = []\<rparr>"

text \<open>Claim C27. Redirect cap: one \<open>axios.get\<close> issues at most six HTTP requests (the
  first and at most five redirects), so a fetch never loops on redirects.\<close>

theorem axios_get_request_bound:
  "axios_get w u t = (r, w') \<Longrightarrow> \<exists>rs. requests w' = requests w @ rs \<and> length rs \<le> 6"
  by (drule axios_get_frame) blast

theorem axios_get_request_bound_witness:
  "\<exists>rs. requests (snd (axios_get ok_world ''https://a.example'' 30000)) = requests ok_world @ rs \<and>
        length rs \<le> 6"
  using axios_get_request_bound [of ok_world "''https://a.example''" 30000
      "fst (axios_get ok_world ''https://a.example'' 30000)" "snd (axios_get ok_world ''https://a.example'' 30000)"]
  by simp

text \<open>Claim C39. Every HTTP request the transport issues, redirect hops included, carries the
  fixed user-agent and accept headers, the caller's timeout and the redirect cap of five.\<close>

theorem axios_get_request_headers:
  "axios_get w u t = (r, w') \<Longrightarrow> requests w' = requests w @ rs \<Longrightarrow>
   \<forall>q \<in> set rs. req_headers q = fetch_headers \<and> req_timeout q = t \<and> req_max_redirects q = 5"
  by (drule axios_get_frame) auto

theorem axios_get_request_headers_witness:
  "req_headers (get_request ''https://a.example'' 30000) = fetch_headers \<and>
   req_timeout (get_request ''https://a.example'' 30000) = 30000 \<and>
   req_max_redirects (get_request ''https://a.example'' 30000) = 5"
proof -
  have run: "axios_get ok_world ''https://a.example'' 30000 =
    (Inr \<lparr>status = 200, status_text = ''OK'', data = JStr ''<p>hi</p>''\<rparr>,
     ok_world\<lparr>calls := [''https://a.example''], requests := [get_request ''https://a.example'' 30000],
               clock := 1\<rparr>)"
    by (simp add: ok_world_def axios_get_def follow.simps issue_def validate_status_def)
  have "requests (ok_world\<lparr>calls := [''https://a.example''], requests := [get_request ''https://a.example'' 30000],
               clock := 1\<rparr>) = requests ok_world @ [get_request ''https://a.example'' 30000]"
    by (simp add: ok_world_def)
  from axios_get_request_headers [OF run this] show ?thesis by simp
qed

text \<open>Claim C29. \<open>validateStatus\<close>: the transport resolves only with a status below 400.\<close>

theorem axios_get_resolves_below_400:
  "fst (axios_get w u t) = Inr resp \<Longrightarrow> status resp < 400"
  unfolding axios_get_def Let_def by (drule follow_Inr) (simp add: validate_status_def)

theorem axios_get_resolves_below_400_witness:
  "fst (axios_get ok_world ''https://a.example'' 30000) =
     Inr \<lparr>status = 200, status_text = ''OK'', data = JStr ''<p>hi</p>''\<rparr> \<and>
   status \<lparr>status = 200::nat, status_text = ''OK'', data = JStr ''<p>hi</p>''\<rparr> < 400"
proof -
  have run: "fst (axios_get ok_world ''https://a.example'' 30000) =
     Inr \<lparr>status = 200, status_text = ''OK'', data = JStr ''<p>hi</p>''\<rparr>"
    by (simp add: ok_world_def axios_get_def follow.simps issue_def validate_status_def get_request_def)
  from run axios_get_resolves_below_400 [OF run] show ?thesis by simp
qed

text \<open>Claim C28. Liveness under endless redirects: against a server that redirects every
  request, the transport stops after exactly six requests with an error that has a request
  and no response.\<close>

theorem axios_get_redirect_limit:
  "net w = redirect_loop \<Longrightarrow>
   axios_get w u t = (Inl (Err_request ''Maximum number of redirects exceeded''),
     w\<lparr>calls := calls w @ [u], requests := requests w @ replicate 6 (get_request u t),
        clock := clock w + 6\<rparr>)"
  by (simp add: axios_get_def follow_redirect_loop get_request_def del: replicate.simps(2))

theorem axios_get_redirect_limit_witness:
  "fst (axios_get (ok_world\<lparr>net := redirect_loop\<rparr>) ''https://a.example'' 30000) =
     Inl (Err_request ''Maximum number of redirects exceeded'')"
  using axios_get_redirect_limit [of "ok_world\<lparr>net := redirect_loop\<rparr>" "''https://a.example''" 30000]
  by simp

text \<open>On a server that redirects forever the reference never returns.\<close>

lemma http_follow_redirect_loop:
  assumes "net w = redirect_loop"
  shows "http_follow req w = None"
proof (rule ccontr)
  assume "http_follow req w \<noteq> None"
  then obtain res where ret: "http_follow req w = Some res" by blast
  have "net w \<noteq> redirect_loop"
  proof (rule http_follow.raw_induct [where P = "\<lambda>req w res. net w \<noteq> redirect_loop", OF _ ret])
    fix f req w res
    assume IH: "\<And>req w res. f req w = Some res \<Longrightarrow> net w \<noteq> redirect_loop"
      and eq: "(case issue req w of
        (Redirect st loc, w') \<Rightarrow>
          Option.bind (f (req\<lparr>req_url := loc\<rparr>) w') (\<lambda>(x, w'', n). Some (x, w'', Suc n))
      | (x, w') \<Rightarrow> Some (x, w', 0)) = Some res"
    show "net w \<noteq> redirect_loop"
    proof
      assume loop: "net w = redirect_loop"
      let ?w1 = "w\<lparr>requests := requests w @ [req], clock := Suc (clock w)\<rparr>"
      from eq loop obtain res' where "f (req\<lparr>req_url := req_url req\<rparr>) ?w1 = Some res'"
        by (auto simp: issue_def redirect_loop_def bind_eq_Some_conv)
      from IH [OF this] loop show False by simp
    qed
  qed
  with assms show False by simp
qed

text \<open>Claim C9. The code's redirect configuration against HTTP's redirect semantics: on
  every server where following each redirect to its \<open>Location\<close> from the first request
  ends after \<open>n\<close> redirects with a final reply, \<open>axios.get\<close> as the code configures it
  returns that reply's outcome (success exactly below status 400), in the same world, when
  \<open>n \<le> 5\<close>, and rejects with the too-many-redirects error when \<open>n > 5\<close>.\<close>

theorem axios_get_refines_http_follow:
  assumes "http_follow (get_request u t) (w\<lparr>calls := calls w @ [u]\<rparr>) = Some (x, w', n)"
  shows "(n \<le> 5 \<longrightarrow> axios_get w u t = (http_outcome x, w')) \<and>
         (5 < n \<longrightarrow> fst (axios_get w u t) = Inl (Err_request ''Maximum number of redirects exceeded''))"
  using follow_agrees_all [OF assms] by (simp add: axios_get_def Let_def get_request_def)

theorem axios_get_refines_http_follow_witness:
  "http_follow (get_request ''https://a.example'' 30000)
     (ok_world\<lparr>net := (\<lambda>q n. if req_url q = ''https://a.example'' then Redirect 301 ''https://b.example''
                             else Reply 200 ''OK'' (JStr ''<p>b</p>'')), calls := [''https://a.example'']\<rparr>) =
     Some (Reply 200 ''OK'' (JStr ''<p>b</p>''),
       ok_world\<lparr>net := (\<lambda>q n. if req_url q = ''https://a.example'' then Redirect 301 ''https://b.example''
                             else Reply 200 ''OK'' (JStr ''<p>b</p>'')), calls := [''https://a.example''],
             requests := [get_request ''https://a.example'' 30000,
                          (get_request ''https://a.example'' 30000)\<lparr>req_url := ''https://b.example''\<rparr>],
             clock := 2\<rparr>, 1) \<and>
   axios_get (ok_world\<lparr>net := (\<lambda>q n. if req_url q = ''https://a.example'' then Redirect 301 ''https://b.example''
                             else Reply 200 ''OK'' (JStr ''<p>b</p>''))\<rparr>) ''https://a.example'' 30000 =
     (Inr \<lparr>status = 200, status_text = ''OK'', data = JStr ''<p>b</p>''\<rparr>,
       ok_world\<lparr>net := (\<lambda>q n. if req_url q = ''https://a.example'' then Redirect 301 ''https://b.example''
                             else Reply 200 ''OK'' (JStr ''<p>b</p>'')), calls := [''https://a.example''],
             requests := [get_request ''https://a.example'' 30000,
                          (get_request ''https://a.example'' 30000)\<lparr>req_url := ''https://b.example''\<rparr>],
             clock := 2\<rparr>)"
proof -
  let ?w = "ok_world\<lparr>net := (\<lambda>q n. if req_url q = ''https://a.example'' then Redirect 301 ''https://b.example''
                             else Reply 200 ''OK'' (JStr ''<p>b</p>''))\<rparr>"
  have hf: "http_follow (get_request ''https://a.example'' 30000) (?w\<lparr>calls := calls ?w @ [''https://a.example'']\<rparr>) =
     Some (Reply 200 ''OK'' (JStr ''<p>b</p>''),
       ?w\<lparr>calls := [''https://a.example''],
             requests := [get_request ''https://a.example'' 30000,
                          (get_request ''https://a.example'' 30000)\<lparr>req_url := ''https://b.example''\<rparr>],
             clock := 2\<rparr>, 1)"
    by (simp add: http_follow.simps issue_def get_request_def ok_world_def)
  from hf axios_get_refines_http_follow [OF hf] show ?thesis by (simp add: ok_world_def)
qed

end
