(* ===== verification/Extract.thy ===== *)
theory Extract
  imports Transport
begin

text \<open>
  The content extractor \<open>extractReadableContent(html, url)\<close> (\<open>src/build/index.js\<close>,
  lines 32--50). Building the JSDOM document from the page and running Mozilla Readability
  on it are collaborators; together they are one function \<open>rd\<close> from the page text and
  its URL to what \<open>reader.parse()\<close> did: return an article (or \<open>null\<close>), or throw.
  The page reaches JSDOM as \<open>String(html)\<close>. The extractor turns a throw into
  \<open>null\<close> and one \<open>console.error\<close> line, and accepts an article only when its title
  and content are truthy; a falsy byline becomes \<open>undefined\<close>.
\<close>

record article_raw =
  raw_title :: "string option"
  raw_content :: "string option"
  raw_byline :: "string option"

datatype readability_result = Parsed "article_raw option" | Threw string

record article =
  a_title :: string
  a_content :: string
  a_byline :: "string option"

definition accept_article :: "article_raw \<Rightarrow> article option" where
  "accept_article a =
     (case (raw_title a, raw_content a) of
        (Some t, Some c) \<Rightarrow>
          if t \<noteq> [] \<and> c \<noteq> []
          then Some \<lparr>a_title = t, a_content = c, a_byline = js_or (raw_byline a) None\<rparr>
          else None
      | _ \<Rightarrow> None)"

definition extract_readable_content ::
  "(string \<Rightarrow> url \<Rightarrow> readability_result) \<Rightarrow> js_value \<Rightarrow> url \<Rightarrow> world \<Rightarrow> article option \<times> world" where
  "extract_readable_content rd html u w =
     (case rd (js_to_string html) u of
        Threw msg \<Rightarrow> (None, w\<lparr>errlog := errlog w @ [''Readability extraction failed: '' @ msg]\<rparr>)
      | Parsed None \<Rightarrow> (None, w)
      | Parsed (Some a) \<Rightarrow> (accept_article a, w))"

lemmas extract_eval [model_simps] = accept_article_def extract_readable_content_def

subsection \<open>Properties of the extractor\<close>

lemma accept_article_Some:
  "accept_article a = Some art \<Longrightarrow>
   a_title art \<noteq> [] \<and> a_content art \<noteq> [] \<and> (\<forall>b. a_byline art = Some b \<longrightarrow> b \<noteq> [])"
  by (auto simp: accept_article_def js_or_def js_truthy_iff split: option.splits if_splits)

lemma extract_frame:
  "extract_readable_content rd html u w = (r, w') \<Longrightarrow>
   w' = w \<or> (\<exists>msg. w' = w\<lparr>errlog := errlog w @ [''Readability extraction failed: '' @ msg]\<rparr>)"
  by (auto simp: extract_readable_content_def split: readability_result.splits option.splits)

lemma extract_Some_accepted:
  "fst (extract_readable_content rd html u w) = Some art \<Longrightarrow>
   \<exists>a. rd (js_to_string html) u = Parsed (Some a) \<and> accept_article a = Some art"
  by (auto simp: extract_readable_content_def split: readability_result.splits option.splits)

text \<open>Claim C31. An extracted article always has a non-empty title and non-empty content,
  and a byline, when present, is non-empty: the truthiness checks of the code.\<close>

theorem extract_article_nonempty:
  "fst (extract_readable_content rd html u w) = Some art \<Longrightarrow>
   a_title art \<noteq> [] \<and> a_content art \<noteq> [] \<and> (\<forall>b. a_byline art = Some b \<longrightarrow> b \<noteq> [])"
  by (blast dest: extract_Some_accepted accept_article_Some)

theorem extract_article_nonempty_witness:
  "fst (extract_readable_content
          (\<lambda>s u. Parsed (Some \<lparr>raw_title = Some ''T'', raw_content = Some ''<p>x</p>'', raw_byline = Some []\<rparr>))
          (JStr ''<p>x</p>'') ''https://a.example'' ok_world) =
     Some \<lparr>a_title = ''T'', a_content = ''<p>x</p>'', a_byline = None\<rparr> \<and>
   a_title \<lparr>a_title = ''T'', a_content = ''<p>x</p>'', a_byline = None\<rparr> \<noteq> []"
proof -
  have run: "fst (extract_readable_content
          (\<lambda>s u. Parsed (Some \<lparr>raw_title = Some ''T'', raw_content = Some ''<p>x</p>'', raw_byline = Some []\<rparr>))
          (JStr ''<p>x</p>'') ''https://a.example'' ok_world) =
     Some \<lparr>a_title = ''T'', a_content = ''<p>x</p>'', a_byline = None\<rparr>"
    by (simp add: model_simps)
  from run extract_article_nonempty [OF run] show ?thesis by simp
qed

text \<open>Claim C30. Extraction failure is a value, not an error: when Readability throws, the
  extractor returns \<open>null\<close> and its only effect is one \<open>console.error\<close> line.\<close>

theorem extract_throw_is_null:
  "rd (js_to_string html) u = Threw msg \<Longrightarrow>
   extract_readable_content rd html u w =
     (None, w\<lparr>errlog := errlog w @ [''Readability extraction failed: '' @ msg]\<rparr>)"
  by (simp add: extract_readable_content_def)

theorem extract_throw_is_null_witness:
  "extract_readable_content (\<lambda>s u. Threw ''boom'') (JStr ''<p>x</p>'') ''https://a.example'' ok_world =
     (None, ok_world\<lparr>errlog := [''Readability extraction failed: boom'']\<rparr>)"
  using extract_throw_is_null [of "\<lambda>s u. Threw ''boom''" "JStr ''<p>x</p>''" "''https://a.example''" "''boom''"
      ok_world]
  by (simp add: ok_world_def)

end
