(* ===== verification/Turndown.thy ===== *)
theory Turndown
  imports Transport Html
begin

text \<open>
  The markdown converter: the turndown service configured at the top of
  \<open>src/build/index.js\<close> (lines 14--30) and the way turndown applies it.
  The program configures the options, keeps \<open>iframe\<close>, \<open>video\<close> and \<open>audio\<close> as
  raw HTML and adds a strikethrough rule; those are definitions of this theory, translated
  from the source. The rest of turndown is a collaborator: its HTML parser, its CommonMark
  rule set, its markdown escaping of text, its whitespace flanking of inline elements and its
  lists of block, void and meaningful-when-blank elements are the fields of \<open>md_engine\<close>.
  What turndown does with them is modelled from its documented behaviour: a rule is chosen
  for each element in the order blank rule, the rules in the service's rule list (rules
  added by \<open>addRule\<close> go in front of the CommonMark rules), kept elements, removed
  elements, default rule; children are converted first and the results joined with
  turndown's newline-collapsing \<open>join\<close>; the output is trimmed.
\<close>

datatype heading_style = Setext | Atx

datatype code_block_style = Indented | Fenced

record turndown_options =
  headingStyle :: heading_style
  codeBlockStyle :: code_block_style
  bulletListMarker :: string
  emDelimiter :: string
  strongDelimiter :: string

record md_rule =
  rule_filter :: "html \<Rightarrow> turndown_options \<Rightarrow> bool"
  rule_replacement :: "string \<Rightarrow> html \<Rightarrow> turndown_options \<Rightarrow> string"

record md_engine =
  md_parse :: "string \<Rightarrow> html list"
  commonmark_rules :: "md_rule list"
  escape_md :: "string \<Rightarrow> string"
  flanking :: "html \<Rightarrow> string \<times> string"
  block_tags :: "string list"
  void_tags :: "string list"
  meaningful_tags :: "string list"

record turndown_service =
  ts_options :: turndown_options
  ts_rules :: "md_rule list"
  ts_keep :: "string list list"
  ts_remove :: "string list list"

subsection \<open>The service API used by the program\<close>

definition new_turndown_service :: "md_engine \<Rightarrow> turndown_options \<Rightarrow> turndown_service" where
  "new_turndown_service e opts =
     \<lparr>ts_options = opts, ts_rules = commonmark_rules e, ts_keep = [], ts_remove = []\<rparr>"

text \<open>\<open>keep(filter)\<close> and \<open>addRule(key, rule)\<close> both put the new entry in front.\<close>

definition keep :: "string list \<Rightarrow> turndown_service \<Rightarrow> turndown_service" where
  "keep tags ts = ts\<lparr>ts_keep := tags # ts_keep ts\<rparr>"

definition add_rule :: "md_rule \<Rightarrow> turndown_service \<Rightarrow> turndown_service" where
  "add_rule r ts = ts\<lparr>ts_rules := r # ts_rules ts\<rparr>"

subsection \<open>The program's configuration (lines 14--30)\<close>

definition turndown_options_cfg :: turndown_options where
  "turndown_options_cfg =
     \<lparr>headingStyle = Atx, codeBlockStyle = Fenced, bulletListMarker = ''-'',
      emDelimiter = ''*'', strongDelimiter = ''**''\<rparr>"

definition kept_tags :: "string list" where
  "kept_tags = [''iframe'', ''video'', ''audio'']"

definition strikethrough_rule :: md_rule where
  "strikethrough_rule =
     \<lparr>rule_filter = (\<lambda>n opts. tag_of n \<in> Some ` set [''del'', ''s'', ''strike'']),
      rule_replacement = (\<lambda>content n opts. ''~~'' @ content @ ''~~'')\<rparr>"

definition turndown_service :: "md_engine \<Rightarrow> turndown_service" where
  "turndown_service e =
     add_rule strikethrough_rule (keep kept_tags (new_turndown_service e turndown_options_cfg))"

subsection \<open>Choosing a rule for an element\<close>

fun descendant_tags :: "html \<Rightarrow> string list" where
  "descendant_tags (Txt _) = []"
| "descendant_tags (Elem _ _ kids) =
     concat (map (\<lambda>k. (case tag_of k of Some t \<Rightarrow> [t] | None \<Rightarrow> []) @ descendant_tags k) kids)"

definition is_block :: "md_engine \<Rightarrow> html \<Rightarrow> bool" where
  "is_block e n = (case tag_of n of Some t \<Rightarrow> t \<in> set (block_tags e) | None \<Rightarrow> False)"

text \<open>Turndown's \<open>isBlank\<close>: not void, not meaningful when blank, only whitespace text, and
  no void or meaningful element inside.\<close>

definition is_blank :: "md_engine \<Rightarrow> html \<Rightarrow> bool" where
  "is_blank e n =
     (case tag_of n of
        None \<Rightarrow> False
      | Some t \<Rightarrow>
          t \<notin> set (void_tags e) \<and> t \<notin> set (meaningful_tags e) \<and>
          list_all is_js_space (text_content n) \<and>
          \<not> list_ex (\<lambda>d. d \<in> set (void_tags e) \<or> d \<in> set (meaningful_tags e)) (descendant_tags n))"

datatype rule_choice = Blank_rule | Use_rule md_rule | Keep_rule | Remove_rule | Default_rule

definition for_node :: "md_engine \<Rightarrow> turndown_service \<Rightarrow> html \<Rightarrow> rule_choice" where
  "for_node e ts n =
     (if is_blank e n then Blank_rule
      else (case find (\<lambda>r. rule_filter r n (ts_options ts)) (ts_rules ts) of
              Some r \<Rightarrow> Use_rule r
            | None \<Rightarrow>
                if list_ex (\<lambda>f. tag_of n \<in> Some ` set f) (ts_keep ts) then Keep_rule
                else if list_ex (\<lambda>f. tag_of n \<in> Some ` set f) (ts_remove ts) then Remove_rule
                else Default_rule))"

definition apply_rule ::
  "md_engine \<Rightarrow> turndown_service \<Rightarrow> rule_choice \<Rightarrow> string \<Rightarrow> html \<Rightarrow> string" where
  "apply_rule e ts c content n =
     (case c of
        Blank_rule \<Rightarrow> if is_block e n then ''\<newline>\<newline>'' else []
      | Use_rule r \<Rightarrow> rule_replacement r content n (ts_options ts)
      | Keep_rule \<Rightarrow>
          if is_block e n then ''\<newline>\<newline>'' @ outerHTML n @ ''\<newline>\<newline>'' else outerHTML n
      | Remove_rule \<Rightarrow> []
      | Default_rule \<Rightarrow> if is_block e n then ''\<newline>\<newline>'' @ content @ ''\<newline>\<newline>'' else content)"

subsection \<open>Converting a tree\<close>

text \<open>Turndown's \<open>join\<close>: the newlines between two pieces collapse to as many as the
  larger side has, at most two.\<close>

definition md_join :: "string \<Rightarrow> string \<Rightarrow> string" where
  "md_join out rep =
     (let s1 = rev (dropWhile (\<lambda>c. c = CHR 0x0A) (rev out));
          s2 = dropWhile (\<lambda>c. c = CHR 0x0A) rep;
          nls = max (length out - length s1) (length rep - length s2)
      in s1 @ take nls ''\<newline>\<newline>'' @ s2)"

text \<open>\<open>md_node e ts code n\<close>: the replacement for one node, \<open>code\<close> telling whether
  it sits inside a \<open>code\<close> element (text there is not escaped); \<open>md_nodes\<close> folds
  \<open>join\<close> over a child list, left to right.\<close>

fun md_node :: "md_engine \<Rightarrow> turndown_service \<Rightarrow> bool \<Rightarrow> html \<Rightarrow> string"
and md_nodes :: "md_engine \<Rightarrow> turndown_service \<Rightarrow> bool \<Rightarrow> string \<Rightarrow> html list \<Rightarrow> string" where
  "md_node e ts code (Txt s) = (if code then s else escape_md e s)"
| "md_node e ts code (Elem t attrs kids) =
     (let n = Elem t attrs kids;
          content = md_nodes e ts (code \<or> t = ''code'') [] kids;
          (lead, trail) = flanking e n;
          content' = (if lead \<noteq> [] \<or> trail \<noteq> [] then js_trim content else content)
      in lead @ apply_rule e ts (for_node e ts n) content' n @ trail)"
| "md_nodes e ts code acc [] = acc"
| "md_nodes e ts code acc (n # ns) = md_nodes e ts code (md_join acc (md_node e ts code n)) ns"

text \<open>\<open>postProcess\<close>: leading tabs and line breaks and trailing whitespace are removed.\<close>

definition post_process :: "string \<Rightarrow> string" where
  "post_process s =
     rev (dropWhile is_js_space (rev (dropWhile (\<lambda>c. c \<in> set [CHR 0x09, CHR 0x0D, CHR 0x0A]) s)))"

text \<open>\<open>turndownService.turndown(input)\<close>: a non-string input is a \<open>TypeError\<close>
  (\<open>Inl\<close>, its message), the empty string converts to itself, anything else is parsed,
  converted and trimmed.\<close>

definition turndown :: "md_engine \<Rightarrow> turndown_service \<Rightarrow> js_value \<Rightarrow> string + string" where
  "turndown e ts input =
     (case input of
        JOther s \<Rightarrow> Inl (s @ '' is not a string, or an element/document/fragment node.'')
      | JStr s \<Rightarrow> Inr (if s = [] then [] else post_process (md_nodes e ts False [] (md_parse e s))))"

lemmas turndown_eval [model_simps] =
  new_turndown_service_def keep_def add_rule_def turndown_options_cfg_def kept_tags_def
  strikethrough_rule_def turndown_service_def is_block_def is_blank_def for_node_def
  apply_rule_def md_join_def post_process_def turndown_def

subsection \<open>The configured service\<close>

lemma ts_rules_turndown_service: "ts_rules (turndown_service e) = strikethrough_rule # commonmark_rules e"
  by (simp add: turndown_service_def add_rule_def keep_def new_turndown_service_def)

lemma ts_keep_turndown_service: "ts_keep (turndown_service e) = [kept_tags]"
  by (simp add: turndown_service_def add_rule_def keep_def new_turndown_service_def)

lemma ts_remove_turndown_service: "ts_remove (turndown_service e) = []"
  by (simp add: turndown_service_def add_rule_def keep_def new_turndown_service_def)

lemma ts_options_turndown_service: "ts_options (turndown_service e) = turndown_options_cfg"
  by (simp add: turndown_service_def add_rule_def keep_def new_turndown_service_def)

lemmas turndown_service_fields [simp] =
  ts_rules_turndown_service ts_keep_turndown_service ts_remove_turndown_service
  ts_options_turndown_service


text \<open>An engine for the witnesses: parsing yields the text as one text node, no escaping,
  no flanking whitespace, no CommonMark rules, and turndown's element lists.\<close>

definition example_engine :: md_engine where
  "example_engine =
     \<lparr>md_parse = (\<lambda>s. [Txt s]), commonmark_rules = [], escape_md = id, flanking = (\<lambda>n. ([], [])),
      block_tags = [''address'', ''article'', ''aside'', ''audio'', ''blockquote'', ''body'', ''canvas'',
        ''center'', ''dd'', ''dir'', ''div'', ''dl'', ''dt'', ''fieldset'', ''figcaption'', ''figure'',
        ''footer'', ''form'', ''frameset'', ''h1'', ''h2'', ''h3'', ''h4'', ''h5'', ''h6'', ''header'',
        ''hgroup'', ''hr'', ''html'', ''isindex'', ''li'', ''main'', ''menu'', ''nav'', ''noframes'',
        ''noscript'', ''ol'', ''output'', ''p'', ''pre'', ''section'', ''table'', ''tbody'', ''td'',
        ''tfoot'', ''th'', ''thead'', ''tr'', ''ul''],
      void_tags = [''area'', ''base'', ''br'', ''col'', ''command'', ''embed'', ''hr'', ''img'', ''input'',
        ''keygen'', ''link'', ''meta'', ''param'', ''source'', ''track'', ''wbr''],
      meaningful_tags = [''a'', ''table'', ''thead'', ''tbody'', ''tfoot'', ''th'', ''td'', ''iframe'',
        ''script'', ''audio'', ''video'']\<rparr>"

subsection \<open>Properties of the converter\<close>

text \<open>Claim C24. Strikethrough: a non-blank \<open>del\<close>, \<open>s\<close> or \<open>strike\<close> element without
  flanking whitespace converts to its converted content between \<open>~~\<close> delimiters, whatever
  the CommonMark rules are: the added rule is tried before them.\<close>

theorem md_node_strikethrough:
  assumes "t \<in> {''del'', ''s'', ''strike''}" and "\<not> is_blank e (Elem t a k)"
    and "flanking e (Elem t a k) = ([], [])"
  shows "md_node e (turndown_service e) code (Elem t a k) =
           ''~~'' @ md_nodes e (turndown_service e) code [] k @ ''~~''"
proof -
  have "for_node e (turndown_service e) (Elem t a k) = Use_rule strikethrough_rule"
    using assms(1,2) by (auto simp: for_node_def strikethrough_rule_def)
  moreover have "(code \<or> t = ''code'') = code" using assms(1) by auto
  ultimately show ?thesis using assms(3)
    by (simp add: apply_rule_def strikethrough_rule_def)
qed

theorem md_node_strikethrough_witness:
  "md_node example_engine (turndown_service example_engine) False (Elem ''del'' [] [Txt ''text'']) =
     ''~~text~~''"
proof -
  have nb: "\<not> is_blank example_engine (Elem ''del'' [] [Txt ''text''])"
    by (simp add: is_blank_def example_engine_def is_js_space_def)
  have fl: "flanking example_engine (Elem ''del'' [] [Txt ''text'']) = ([], [])"
    by (simp add: example_engine_def)
  have "md_nodes example_engine (turndown_service example_engine) False [] [Txt ''text''] = ''text''"
    by (simp add: md_join_def example_engine_def)
  with md_node_strikethrough [OF _ nb fl, of False] show ?thesis by simp
qed



end
