(* ===== verification/Pipeline.thy ===== *)
theory Pipeline
  imports Metadata Extract Turndown
begin

text \<open>
  The fetch pipeline \<open>fetchSingleUrl(url, includeMetadata, simplify, timeout)\<close>
  (\<open>src/build/index.js\<close>, lines 82--187). The libraries it calls are the fields of
  \<open>libs\<close>: JSDOM with Readability (\<open>readability\<close>), JSDOM alone for the metadata
  document (\<open>dom_parse\<close>), turndown's internals (\<open>engine\<close>), \<open>Date.toISOString\<close> of the
  world's clock (\<open>iso_time\<close>) and zod's URL check used by the tool schemas
  (\<open>url_valid\<close>, used in theory \<open>Tools\<close>). The whole \<open>try\<close> block is a function of
  the world; an exception is a value of type \<open>thrown\<close> that the \<open>catch\<close> block turns into
  the result \<open>{success: false, error}\<close>.
\<close>

record libs =
  readability :: "string \<Rightarrow> url \<Rightarrow> readability_result"
  dom_parse :: "string \<Rightarrow> html list"
  engine :: md_engine
  iso_time :: "nat \<Rightarrow> string"
  url_valid :: "string \<Rightarrow> bool"

text \<open>What the \<open>catch\<close> block can receive: an axios error, another \<open>Error\<close> (its
  message), or a thrown value that is not an \<open>Error\<close>.\<close>

datatype thrown = Thrown_axios axios_error | Thrown_error string | Thrown_value

text \<open>\<open>{success: true, content}\<close> or \<open>{success: false, error}\<close>.\<close>

datatype fetch_result = Fetch_ok string | Fetch_err string

subsection \<open>The \<open>catch\<close> block (lines 169--186)\<close>

fun error_message :: "thrown \<Rightarrow> string" where
  "error_message (Thrown_axios (Err_response st txt)) = ''HTTP '' @ show_nat st @ '': '' @ txt"
| "error_message (Thrown_axios (Err_request m)) = ''No response received from server''"
| "error_message (Thrown_axios (Err_setup m)) = m"
| "error_message (Thrown_error m) = m"
| "error_message Thrown_value = ''Failed to fetch URL''"

subsection \<open>Markdown and seeded metadata (lines 96--120)\<close>

text \<open>With an article and metadata requested, the title and a truthy byline are written
  first (lines 105--110).\<close>

definition seed_metadata :: "bool \<Rightarrow> article \<Rightarrow> metadata" where
  "seed_metadata include a =
     (if include then
        (let md = AList.update ''title'' (a_title a) []
         in case a_byline a of Some b \<Rightarrow> if b \<noteq> [] then AList.update ''author'' b md else md
                             | None \<Rightarrow> md)
      else [])"

text \<open>The markdown body and the seeded metadata, or the message of the \<open>TypeError\<close>
  turndown throws; the world changes only by the extractor's log line.\<close>

definition convert_page ::
  "libs \<Rightarrow> url \<Rightarrow> bool \<Rightarrow> bool \<Rightarrow> js_value \<Rightarrow> world \<Rightarrow> (string + string \<times> metadata) \<times> world" where
  "convert_page L u include simplify html w =
     (let e = engine L; ts = turndown_service e
      in if simplify then
           (case extract_readable_content (readability L) html u w of
              (Some a, w1) \<Rightarrow>
                (map_sum id (\<lambda>m. (m, seed_metadata include a)) (turndown e ts (JStr (a_content a))), w1)
            | (None, w1) \<Rightarrow> (map_sum id (\<lambda>m. (m, [])) (turndown e ts html), w1))
         else (map_sum id (\<lambda>m. (m, [])) (turndown e ts html), w))"

subsection \<open>The pipeline (lines 82--187)\<close>

definition fetch_single_url ::
  "libs \<Rightarrow> url \<Rightarrow> bool \<Rightarrow> bool \<Rightarrow> int \<Rightarrow> world \<Rightarrow> fetch_result \<times> world" where
  "fetch_single_url L u include simplify timeout w =
     (case axios_get w u timeout of
        (Inl err, w1) \<Rightarrow> (Fetch_err (error_message (Thrown_axios err)), w1)
      | (Inr resp, w1) \<Rightarrow>
          (case convert_page L u include simplify (data resp) w1 of
             (Inl msg, w2) \<Rightarrow> (Fetch_err (error_message (Thrown_error msg)), w2)
           | (Inr (markdown, md), w2) \<Rightarrow>
               (let md' = (if include
                           then harvest_metadata (dom_parse L (js_to_string (data resp))) u
                                  (iso_time L (clock w2)) md
                           else md)
                in (Fetch_ok (format_content include md' markdown), w2))))"

lemmas pipeline_eval [model_simps] = seed_metadata_def convert_page_def fetch_single_url_def

subsection \<open>Effects on the world\<close>

lemma convert_page_frame:
  "convert_page L u inc simp html w = (r, w') \<Longrightarrow>
   net w' = net w \<and> calls w' = calls w \<and> requests w' = requests w \<and> clock w' = clock w"
  by (auto simp: convert_page_def Let_def split: if_splits prod.splits option.splits
           dest!: extract_frame)

lemma fetch_single_url_frame:
  "fetch_single_url L u inc simp t w = (r, w') \<Longrightarrow>
   net w' = net w \<and> calls w' = calls w @ [u] \<and>
   (\<exists>rs. requests w' = requests w @ rs \<and> length rs \<le> 6 \<and>
         (\<forall>q \<in> set rs. req_headers q = fetch_headers \<and> req_timeout q = t))"
  by (auto simp: fetch_single_url_def Let_def split: prod.splits sum.splits
           dest!: axios_get_frame convert_page_frame)

text \<open>Without metadata a fetch's result depends on the server alone: conversion reads
  no part of the world, and only the metadata's \<open>fetchedAt\<close> reads the clock.\<close>

lemma convert_page_result:
  "fst (convert_page L u inc s html w') = fst (convert_page L u inc s html w)"
  by (simp add: convert_page_def extract_readable_content_def Let_def
      split: readability_result.split option.split)

lemma fetch_single_url_static:
  assumes "\<forall>q n. net w q n = net w q 0" and "net w' = net w"
  shows "fst (fetch_single_url L u False s t w') = fst (fetch_single_url L u False s t w)"
proof -
  obtain r w1 where a: "axios_get w u t = (r, w1)" by fastforce
  obtain w1' where a': "axios_get w' u t = (r, w1')"
    using axios_get_static [OF assms, of u t] a by (metis prod.collapse fst_conv)
  show ?thesis
  proof (cases r)
    case (Inr resp)
    obtain c w2 where cv: "convert_page L u False s (data resp) w1 = (c, w2)" by fastforce
    obtain w2' where cv': "convert_page L u False s (data resp) w1' = (c, w2')"
      using convert_page_result [of L u False s "data resp" w1' w1] cv by (metis prod.collapse fst_conv)
    from a a' cv cv' Inr show ?thesis
      by (simp add: fetch_single_url_def split: sum.split)
  qed (use a a' in \<open>simp add: fetch_single_url_def\<close>)
qed


lemma convert_page_no_simplify:
  "convert_page L u inc False html w =
     (map_sum id (\<lambda>m. (m, [])) (turndown (engine L) (turndown_service (engine L)) html), w)"
  by (simp add: convert_page_def Let_def)

lemma keys_seed_metadata: "fst ` set (seed_metadata inc a) \<subseteq> {''title'', ''author''}"
  by (auto simp: seed_metadata_def Let_def dom_update split: option.splits if_splits)

lemma convert_page_keys:
  "convert_page L u inc s html w = (Inr (m, md), w') \<Longrightarrow> fst ` set md \<subseteq> {''title'', ''author''}"
proof -
  assume cv: "convert_page L u inc s html w = (Inr (m, md), w')"
  then have "md = [] \<or> (\<exists>a. md = seed_metadata inc a)"
    by (auto simp: convert_page_def Let_def split: if_splits prod.splits option.splits)
  with keys_seed_metadata show ?thesis by auto
qed

lemma seed_metadata_title: "map_of (seed_metadata True a) ''title'' = Some (a_title a)"
  by (simp add: seed_metadata_def Let_def split: option.splits)

subsection \<open>Properties of the pipeline\<close>

text \<open>Libraries for the witnesses: Readability finds no article, JSDOM yields an empty
  document, turndown is the example engine of theory \<open>Turndown\<close>.\<close>

definition example_libs :: libs where
  "example_libs =
     \<lparr>readability = (\<lambda>s u. Parsed None), dom_parse = (\<lambda>s. []), engine = example_engine,
      iso_time = (\<lambda>n. ''1970-01-01T00:00:00.000Z''), url_valid = (\<lambda>s. sublist ''://'' s)\<rparr>"

text \<open>Claim C4. A response with status 400 or more makes the fetch fail with the message
  \<open>HTTP <status>: <statusText>\<close> of that response, whatever the options.\<close>

theorem fetch_single_url_http_error:
  assumes "net w (get_request u t) (clock w) = Reply st txt d" and "400 \<le> st"
  shows "fst (fetch_single_url L u inc simp t w) = Fetch_err (''HTTP '' @ show_nat st @ '': '' @ txt)"
  using assms by (simp add: fetch_single_url_def axios_get_direct_reply)

theorem fetch_single_url_http_error_witness:
  "fst (fetch_single_url example_libs ''https://a.example'' False True 30000
          (ok_world\<lparr>net := (\<lambda>q n. Reply 404 ''Not Found'' (JStr []))\<rparr>)) =
     Fetch_err ''HTTP 404: Not Found''"
proof -
  have "net (ok_world\<lparr>net := (\<lambda>q n. Reply 404 ''Not Found'' (JStr []))\<rparr>)
          (get_request ''https://a.example'' 30000)
          (clock (ok_world\<lparr>net := (\<lambda>q n. Reply 404 ''Not Found'' (JStr []))\<rparr>)) =
        Reply 404 ''Not Found'' (JStr [])" by simp
  from fetch_single_url_http_error [OF this, where L = example_libs and inc = False and simp = True]
  show ?thesis
    by (simp add: show_nat_eval)
qed

text \<open>Claim C32. A transport failure after the request was sent (connection refused, DNS
  failure, timeout) is reported with the fixed message \<open>No response received from
  server\<close>, not with the transport's own message.\<close>

theorem fetch_single_url_no_response:
  "net w (get_request u t) (clock w) = Net_fail msg \<Longrightarrow>
   fst (fetch_single_url L u inc simp t w) = Fetch_err ''No response received from server''"
  by (simp add: fetch_single_url_def axios_get_direct_fail)

theorem fetch_single_url_no_response_witness:
  "fst (fetch_single_url example_libs ''https://a.example'' False True 30000
          (ok_world\<lparr>net := (\<lambda>q n. Net_fail ''timeout of 30000ms exceeded'')\<rparr>)) =
     Fetch_err ''No response received from server''"
proof -
  have "net (ok_world\<lparr>net := (\<lambda>q n. Net_fail ''timeout of 30000ms exceeded'')\<rparr>)
          (get_request ''https://a.example'' 30000)
          (clock (ok_world\<lparr>net := (\<lambda>q n. Net_fail ''timeout of 30000ms exceeded'')\<rparr>)) =
        Net_fail ''timeout of 30000ms exceeded''" by simp
  from fetch_single_url_no_response [OF this, where L = example_libs and inc = False and simp = True]
  show ?thesis by simp
qed

text \<open>Claim C5. Fallback: with \<open>simplify\<close> on and no article extracted, the result is the
  markdown of the whole page, and the only effect of the failed extraction on the world is
  the extractor's own.\<close>

theorem fetch_single_url_fallback:
  assumes "axios_get w u t = (Inr resp, w1)"
    and "extract_readable_content (readability L) (data resp) u w1 = (None, w2)"
    and "turndown (engine L) (turndown_service (engine L)) (data resp) = Inr m"
  shows "fetch_single_url L u False True t w = (Fetch_ok m, w2)"
  using assms by (simp add: fetch_single_url_def convert_page_def format_content_def)

theorem fetch_single_url_fallback_witness:
  "fetch_single_url example_libs ''https://a.example'' False True 30000 ok_world =
     (Fetch_ok ''<p>hi</p>'', snd (axios_get ok_world ''https://a.example'' 30000))"
proof -
  have ax: "axios_get ok_world ''https://a.example'' 30000 =
             (Inr \<lparr>status = 200, status_text = ''OK'', data = JStr ''<p>hi</p>''\<rparr>,
              snd (axios_get ok_world ''https://a.example'' 30000))"
    by (simp add: ok_world_def axios_get_def follow.simps issue_def validate_status_def get_request_def)
  have ex: "extract_readable_content (readability example_libs) (JStr ''<p>hi</p>'') ''https://a.example''
              (snd (axios_get ok_world ''https://a.example'' 30000)) =
            (None, snd (axios_get ok_world ''https://a.example'' 30000))"
    by (simp add: extract_readable_content_def example_libs_def)
  have td: "turndown (engine example_libs) (turndown_service (engine example_libs)) (JStr ''<p>hi</p>'') =
              Inr ''<p>hi</p>''"
    by (simp add: example_libs_def example_engine_def turndown_def md_join_def post_process_def
                  is_js_space_def)
  from fetch_single_url_fallback [OF ax] ex td show ?thesis by simp
qed

text \<open>Claim C6. Whenever metadata is requested and the fetch succeeds, the text opens with a
  front-matter block: a \<open>---\<close> line, one \<open>key: value\<close> line per entry, whose last two are
  \<open>url\<close> (the requested URL) and \<open>fetchedAt\<close> (the completion time), a closing \<open>---\<close> line
  and an empty line before the markdown, even for a page with no title and no meta tags.\<close>

theorem fetch_single_url_front_matter:
  assumes "fetch_single_url L u True s t w = (Fetch_ok out, w')"
  shows "\<exists>pre body.
           out = ''---\<newline>'' @ concat (map (\<lambda>kv. fst kv @ '': '' @ snd kv @ ''\<newline>'') pre) @
                 ''url: '' @ u @ ''\<newline>fetchedAt: '' @ iso_time L (clock w') @ ''\<newline>---\<newline>\<newline>'' @ body"
proof -
  obtain r1 w1 where ax: "axios_get w u t = (r1, w1)" by fastforce
  with assms obtain resp where r1: "r1 = Inr resp"
    by (cases r1) (auto simp: fetch_single_url_def)
  obtain r2 w2 where cv: "convert_page L u True s (data resp) w1 = (r2, w2)" by fastforce
  with assms ax r1 obtain m md where r2: "r2 = Inr (m, md)" and w2: "w2 = w'"
    and out: "out = format_content True (harvest_metadata (dom_parse L (js_to_string (data resp))) u
                        (iso_time L (clock w')) md) m"
    by (cases r2) (auto simp: fetch_single_url_def Let_def)
  from convert_page_keys cv r2 have "fst ` set md \<subseteq> {''title'', ''author''}" by blast
  then have nk: "''url'' \<notin> fst ` set md" "''fetchedAt'' \<notin> fst ` set md" by auto
  let ?D = "dom_parse L (js_to_string (data resp))" and ?T = "iso_time L (clock w')"
  have "harvest_metadata ?D u ?T md =
          harvest_meta_tags ?D (harvest_title ?D md) @ [(''url'', u), (''fetchedAt'', ?T)]"
    by (rule harvest_metadata_appends [OF nk])
  with out have o: "out = format_content True (harvest_meta_tags ?D (harvest_title ?D md) @
                          [(''url'', u), (''fetchedAt'', ?T)]) m" by simp
  have fl: "front_matter_line = (\<lambda>kv. fst kv @ '': '' @ snd kv @ ''\<newline>'')"
    by (rule ext) (simp add: front_matter_line_def)
  show ?thesis
    by (intro exI [of _ "harvest_meta_tags ?D (harvest_title ?D md)"] exI [of _ m])
       (simp add: o format_content_def front_matter_def fl)
qed

theorem fetch_single_url_front_matter_witness:
  "fst (fetch_single_url example_libs ''https://a.example'' True True 30000 ok_world) =
     Fetch_ok ''---\<newline>url: https://a.example\<newline>fetchedAt: 1970-01-01T00:00:00.000Z\<newline>---\<newline>\<newline><p>hi</p>'' \<and>
   (\<exists>pre body. ''---\<newline>url: https://a.example\<newline>fetchedAt: 1970-01-01T00:00:00.000Z\<newline>---\<newline>\<newline><p>hi</p>'' =
      ''---\<newline>'' @ concat (map (\<lambda>kv. fst kv @ '': '' @ snd kv @ ''\<newline>'') pre) @
      ''url: https://a.example\<newline>fetchedAt: 1970-01-01T00:00:00.000Z\<newline>---\<newline>\<newline>'' @ body)"
proof -
  have run: "fetch_single_url example_libs ''https://a.example'' True True 30000 ok_world =
     (Fetch_ok ''---\<newline>url: https://a.example\<newline>fetchedAt: 1970-01-01T00:00:00.000Z\<newline>---\<newline>\<newline><p>hi</p>'',
      snd (axios_get ok_world ''https://a.example'' 30000))"
    by (simp add: fetch_single_url_def ok_world_def axios_get_def follow.simps issue_def
        validate_status_def get_request_def convert_page_def extract_readable_content_def example_libs_def
        example_engine_def turndown_def md_join_def post_process_def is_js_space_def
        harvest_metadata_def harvest_title_def harvest_meta_tags_def query_selector_def
        query_selector_all_def format_content_def front_matter_def front_matter_line_def)
  have "iso_time example_libs (clock (snd (axios_get ok_world ''https://a.example'' 30000))) =
          ''1970-01-01T00:00:00.000Z''"
    by (simp add: example_libs_def)
  with run fetch_single_url_front_matter [OF run] show ?thesis by simp
qed

text \<open>Claim C35. A response whose body axios parsed into a non-string value (a JSON
  document) makes the fetch fail with turndown's \<open>TypeError\<close> message when the full page
  is converted.\<close>

theorem fetch_single_url_non_string_body:
  assumes "axios_get w u t = (Inr resp, w1)" and "data resp = JOther s"
  shows "fst (fetch_single_url L u inc False t w) =
           Fetch_err (s @ '' is not a string, or an element/document/fragment node.'')"
  using assms by (simp add: fetch_single_url_def convert_page_def turndown_def)

theorem fetch_single_url_non_string_body_witness:
  "fst (fetch_single_url example_libs ''https://a.example'' False False 30000
          (ok_world\<lparr>net := (\<lambda>q n. Reply 200 ''OK'' (JOther ''[object Object]''))\<rparr>)) =
     Fetch_err ''[object Object] is not a string, or an element/document/fragment node.''"
proof -
  let ?w = "ok_world\<lparr>net := (\<lambda>q n. Reply 200 ''OK'' (JOther ''[object Object]''))\<rparr>"
  have ax: "axios_get ?w ''https://a.example'' 30000 =
     (Inr \<lparr>status = 200, status_text = ''OK'', data = JOther ''[object Object]''\<rparr>,
      snd (axios_get ?w ''https://a.example'' 30000))"
    by (simp add: axios_get_def follow.simps issue_def validate_status_def get_request_def)
  from fetch_single_url_non_string_body [OF ax, where s = "''[object Object]''" and L = example_libs
      and inc = False]
  show ?thesis by simp
qed

text \<open>Claim C34. A successful fetch can have empty text: an empty page converts to the
  empty string and, without metadata, the result is \<open>{success: true, content: ''}\<close>.\<close>

theorem fetch_single_url_empty_page:
  assumes "axios_get w u t = (Inr resp, w1)" and "data resp = JStr []"
  shows "fst (fetch_single_url L u False False t w) = Fetch_ok []"
  using assms by (simp add: fetch_single_url_def convert_page_def turndown_def format_content_def)

theorem fetch_single_url_empty_page_witness:
  "fst (fetch_single_url example_libs ''https://a.example'' False False 30000
          (ok_world\<lparr>net := (\<lambda>q n. Reply 200 ''OK'' (JStr []))\<rparr>)) = Fetch_ok []"
proof -
  let ?w = "ok_world\<lparr>net := (\<lambda>q n. Reply 200 ''OK'' (JStr []))\<rparr>"
  have ax: "axios_get ?w ''https://a.example'' 30000 =
     (Inr \<lparr>status = 200, status_text = ''OK'', data = JStr []\<rparr>, snd (axios_get ?w ''https://a.example'' 30000))"
    by (simp add: axios_get_def follow.simps issue_def validate_status_def get_request_def)
  from fetch_single_url_empty_page [OF ax, where L = example_libs] show ?thesis by simp
qed

text \<open>Claim C11. Title precedence: with simplification and metadata requested, when an
  article is extracted the front matter's \<open>title\<close> is the article's title, whatever
  \<open>title\<close> element the page has.\<close>

theorem fetch_single_url_article_title:
  assumes "axios_get w u t = (Inr resp, w1)"
    and "extract_readable_content (readability L) (data resp) u w1 = (Some a, w2)"
    and "turndown (engine L) (turndown_service (engine L)) (JStr (a_content a)) = Inr m"
  shows "\<exists>md. fetch_single_url L u True True t w = (Fetch_ok (format_content True md m), w2) \<and>
              map_of md ''title'' = Some (a_title a)"
proof -
  from assms(2) extract_Some_accepted [of "readability L" "data resp" u w1 a] accept_article_Some
  have "a_title a \<noteq> []" by fastforce
  then have "js_truthy (map_of (seed_metadata True a) ''title'')" by (simp add: seed_metadata_title)
  note keep = map_of_harvest_metadata_title [OF this, of "dom_parse L (js_to_string (data resp))" u
      "iso_time L (clock w2)"]
  from assms have "fetch_single_url L u True True t w =
      (Fetch_ok (format_content True (harvest_metadata (dom_parse L (js_to_string (data resp))) u
                  (iso_time L (clock w2)) (seed_metadata True a)) m), w2)"
    by (simp add: fetch_single_url_def convert_page_def)
  with keep seed_metadata_title show ?thesis by auto
qed

theorem fetch_single_url_article_title_witness:
  "(\<exists>md. fetch_single_url
       (example_libs\<lparr>readability := (\<lambda>s u. Parsed (Some \<lparr>raw_title = Some ''Article'',
            raw_content = Some ''x'', raw_byline = None\<rparr>)),
                     dom_parse := (\<lambda>s. [Elem ''title'' [] [Txt ''Page'']])\<rparr>)
       ''https://a.example'' True True 30000 ok_world =
     (Fetch_ok (format_content True md ''x''), snd (axios_get ok_world ''https://a.example'' 30000)) \<and>
     map_of md ''title'' = Some ''Article'') \<and>
   query_selector ''title'' [Elem ''title'' [] [Txt ''Page'']] = Some (Elem ''title'' [] [Txt ''Page''])"
proof -
  let ?L = "example_libs\<lparr>readability := (\<lambda>s u. Parsed (Some \<lparr>raw_title = Some ''Article'',
          raw_content = Some ''x'', raw_byline = None\<rparr>)),
                   dom_parse := (\<lambda>s. [Elem ''title'' [] [Txt ''Page'']])\<rparr>"
  let ?w1 = "snd (axios_get ok_world ''https://a.example'' 30000)"
  let ?r = "\<lparr>status = 200, status_text = ''OK'', data = JStr ''<p>hi</p>''\<rparr>"
  let ?a = "\<lparr>a_title = ''Article'', a_content = ''x'', a_byline = None\<rparr>"
  have ax: "axios_get ok_world ''https://a.example'' 30000 = (Inr ?r, ?w1)"
    by (simp add: ok_world_def axios_get_def follow.simps issue_def validate_status_def get_request_def)
  have ex: "extract_readable_content (readability ?L) (data ?r) ''https://a.example'' ?w1 = (Some ?a, ?w1)"
    by (simp add: extract_readable_content_def accept_article_def js_or_def)
  have td: "turndown (engine ?L) (turndown_service (engine ?L)) (JStr (a_content ?a)) = Inr ''x''"
    by (simp add: example_libs_def example_engine_def turndown_def md_join_def post_process_def
                  is_js_space_def)
  from fetch_single_url_article_title [OF ax ex td] show ?thesis
    by (simp add: query_selector_def query_selector_all_def)
qed

text \<open>Claim C23. An error raised before any request is sent (an unsupported protocol, a
  malformed URL) is reported with the error's own message, and nothing reaches the
  network.\<close>

theorem fetch_single_url_setup_error:
  "net w (get_request u t) (clock w) = Setup_fail m \<Longrightarrow>
   fetch_single_url L u inc simp t w = (Fetch_err m, w\<lparr>calls := calls w @ [u]\<rparr>)"
  by (simp add: fetch_single_url_def axios_get_direct_setup)

theorem fetch_single_url_setup_error_witness:
  "fetch_single_url example_libs ''ftp://a.example'' False True 30000
          (ok_world\<lparr>net := (\<lambda>q n. Setup_fail ''Unsupported protocol ftp:'')\<rparr>) =
     (Fetch_err ''Unsupported protocol ftp:'',
      ok_world\<lparr>net := (\<lambda>q n. Setup_fail ''Unsupported protocol ftp:''), calls := [''ftp://a.example'']\<rparr>)"
proof -
  have "net (ok_world\<lparr>net := (\<lambda>q n. Setup_fail ''Unsupported protocol ftp:'')\<rparr>)
          (get_request ''ftp://a.example'' 30000)
          (clock (ok_world\<lparr>net := (\<lambda>q n. Setup_fail ''Unsupported protocol ftp:'')\<rparr>)) =
        Setup_fail ''Unsupported protocol ftp:''" by simp
  from fetch_single_url_setup_error [OF this, where L = example_libs and inc = False and simp = True]
  show ?thesis by (simp add: ok_world_def)
qed

text \<open>Claim C21. Without simplification Readability is never run: the fetch's result and
  its effect on the world are the same whatever Readability would do, and nothing is
  written to standard error.\<close>

theorem fetch_single_url_no_simplify:
  "fetch_single_url (L\<lparr>readability := rd\<rparr>) u inc False t w = fetch_single_url L u inc False t w \<and>
   errlog (snd (fetch_single_url L u inc False t w)) = errlog w"
proof -
  obtain r w1 where a: "axios_get w u t = (r, w1)" by fastforce
  from axios_get_frame [OF a] have "errlog w1 = errlog w" by simp
  with a show ?thesis
    by (cases r) (simp_all add: fetch_single_url_def convert_page_no_simplify split: sum.split)
qed



end
