(* ===== verification/Tools.thy ===== *)
theory Tools
  imports Pipeline
begin

text \<open>
  The two MCP tools of \<open>src/build/index.js\<close>: \<open>fetch_url\<close> (lines 52--80) and
  \<open>fetch_urls\<close> (lines 189--233). Each tool's zod schema validates the arguments and fills
  in the defaults before the handler runs; a failed validation is answered by the SDK with an
  invalid-parameters error and the handler never runs (\<open>Invalid_params\<close>). A handler's
  answer is a text content item with its \<open>isError\<close> flag (\<open>Tool_text\<close>).

  The batch handler pushes one result per URL while it awaits \<open>fetchSingleUrl\<close> for the
  URLs one after the other (\<open>fetch_loop\<close>), then renders the report. Its abstract
  specification is the inductive relation \<open>batch_spec\<close>: a batch run is a sequence of
  single fetches, each in the world the previous one left, one outcome per URL.
\<close>

datatype tool_response = Tool_text string bool | Invalid_params

record fetch_url_args =
  url_arg :: string
  include_metadata_arg :: "bool option"
  simplify_arg :: "bool option"
  timeout_arg :: "int option"

record fetch_urls_args =
  urls_arg :: "string list"
  batch_include_metadata_arg :: "bool option"
  batch_simplify_arg :: "bool option"
  batch_timeout_arg :: "int option"

text \<open>zod's \<open>.optional().default(d)\<close>.\<close>

definition with_default :: "'a \<Rightarrow> 'a option \<Rightarrow> 'a" where
  "with_default d v = (case v of None \<Rightarrow> d | Some x \<Rightarrow> x)"

subsection \<open>\<open>fetch_url\<close> (lines 52--80)\<close>

definition fetch_url_handler ::
  "libs \<Rightarrow> url \<Rightarrow> bool \<Rightarrow> bool \<Rightarrow> int \<Rightarrow> world \<Rightarrow> tool_response \<times> world" where
  "fetch_url_handler L u include simplify timeout w =
     (case fetch_single_url L u include simplify timeout w of
        (Fetch_ok c, w') \<Rightarrow>
          if c \<noteq> [] then (Tool_text c False, w')
          else (Tool_text (''Error fetching '' @ u @ '': '' @ ''Unknown error'') True, w')
      | (Fetch_err e, w') \<Rightarrow>
          (Tool_text (''Error fetching '' @ u @ '': '' @ (if e \<noteq> [] then e else ''Unknown error'')) True, w'))"

definition fetch_url_tool :: "libs \<Rightarrow> fetch_url_args \<Rightarrow> world \<Rightarrow> tool_response \<times> world" where
  "fetch_url_tool L a w =
     (if url_valid L (url_arg a)
      then fetch_url_handler L (url_arg a) (with_default False (include_metadata_arg a))
             (with_default True (simplify_arg a)) (with_default 30000 (timeout_arg a)) w
      else (Invalid_params, w))"

subsection \<open>\<open>fetch_urls\<close> (lines 189--233)\<close>

datatype batch_item = Item_ok url string | Item_err url string

fun item_url :: "batch_item \<Rightarrow> url" where
  "item_url (Item_ok u _) = u"
| "item_url (Item_err u _) = u"

text \<open>The object pushed for one URL (lines 198--211).\<close>

fun to_item :: "url \<Rightarrow> fetch_result \<Rightarrow> batch_item" where
  "to_item u (Fetch_ok c) = Item_ok u c"
| "to_item u (Fetch_err e) = Item_err u e"

lemma item_url_to_item [simp]: "item_url (to_item u r) = u"
  by (cases r) auto

text \<open>The \<open>for ... of\<close> loop (lines 195--212): \<open>results\<close> is the array pushed to.\<close>

fun fetch_loop ::
  "libs \<Rightarrow> bool \<Rightarrow> bool \<Rightarrow> int \<Rightarrow> batch_item list \<Rightarrow> url list \<Rightarrow> world \<Rightarrow> batch_item list \<times> world" where
  "fetch_loop L include simplify timeout results [] w = (results, w)"
| "fetch_loop L include simplify timeout results (u # us) w =
     (case fetch_single_url L u include simplify timeout w of
        (r, w1) \<Rightarrow> fetch_loop L include simplify timeout (results @ [to_item u r]) us w1)"

text \<open>The report (lines 213--224): starting from the heading, the loop appends to
  \<open>output\<close>, for each result in turn, the URL's heading, its content or its error line,
  and a rule.\<close>

definition render_step :: "string \<Rightarrow> batch_item \<Rightarrow> string" where
  "render_step output result =
     (let output = output @ ''## '' @ item_url result @ ''\<newline>\<newline>'';
          output = (case result of
                      Item_ok u c \<Rightarrow> output @ c @ ''\<newline>\<newline>''
                    | Item_err u e \<Rightarrow> output @ ''**Error:** '' @ e @ ''\<newline>\<newline>'')
      in output @ ''---\<newline>\<newline>'')"

definition render_batch :: "batch_item list \<Rightarrow> string" where
  "render_batch results = foldl render_step ''# Batch Fetch Results\<newline>\<newline>'' results"

text \<open>The report as the spec describes it (section 4.5): a top-level heading, then for
  each URL in input order a section made of a subheading with the URL, the markdown text or
  an \<open>**Error:**\<close> line, and a horizontal rule.\<close>

fun report_section :: "batch_item \<Rightarrow> string" where
  "report_section (Item_ok u c) =
     ''## '' @ u @ ''\<newline>\<newline>'' @ c @ ''\<newline>\<newline>'' @ ''---\<newline>\<newline>''"
| "report_section (Item_err u e) =
     ''## '' @ u @ ''\<newline>\<newline>'' @ ''**Error:** '' @ e @ ''\<newline>\<newline>'' @ ''---\<newline>\<newline>''"

definition batch_report :: "batch_item list \<Rightarrow> string" where
  "batch_report results = ''# Batch Fetch Results\<newline>\<newline>'' @ concat (map report_section results)"

definition fetch_urls_handler ::
  "libs \<Rightarrow> url list \<Rightarrow> bool \<Rightarrow> bool \<Rightarrow> int \<Rightarrow> world \<Rightarrow> tool_response \<times> world" where
  "fetch_urls_handler L us include simplify timeout w =
     (case fetch_loop L include simplify timeout [] us w of
        (results, w') \<Rightarrow> (Tool_text (render_batch results) False, w'))"

definition fetch_urls_tool :: "libs \<Rightarrow> fetch_urls_args \<Rightarrow> world \<Rightarrow> tool_response \<times> world" where
  "fetch_urls_tool L a w =
     (if list_all (url_valid L) (urls_arg a)
      then fetch_urls_handler L (urls_arg a) (with_default False (batch_include_metadata_arg a))
             (with_default True (batch_simplify_arg a)) (with_default 30000 (batch_timeout_arg a)) w
      else (Invalid_params, w))"

lemmas tools_eval [model_simps] =
  with_default_def fetch_url_handler_def fetch_url_tool_def render_step_def render_batch_def fetch_urls_handler_def
  fetch_urls_tool_def

lemma render_step_section: "render_step acc r = acc @ report_section r"
  by (cases r) (simp_all add: render_step_def)

lemma foldl_render_step: "foldl render_step acc rs = acc @ concat (map report_section rs)"
  by (induction rs arbitrary: acc) (simp_all add: render_step_section)

subsection \<open>The abstract batch specification\<close>

inductive batch_spec ::
  "libs \<Rightarrow> bool \<Rightarrow> bool \<Rightarrow> int \<Rightarrow> world \<Rightarrow> url list \<Rightarrow> batch_item list \<Rightarrow> world \<Rightarrow> bool" where
  batch_nil: "batch_spec L inc s t w [] [] w"
| batch_cons: "fetch_single_url L u inc s t w = (r, w1) \<Longrightarrow> batch_spec L inc s t w1 us items w2 \<Longrightarrow>
     batch_spec L inc s t w (u # us) (to_item u r # items) w2"

inductive_cases batch_spec_NilE: "batch_spec L inc s t w [] items w'"
inductive_cases batch_spec_ConsE: "batch_spec L inc s t w (u # us) items w'"

lemma batch_spec_functional:
  "batch_spec L inc s t w us items w' \<Longrightarrow> batch_spec L inc s t w us items' w'' \<Longrightarrow>
   items' = items \<and> w'' = w'"
proof (induction arbitrary: items' w'' rule: batch_spec.induct)
  case (batch_nil L inc s t w)
  then show ?case by (auto elim: batch_spec_NilE)
next
  case (batch_cons L u inc s t w r w1 us items w2)
  from batch_cons.prems show ?case
    by (rule batch_spec_ConsE) (use batch_cons.hyps batch_cons.IH in fastforce)
qed

lemma fetch_loop_spec:
  "fetch_loop L inc s t acc us w = (acc @ fst (fetch_loop L inc s t [] us w), snd (fetch_loop L inc s t [] us w))
   \<and> batch_spec L inc s t w us (fst (fetch_loop L inc s t [] us w)) (snd (fetch_loop L inc s t [] us w))"
proof (induction us arbitrary: acc w)
  case Nil
  then show ?case by (simp add: batch_nil)
next
  case (Cons u us)
  obtain r w1 where f: "fetch_single_url L u inc s t w = (r, w1)" by fastforce
  from Cons.IH [of "acc @ [to_item u r]" w1] Cons.IH [of "[to_item u r]" w1] f show ?case
    by (auto intro: batch_cons)
qed

lemma batch_spec_urls: "batch_spec L inc s t w us items w' \<Longrightarrow> map item_url items = us"
  by (induction rule: batch_spec.induct) auto

lemma batch_spec_calls: "batch_spec L inc s t w us items w' \<Longrightarrow> calls w' = calls w @ us"
  by (induction rule: batch_spec.induct) (auto dest: fetch_single_url_frame)

lemma batch_spec_requests:
  "batch_spec L inc s t w us items w' \<Longrightarrow>
   \<exists>rs. requests w' = requests w @ rs \<and> length rs \<le> 6 * length us \<and>
        (\<forall>q \<in> set rs. req_headers q = fetch_headers \<and> req_timeout q = t)"
proof (induction rule: batch_spec.induct)
  case (batch_nil L inc s t w)
  then show ?case by simp
next
  case (batch_cons L u inc s t w r w1 us items w2)
  from fetch_single_url_frame [OF batch_cons.hyps(1)] obtain rs1
    where "requests w1 = requests w @ rs1" "length rs1 \<le> 6"
      "\<forall>q \<in> set rs1. req_headers q = fetch_headers \<and> req_timeout q = t" by blast
  moreover from batch_cons.IH obtain rs where "requests w2 = requests w1 @ rs" "length rs \<le> 6 * length us"
    "\<forall>q \<in> set rs. req_headers q = fetch_headers \<and> req_timeout q = t" by blast
  ultimately show ?case by (intro exI [of _ "rs1 @ rs"]) auto
qed

lemma fetch_loop_batch_spec:
  "batch_spec L inc s t w us (fst (fetch_loop L inc s t [] us w)) (snd (fetch_loop L inc s t [] us w))"
  using fetch_loop_spec by blast

subsection \<open>Properties of the tools\<close>

text \<open>Claim C3. Refinement: the batch loop implements the abstract batch specification, and
  the specification determines the outcome: the loop's result is exactly the run of single
  fetches, one per URL in input order, each in the world the previous one left.\<close>

theorem fetch_loop_refines_batch_spec:
  "fetch_loop L inc s t [] us w = (items, w') \<longleftrightarrow> batch_spec L inc s t w us items w'"
proof
  assume "fetch_loop L inc s t [] us w = (items, w')"
  with fetch_loop_batch_spec [of L inc s t w us] show "batch_spec L inc s t w us items w'" by simp
next
  assume "batch_spec L inc s t w us items w'"
  from batch_spec_functional [OF fetch_loop_batch_spec this]
  show "fetch_loop L inc s t [] us w = (items, w')" by (simp add: prod_eq_iff)
qed

text \<open>Claim C1. The batch has one outcome per URL, in the order of the input, duplicates
  included.\<close>

theorem fetch_loop_urls_in_order:
  "map item_url (fst (fetch_loop L inc s t [] us w)) = us"
  using fetch_loop_batch_spec by (rule batch_spec_urls)

text \<open>Claim C2. No short-circuit: every URL of the batch is fetched, exactly once and in
  input order, whatever the outcomes of the earlier fetches.\<close>

theorem fetch_loop_calls_in_order:
  "calls (snd (fetch_loop L inc s t [] us w)) = calls w @ us"
  using fetch_loop_batch_spec by (rule batch_spec_calls)

text \<open>Claim C33. A successful fetch whose text is empty is answered by \<open>fetch_url\<close> as an
  error, \<open>Error fetching <url>: Unknown error\<close>: the handler tests the content for
  truthiness, not the success flag alone.\<close>

theorem fetch_url_empty_success_is_error:
  "fst (fetch_single_url L u inc s t w) = Fetch_ok [] \<Longrightarrow>
   fst (fetch_url_handler L u inc s t w) = Tool_text (''Error fetching '' @ u @ '': Unknown error'') True"
proof -
  assume "fst (fetch_single_url L u inc s t w) = Fetch_ok []"
  then obtain w' where "fetch_single_url L u inc s t w = (Fetch_ok [], w')" by (metis prod.collapse)
  then show ?thesis by (simp add: fetch_url_handler_def)
qed

theorem fetch_url_empty_success_is_error_witness:
  "fst (fetch_url_handler example_libs ''https://a.example'' False False 30000
          (ok_world\<lparr>net := (\<lambda>q n. Reply 200 ''OK'' (JStr []))\<rparr>)) =
     Tool_text ''Error fetching https://a.example: Unknown error'' True"
proof -
  have "fst (fetch_single_url example_libs ''https://a.example'' False False 30000
          (ok_world\<lparr>net := (\<lambda>q n. Reply 200 ''OK'' (JStr []))\<rparr>)) = Fetch_ok []"
    by (simp add: fetch_single_url_def axios_get_def follow.simps issue_def validate_status_def
        get_request_def convert_page_def turndown_def format_content_def)
  from fetch_url_empty_success_is_error [OF this] show ?thesis by simp
qed

text \<open>The timeout parameter is any number: \<open>fetch_url\<close> accepts a timeout of zero or
  below and every request of the fetch carries it unchanged.\<close>

theorem fetch_url_tool_timeout_passed:
  assumes "url_valid L (url_arg a)" and "timeout_arg a = Some t"
    and "fetch_url_tool L a w = (r, w')"
  shows "\<exists>rs. requests w' = requests w @ rs \<and> (\<forall>q \<in> set rs. req_timeout q = t)"
proof -
  obtain fr w1 where f: "fetch_single_url L (url_arg a) (with_default False (include_metadata_arg a))
      (with_default True (simplify_arg a)) t w = (fr, w1)" by fastforce
  with assms have "w' = w1"
    by (auto simp: fetch_url_tool_def fetch_url_handler_def with_default_def
             split: fetch_result.splits if_splits)
  with fetch_single_url_frame [OF f] show ?thesis by blast
qed

theorem fetch_url_tool_timeout_passed_witness:
  "requests (snd (fetch_url_tool example_libs
      \<lparr>url_arg = ''https://a.example'', include_metadata_arg = None, simplify_arg = Some False,
       timeout_arg = Some 0\<rparr> ok_world)) = [get_request ''https://a.example'' 0] \<and>
   req_timeout (get_request ''https://a.example'' 0) = 0"
proof -
  let ?a = "\<lparr>url_arg = ''https://a.example'', include_metadata_arg = None, simplify_arg = Some False,
       timeout_arg = Some (0::int)\<rparr>"
  have v: "url_valid example_libs (url_arg ?a)" by (simp add: example_libs_def sublist_code)
  have run: "requests (snd (fetch_url_tool example_libs ?a ok_world)) = [get_request ''https://a.example'' 0]"
    by (simp add: fetch_url_tool_def fetch_url_handler_def with_default_def example_libs_def sublist_code
        fetch_single_url_def ok_world_def axios_get_def follow.simps issue_def validate_status_def
        convert_page_def turndown_def split: prod.split fetch_result.split)
  from fetch_url_tool_timeout_passed [OF v _ prod.collapse [symmetric], of 0 ok_world] run
  show ?thesis by (simp add: get_request_def)
qed

subsection \<open>What the tools fetch and answer\<close>

lemma calls_fetch_urls_tool:
  "calls (snd (fetch_urls_tool L a w)) =
     calls w @ (if list_all (url_valid L) (urls_arg a) then urls_arg a else [])"
proof -
  have "calls (snd (fetch_urls_handler L us i s t w)) = calls w @ us" for us i s t
    using batch_spec_calls [OF fetch_loop_batch_spec, of L i s t us w]
    by (simp add: fetch_urls_handler_def prod.case_eq_if)
  then show ?thesis by (simp add: fetch_urls_tool_def)
qed

lemma calls_fetch_url_tool:
  "calls (snd (fetch_url_tool L a w)) =
     calls w @ (if url_valid L (url_arg a) then [url_arg a] else [])"
proof -
  have "calls (snd (fetch_url_handler L u i s t w)) = calls w @ [u]" for u i s t
    using fetch_single_url_frame [OF prod.collapse [symmetric], of L u i s t w]
    by (auto simp: fetch_url_handler_def split: prod.split fetch_result.split)
  then show ?thesis by (simp add: fetch_url_tool_def)
qed

lemma fetch_urls_tool_text:
  "fetch_urls_tool L a w = (Tool_text s flag, w') \<Longrightarrow>
   (\<exists>items. s = render_batch items \<and> map item_url items = urls_arg a) \<and> \<not> flag"
  using batch_spec_urls [OF fetch_loop_batch_spec]
  by (auto simp: fetch_urls_tool_def fetch_urls_handler_def split: if_splits prod.splits)
     (metis fst_conv)

text \<open>Claim C18. A batch's traffic is bounded and configured: a \<open>fetch_urls\<close> call issues at
  most six HTTP requests per URL (each fetch at most five redirects), and every one of them,
  redirect hops included, carries the fixed headers and the batch's \<open>timeout\<close> argument,
  30000 when it is omitted.\<close>

theorem fetch_urls_tool_requests:
  assumes "fetch_urls_tool L a w = (r, w')"
  shows "\<exists>rs. requests w' = requests w @ rs \<and> length rs \<le> 6 * length (urls_arg a) \<and>
           (\<forall>q \<in> set rs. req_headers q = fetch_headers \<and>
              req_timeout q = (case batch_timeout_arg a of None \<Rightarrow> 30000 | Some t \<Rightarrow> t))"
proof (cases "list_all (url_valid L) (urls_arg a)")
  case True
  let ?i = "with_default False (batch_include_metadata_arg a)" and ?s = "with_default True (batch_simplify_arg a)"
    and ?t = "with_default 30000 (batch_timeout_arg a)"
  from True assms have "w' = snd (fetch_loop L ?i ?s ?t [] (urls_arg a) w)"
    by (simp add: fetch_urls_tool_def fetch_urls_handler_def prod.case_eq_if)
  with batch_spec_requests [OF fetch_loop_batch_spec, of L ?i ?s ?t "urls_arg a" w]
  show ?thesis by (simp add: with_default_def split: option.splits)
qed (use assms in \<open>simp add: fetch_urls_tool_def\<close>)

theorem fetch_urls_tool_requests_witness:
  "requests (snd (fetch_urls_tool example_libs
      \<lparr>urls_arg = [''https://a.example'', ''https://b.example''], batch_include_metadata_arg = None,
       batch_simplify_arg = Some False, batch_timeout_arg = Some 5000\<rparr> ok_world)) =
     [get_request ''https://a.example'' 5000, get_request ''https://b.example'' 5000] \<and>
   req_timeout (get_request ''https://b.example'' 5000) = 5000 \<and>
   req_headers (get_request ''https://b.example'' 5000) = fetch_headers"
proof -
  let ?a = "\<lparr>urls_arg = [''https://a.example'', ''https://b.example''], batch_include_metadata_arg = None,
       batch_simplify_arg = Some False, batch_timeout_arg = Some (5000::int)\<rparr>"
  have run: "requests (snd (fetch_urls_tool example_libs ?a ok_world)) =
     [get_request ''https://a.example'' 5000, get_request ''https://b.example'' 5000]"
    by (simp add: fetch_urls_tool_def fetch_urls_handler_def with_default_def example_libs_def sublist_code
        fetch_single_url_def ok_world_def axios_get_def follow.simps issue_def validate_status_def
        convert_page_def turndown_def split: prod.split fetch_result.split)
  from fetch_urls_tool_requests [OF prod.collapse [symmetric], of example_libs ?a ok_world] run
  show ?thesis by (auto simp: get_request_def)
qed

text \<open>Claim C19. Equivalence with the spec's report: the code's loop of string appends
  renders exactly the heading followed by one section per result, in order.\<close>

theorem render_batch_is_report: "render_batch results = batch_report results"
  by (simp add: render_batch_def batch_report_def foldl_render_step)

subsection \<open>Against a server that does not change over time\<close>

lemma net_fetch_single_url [simp]: "net (snd (fetch_single_url L u i s t w)) = net w"
  using fetch_single_url_frame [OF prod.collapse [symmetric]] by blast

lemma fetch_loop_static:
  "\<forall>q n. net w q n = net w q 0 \<Longrightarrow> net w' = net w \<Longrightarrow>
   fst (fetch_loop L False s t acc us w') = acc @ map (\<lambda>u. to_item u (fst (fetch_single_url L u False s t w))) us"
proof (induction us arbitrary: acc w')
  case (Cons u us)
  obtain r w1 where f: "fetch_single_url L u False s t w' = (r, w1)" by fastforce
  from f have "net w1 = net w" using net_fetch_single_url [of L u False s t w'] Cons.prems(2) by simp
  with Cons.IH [OF Cons.prems(1), of w1 "acc @ [to_item u r]"]
    fetch_single_url_static [OF Cons.prems, of L u s t] f
  show ?case by simp
qed simp

lemma net_fetch_urls_tool [simp]: "net (snd (fetch_urls_tool L a w)) = net w"
proof -
  have "net (snd (fetch_loop L i s t acc us w)) = net w" for i s t acc us
    by (induction us arbitrary: acc w) (simp_all add: prod.case_eq_if)
  then show ?thesis by (simp add: fetch_urls_tool_def fetch_urls_handler_def prod.case_eq_if)
qed

lemma net_fetch_url_tool [simp]: "net (snd (fetch_url_tool L a w)) = net w"
  by (simp add: fetch_url_tool_def fetch_url_handler_def prod.case_eq_if split: fetch_result.split)

text \<open>Against a server whose answers do not depend on the time, a batch without metadata
  is answered with one fetch per URL, each as if made alone on that server.\<close>

lemma fetch_urls_tool_static:
  assumes "\<forall>q n. net w q n = net w q 0" and "net w' = net w"
    and "batch_include_metadata_arg a \<noteq> Some True"
  shows "fst (fetch_urls_tool L a w') =
     (if list_all (url_valid L) (urls_arg a)
      then Tool_text (render_batch (map (\<lambda>u. to_item u (fst (fetch_single_url L u False
             (with_default True (batch_simplify_arg a)) (with_default 30000 (batch_timeout_arg a)) w)))
             (urls_arg a))) False
      else Invalid_params)"
proof -
  have "with_default False (batch_include_metadata_arg a) = False"
    using assms(3) by (cases "batch_include_metadata_arg a") (auto simp: with_default_def)
  with fetch_loop_static [OF assms(1,2), of L "with_default True (batch_simplify_arg a)"
      "with_default 30000 (batch_timeout_arg a)" "[]" "urls_arg a"]
  show ?thesis by (simp add: fetch_urls_tool_def fetch_urls_handler_def prod.case_eq_if)
qed

end
