(* ===== verification/Server.thy ===== *)
theory Server
  imports Tools "HOL-Library.Multiset"
begin

text \<open>
  The MCP server of \<open>src/build/index.js\<close>: its identity (lines 9--13), the two tools it
  registers (lines 52 and 189), its start on the stdio transport (lines 234--237), and how
  it serves requests. The SDK dispatches a request to the handler registered under the
  tool's name without waiting for earlier requests to finish; a handler runs until its
  next \<open>await\<close>. The \<open>fetch_urls\<close> handler awaits once per URL (line 197), so
  concurrent batch requests interleave there. The state of the server is the world, the
  in-flight \<open>fetch_urls\<close> handlers (\<open>job\<close>) and the replies sent so far; an event is a
  request arriving or an in-flight handler resuming after its fetch completed; a schedule
  is any list of events. A \<open>fetchSingleUrl\<close> call is one step at this granularity.
\<close>

subsection \<open>The server, its tools and its start\<close>

record server_info =
  srv_name :: string
  srv_version :: string

definition fetch_server_info :: server_info where
  "fetch_server_info = \<lparr>srv_name = ''fetch'', srv_version = ''1.0.0''\<rparr>"

datatype tool_args = Url_args fetch_url_args | Urls_args fetch_urls_args

datatype tool_call = Call string tool_args

text \<open>A reply: the tool's answer, or the SDK's error for a name no tool is registered under.\<close>

datatype server_reply = Reply_tool tool_response | Unknown_tool string

text \<open>Dispatch by the registered name; arguments of the other tool's shape fail its
  schema.\<close>

fun call_tool :: "libs \<Rightarrow> tool_call \<Rightarrow> world \<Rightarrow> server_reply \<times> world" where
  "call_tool L (Call n args) w =
     (if n = ''fetch_url'' then
        (case args of
           Url_args a \<Rightarrow> apfst Reply_tool (fetch_url_tool L a w)
         | Urls_args a \<Rightarrow> (Reply_tool Invalid_params, w))
      else if n = ''fetch_urls'' then
        (case args of
           Urls_args a \<Rightarrow> apfst Reply_tool (fetch_urls_tool L a w)
         | Url_args a \<Rightarrow> (Reply_tool Invalid_params, w))
      else (Unknown_tool n, w))"

text \<open>\<open>server.connect(transport)\<close> and the start-up line on standard error.\<close>

definition start_server :: "world \<Rightarrow> world" where
  "start_server w = w\<lparr>errlog := errlog w @ [''Fetch MCP server running on stdio'']\<rparr>"

subsection \<open>A sequential session\<close>

text \<open>A client that waits for each reply before sending the next request.\<close>

fun serve :: "libs \<Rightarrow> tool_call list \<Rightarrow> world \<Rightarrow> server_reply list \<times> world" where
  "serve L [] w = ([], w)"
| "serve L (c # cs) w =
     (case call_tool L c w of (r, w1) \<Rightarrow> (case serve L cs w1 of (rs, w2) \<Rightarrow> (r # rs, w2)))"

definition run_session :: "libs \<Rightarrow> tool_call list \<Rightarrow> world \<Rightarrow> server_reply list \<times> world" where
  "run_session L cs w = serve L cs (start_server w)"

text \<open>The URLs a request makes the server fetch when its validation succeeds.\<close>

fun call_urls :: "libs \<Rightarrow> tool_call \<Rightarrow> url list" where
  "call_urls L (Call n (Url_args a)) =
     (if n = ''fetch_url'' \<and> url_valid L (url_arg a) then [url_arg a] else [])"
| "call_urls L (Call n (Urls_args a)) =
     (if n = ''fetch_urls'' \<and> list_all (url_valid L) (urls_arg a) then urls_arg a else [])"

subsection \<open>Concurrent requests\<close>

text \<open>An in-flight \<open>fetch_urls\<close> handler (lines 194--212): its arguments, the URLs its
  \<open>for\<close> loop has still to fetch, and the \<open>results\<close> array so far.\<close>

record job =
  job_args :: fetch_urls_args
  job_todo :: "url list"
  job_results :: "batch_item list"

record srv_state =
  sw :: world
  jobs :: "job list"
  replies :: "(tool_call \<times> server_reply) list"

definition server_init :: "world \<Rightarrow> srv_state" where
  "server_init w = \<lparr>sw = start_server w, jobs = [], replies = []\<rparr>"

definition job_fetch :: "libs \<Rightarrow> job \<Rightarrow> url \<Rightarrow> world \<Rightarrow> fetch_result \<times> world" where
  "job_fetch L j u w =
     fetch_single_url L u (with_default False (batch_include_metadata_arg (job_args j)))
       (with_default True (batch_simplify_arg (job_args j))) (with_default 30000 (batch_timeout_arg (job_args j))) w"

definition job_reply :: "job \<Rightarrow> tool_call \<times> server_reply" where
  "job_reply j = (Call ''fetch_urls'' (Urls_args (job_args j)),
                  Reply_tool (Tool_text (render_batch (job_results j)) False))"

text \<open>A request arrives. A valid \<open>fetch_urls\<close> request with URLs starts its handler, which
  suspends at its first \<open>await\<close>; every other request is answered before the next event
  (\<open>fetch_url\<close> counts as one step).\<close>

fun arrive :: "libs \<Rightarrow> tool_call \<Rightarrow> srv_state \<Rightarrow> srv_state" where
  "arrive L (Call n (Urls_args a)) s =
     (if n = ''fetch_urls'' \<and> list_all (url_valid L) (urls_arg a) \<and> urls_arg a \<noteq> []
      then s\<lparr>jobs := jobs s @ [\<lparr>job_args = a, job_todo = urls_arg a, job_results = []\<rparr>]\<rparr>
      else (case call_tool L (Call n (Urls_args a)) (sw s) of
              (r, w') \<Rightarrow> s\<lparr>sw := w', replies := replies s @ [(Call n (Urls_args a), r)]\<rparr>))"
| "arrive L c s =
     (case call_tool L c (sw s) of (r, w') \<Rightarrow> s\<lparr>sw := w', replies := replies s @ [(c, r)]\<rparr>)"

text \<open>Handler \<open>i\<close> resumes: the fetch of its next URL completes and its result is pushed
  (lines 197--211); after the last URL the report is rendered and sent (lines 213--233).\<close>

definition resume :: "libs \<Rightarrow> nat \<Rightarrow> srv_state \<Rightarrow> srv_state option" where
  "resume L i s =
     (if i < length (jobs s) then
        (case job_todo (jobs s ! i) of
           [] \<Rightarrow> None
         | u # us \<Rightarrow>
             (case job_fetch L (jobs s ! i) u (sw s) of
                (r, w') \<Rightarrow>
                  (let j = (jobs s ! i)\<lparr>job_todo := us,
                                        job_results := job_results (jobs s ! i) @ [to_item u r]\<rparr>
                   in Some (if us = []
                            then s\<lparr>sw := w', jobs := take i (jobs s) @ drop (Suc i) (jobs s),
                                   replies := replies s @ [job_reply j]\<rparr>
                            else s\<lparr>sw := w', jobs := (jobs s)[i := j]\<rparr>))))
      else None)"

datatype srv_event = Arrive tool_call | Resume nat

fun server_event :: "libs \<Rightarrow> srv_state \<Rightarrow> srv_event \<Rightarrow> srv_state option" where
  "server_event L s (Arrive c) = Some (arrive L c s)"
| "server_event L s (Resume i) = resume L i s"

text \<open>A schedule; \<open>None\<close> when it resumes a handler that is not in flight.\<close>

fun server_run :: "libs \<Rightarrow> srv_state \<Rightarrow> srv_event list \<Rightarrow> srv_state option" where
  "server_run L s [] = Some s"
| "server_run L s (e # es) =
     (case server_event L s e of None \<Rightarrow> None | Some s' \<Rightarrow> server_run L s' es)"

text \<open>The run-to-completion schedule of a sequential client: each request arrives after
  the previous reply, and a batch handler it starts is resumed once per URL before the next
  request.\<close>

fun seq_events :: "libs \<Rightarrow> tool_call \<Rightarrow> srv_event list" where
  "seq_events L (Call n (Urls_args a)) =
     Arrive (Call n (Urls_args a)) #
       (if n = ''fetch_urls'' \<and> list_all (url_valid L) (urls_arg a) \<and> urls_arg a \<noteq> []
        then replicate (length (urls_arg a)) (Resume 0) else [])"
| "seq_events L c = [Arrive c]"

lemmas server_eval [model_simps] =
  fetch_server_info_def start_server_def run_session_def server_init_def job_fetch_def job_reply_def
  resume_def

subsection \<open>The session lemmas\<close>

lemma calls_call_tool: "calls (snd (call_tool L c w)) = calls w @ call_urls L c"
proof (cases c)
  case (Call n args)
  then show ?thesis
    by (cases args) (auto simp: calls_fetch_url_tool calls_fetch_urls_tool)
qed

lemma serve_calls:
  "length (fst (serve L cs w)) = length cs \<and>
   calls (snd (serve L cs w)) = calls w @ concat (map (call_urls L) cs)"
proof (induction cs arbitrary: w)
  case (Cons c cs)
  obtain r w1 where c: "call_tool L c w = (r, w1)" by fastforce
  with Cons.IH [of w1] calls_call_tool [of L c w] show ?case
    by (simp add: prod.case_eq_if)
qed simp

subsection \<open>The invariant of the concurrent server\<close>

text \<open>An in-flight handler's pushed results and the URLs still to fetch make up its
  request's URLs; every batch reply sent lists the request's URLs in order, unflagged.\<close>

definition job_ok :: "job \<Rightarrow> bool" where
  "job_ok j \<longleftrightarrow> map item_url (job_results j) @ job_todo j = urls_arg (job_args j)"

definition reply_ok :: "tool_call \<times> server_reply \<Rightarrow> bool" where
  "reply_ok cr =
     (case cr of
        (Call n (Urls_args a), Reply_tool (Tool_text s flag)) \<Rightarrow>
          n = ''fetch_urls'' \<longrightarrow> (\<exists>items. s = render_batch items \<and> map item_url items = urls_arg a) \<and> \<not> flag
      | _ \<Rightarrow> True)"

definition srv_inv :: "srv_state \<Rightarrow> bool" where
  "srv_inv s \<longleftrightarrow> list_all job_ok (jobs s) \<and> list_all reply_ok (replies s)"

lemma srv_inv_init: "srv_inv (server_init w)"
  by (simp add: srv_inv_def server_init_def)

lemma reply_ok_call_tool: "reply_ok (c, fst (call_tool L c w))"
proof (cases c)
  case (Call n args)
  show ?thesis
  proof (cases args)
    case (Urls_args a)
    obtain r w' where f: "fetch_urls_tool L a w = (r, w')" by fastforce
    show ?thesis
    proof (cases r)
      case (Tool_text s flag)
      with f fetch_urls_tool_text [of L a w s flag w'] Call Urls_args show ?thesis
        by (auto simp: reply_ok_def)
    qed (use f Call Urls_args in \<open>auto simp: reply_ok_def\<close>)
  qed (use Call in \<open>auto simp: reply_ok_def\<close>)
qed

lemma arrive_inv: "srv_inv s \<Longrightarrow> srv_inv (arrive L c s)"
proof (induction L c s rule: arrive.induct)
  case (1 L n a s)
  then show ?case
    using reply_ok_call_tool [of "Call n (Urls_args a)" L "sw s"]
    by (auto simp: srv_inv_def job_ok_def prod.case_eq_if)
next
  case (2 L n a s)
  then show ?case
    using reply_ok_call_tool [of "Call n (Url_args a)" L "sw s"]
    by (auto simp: srv_inv_def prod.case_eq_if)
qed

lemma list_all_remove_nth: "list_all P xs \<Longrightarrow> list_all P (take i xs @ drop (Suc i) xs)"
  by (auto simp: list_all_iff dest: in_set_takeD in_set_dropD)

lemma list_all_update: "list_all P xs \<Longrightarrow> P x \<Longrightarrow> list_all P (xs[i := x])"
  by (auto simp: list_all_iff dest: set_update_subset_insert [THEN subsetD])

lemma resume_inv:
  assumes "resume L i s = Some s'" and "srv_inv s"
  shows "srv_inv s'"
proof -
  from assms(1) have i: "i < length (jobs s)" by (simp add: resume_def split: if_splits)
  let ?j = "jobs s ! i"
  from assms(1) i obtain u us where todo: "job_todo ?j = u # us"
    by (auto simp: resume_def split: list.splits)
  obtain r w' where f: "job_fetch L ?j u (sw s) = (r, w')" by fastforce
  let ?j' = "?j\<lparr>job_todo := us, job_results := job_results ?j @ [to_item u r]\<rparr>"
  from assms(2) i have "job_ok ?j" by (simp add: srv_inv_def list_all_length)
  with todo have ok': "job_ok ?j'" by (simp add: job_ok_def)
  have s': "s' = (if us = [] then s\<lparr>sw := w', jobs := take i (jobs s) @ drop (Suc i) (jobs s),
                                   replies := replies s @ [job_reply ?j']\<rparr>
                  else s\<lparr>sw := w', jobs := (jobs s)[i := ?j']\<rparr>)"
    using assms(1) i todo f by (simp add: resume_def Let_def)
  show ?thesis
  proof (cases "us = []")
    case True
    with ok' have "reply_ok (job_reply ?j')" by (auto simp: job_reply_def reply_ok_def job_ok_def)
    with True s' assms(2) list_all_remove_nth [of job_ok "jobs s" i] show ?thesis
      by (simp add: srv_inv_def)
  next
    case False
    with s' ok' assms(2) show ?thesis by (simp add: srv_inv_def list_all_update)
  qed
qed

lemma server_run_inv: "server_run L s es = Some s' \<Longrightarrow> srv_inv s \<Longrightarrow> srv_inv s'"
proof (induction es arbitrary: s)
  case (Cons e es)
  then obtain s1 where e: "server_event L s e = Some s1" and r: "server_run L s1 es = Some s'"
    by (auto split: option.splits)
  from e Cons.prems(2) have "srv_inv s1"
    by (cases e) (auto intro: arrive_inv resume_inv)
  with r show ?case by (rule Cons.IH)
qed simp

subsection \<open>The sequential schedule against the session\<close>

text \<open>A lone handler resumed once per remaining URL runs the code's loop to its end and
  sends the report.\<close>

lemma server_run_lone_job:
  assumes "jobs s = [j]" and "job_todo j = us" and "us \<noteq> []"
  shows "server_run L s (replicate (length us) (Resume 0)) =
     Some (s\<lparr>sw := snd (fetch_loop L (with_default False (batch_include_metadata_arg (job_args j)))
                         (with_default True (batch_simplify_arg (job_args j)))
                         (with_default 30000 (batch_timeout_arg (job_args j))) (job_results j) us (sw s)),
             jobs := [],
             replies := replies s @ [job_reply (j\<lparr>job_todo := [], job_results :=
                fst (fetch_loop L (with_default False (batch_include_metadata_arg (job_args j)))
                       (with_default True (batch_simplify_arg (job_args j)))
                       (with_default 30000 (batch_timeout_arg (job_args j))) (job_results j) us (sw s))\<rparr>)]\<rparr>)"
  using assms
proof (induction us arbitrary: s j)
  case Nil
  then show ?case by simp
next
  case (Cons u us)
  obtain r w' where f: "job_fetch L j u (sw s) = (r, w')" by fastforce
  let ?j' = "j\<lparr>job_todo := us, job_results := job_results j @ [to_item u r]\<rparr>"
  show ?case
  proof (cases "us = []")
    case True
    with Cons.prems f show ?thesis
      by (simp add: resume_def job_fetch_def)
  next
    case False
    let ?s1 = "s\<lparr>sw := w', jobs := [?j']\<rparr>"
    have step: "resume L 0 s = Some ?s1"
      using Cons.prems f False by (simp add: resume_def)
    from Cons.IH [of ?s1 ?j'] False step Cons.prems f show ?thesis
      by (simp add: job_fetch_def)
  qed
qed

lemma server_run_append:
  "server_run L s (xs @ ys) = (case server_run L s xs of None \<Rightarrow> None | Some s' \<Rightarrow> server_run L s' ys)"
  by (induction xs arbitrary: s) (auto split: option.split)

text \<open>One request under the sequential schedule, from a state with no handler in flight:
  the world and the reply are those of a direct call.\<close>

lemma server_run_seq_call:
  assumes "jobs s = []"
  shows "server_run L s (seq_events L c) =
           Some (s\<lparr>sw := snd (call_tool L c (sw s)), replies := replies s @ [(c, fst (call_tool L c (sw s)))]\<rparr>)"
proof (cases c)
  case (Call n args)
  show ?thesis
  proof (cases args)
    case (Urls_args a)
    show ?thesis
    proof (cases "n = ''fetch_urls'' \<and> list_all (url_valid L) (urls_arg a) \<and> urls_arg a \<noteq> []")
      case True
      let ?j = "\<lparr>job_args = a, job_todo = urls_arg a, job_results = []\<rparr>"
      let ?s1 = "s\<lparr>jobs := jobs s @ [?j]\<rparr>"
      from server_run_lone_job [of ?s1 ?j "urls_arg a" L] True assms Call Urls_args show ?thesis
        by (simp add: fetch_urls_tool_def fetch_urls_handler_def job_reply_def prod.case_eq_if)
    next
      case False
      with Call Urls_args show ?thesis by (auto simp: prod.case_eq_if)
    qed
  next
    case (Url_args a)
    with Call show ?thesis by (simp add: prod.case_eq_if)
  qed
qed

lemma server_run_seq:
  "jobs s = [] \<Longrightarrow>
   server_run L s (concat (map (seq_events L) cs)) =
     Some (s\<lparr>sw := snd (serve L cs (sw s)), replies := replies s @ zip cs (fst (serve L cs (sw s)))\<rparr>)"
proof (induction cs arbitrary: s)
  case (Cons c cs)
  let ?s1 = "s\<lparr>sw := snd (call_tool L c (sw s)), replies := replies s @ [(c, fst (call_tool L c (sw s)))]\<rparr>"
  have "jobs ?s1 = []" using Cons.prems by simp
  from Cons.IH [OF this] server_run_seq_call [OF Cons.prems, of L c] show ?case
    by (simp add: server_run_append prod.case_eq_if)
qed simp

text \<open>The two server models agree: the concurrent server, run on the schedule of a client
  that waits for each reply (every batch handler resumed to completion before the next
  request arrives), sends exactly the replies of the sequential session, in order, and
  leaves the world as the session does.\<close>

lemma server_sequential_is_session:
  "map_option (\<lambda>s. (map snd (replies s), sw s))
     (server_run L (server_init w) (concat (map (seq_events L) cs))) = Some (run_session L cs w)"
proof -
  have "length (fst (serve L cs (start_server w))) = length cs"
    using serve_calls by blast
  then have "map snd (zip cs (fst (serve L cs (start_server w)))) = fst (serve L cs (start_server w))"
    by (simp add: map_snd_zip)
  with server_run_seq [of "server_init w" L cs] show ?thesis
    by (simp add: server_init_def run_session_def)
qed

subsection \<open>Every batch can be finished\<close>

text \<open>The requests that arrived in a schedule, and the fetches the in-flight handlers still
  have to make.\<close>

fun arrivals :: "srv_event list \<Rightarrow> nat" where
  "arrivals [] = 0"
| "arrivals (Arrive c # es) = Suc (arrivals es)"
| "arrivals (Resume i # es) = arrivals es"

definition pending :: "srv_state \<Rightarrow> nat" where
  "pending s = sum_list (map (\<lambda>j. length (job_todo j)) (jobs s))"

text \<open>An in-flight handler always has a URL left to fetch: it is removed with its last one.\<close>

definition live :: "srv_state \<Rightarrow> bool" where
  "live s \<longleftrightarrow> list_all (\<lambda>j. job_todo j \<noteq> []) (jobs s)"

lemma arrive_counts:
  "length (replies (arrive L c s)) + length (jobs (arrive L c s)) = Suc (length (replies s) + length (jobs s)) \<and>
   (live s \<longrightarrow> live (arrive L c s))"
  by (induction L c s rule: arrive.induct) (auto simp: live_def prod.case_eq_if)

text \<open>One resumption: the handler fetches its next URL; it either stays in flight with
  one URL fewer or is replaced by its reply.\<close>

lemma resume_step:
  assumes "i < length (jobs s)" and "job_todo (jobs s ! i) = u # us"
  shows "\<exists>s'. resume L i s = Some s' \<and>
           length (replies s') + length (jobs s') = length (replies s) + length (jobs s) \<and>
           Suc (pending s') = pending s \<and> (live s \<longrightarrow> live s')"
proof -
  obtain r w' where f: "job_fetch L (jobs s ! i) u (sw s) = (r, w')" by fastforce
  let ?j' = "(jobs s ! i)\<lparr>job_todo := us, job_results := job_results (jobs s ! i) @ [to_item u r]\<rparr>"
  have split: "jobs s = take i (jobs s) @ jobs s ! i # drop (Suc i) (jobs s)"
    using assms(1) by (simp add: id_take_nth_drop)
  show ?thesis
  proof (cases "us = []")
    case True
    let ?s' = "s\<lparr>sw := w', jobs := take i (jobs s) @ drop (Suc i) (jobs s), replies := replies s @ [job_reply ?j']\<rparr>"
    have r: "resume L i s = Some ?s'" using assms f True by (simp add: resume_def)
    have "pending s = Suc (pending ?s')"
      using assms(2) True arg_cong [OF split, of "\<lambda>js. sum_list (map (\<lambda>j. length (job_todo j)) js)"]
      by (simp add: pending_def)
    moreover have "live s \<longrightarrow> live ?s'"
      using list_all_remove_nth [of "\<lambda>j. job_todo j \<noteq> []" "jobs s" i] by (simp add: live_def)
    ultimately show ?thesis using r assms(1) by auto
  next
    case False
    let ?s' = "s\<lparr>sw := w', jobs := (jobs s)[i := ?j']\<rparr>"
    have r: "resume L i s = Some ?s'" using assms f False by (simp add: resume_def)
    have "(jobs s)[i := ?j'] = take i (jobs s) @ ?j' # drop (Suc i) (jobs s)"
      using assms(1) by (simp add: upd_conv_take_nth_drop)
    then have "pending s = Suc (pending ?s')"
      using assms(2) arg_cong [OF split, of "\<lambda>js. sum_list (map (\<lambda>j. length (job_todo j)) js)"]
      by (simp add: pending_def)
    moreover have "live s \<longrightarrow> live ?s'"
      using False list_all_update [of "\<lambda>j. job_todo j \<noteq> []" "jobs s" ?j' i] by (simp add: live_def)
    ultimately show ?thesis using r by auto
  qed
qed

lemma resume_counts:
  "resume L i s = Some s' \<Longrightarrow>
   length (replies s') + length (jobs s') = length (replies s) + length (jobs s) \<and> (live s \<longrightarrow> live s')"
proof -
  assume r: "resume L i s = Some s'"
  then have i: "i < length (jobs s)" by (simp add: resume_def split: if_splits)
  with r obtain u us where "job_todo (jobs s ! i) = u # us" by (auto simp: resume_def split: list.splits)
  from resume_step [OF i this, of L] r show ?thesis by auto
qed

lemma server_run_counts:
  "server_run L s es = Some s' \<Longrightarrow>
   length (replies s') + length (jobs s') = length (replies s) + length (jobs s) + arrivals es \<and>
   (live s \<longrightarrow> live s')"
proof (induction es arbitrary: s)
  case (Cons e es)
  then obtain s1 where e: "server_event L s e = Some s1" and r: "server_run L s1 es = Some s'"
    by (auto split: option.splits)
  show ?case
  proof (cases e)
    case (Arrive c)
    with e have "s1 = arrive L c s" by simp
    with Cons.IH [OF r] arrive_counts [of L c s] Arrive show ?thesis by auto
  next
    case (Resume i)
    with e have "resume L i s = Some s1" by simp
    with Cons.IH [OF r] resume_counts [of L i s s1] Resume show ?thesis by auto
  qed
qed simp

lemma live_init: "live (server_init w)"
  by (simp add: live_def server_init_def)

text \<open>Resuming the first in-flight handler as often as fetches are pending finishes every
  handler and sends one reply for each.\<close>

lemma server_run_drain:
  "live s \<Longrightarrow> \<exists>s'. server_run L s (replicate (pending s) (Resume 0)) = Some s' \<and>
                   jobs s' = [] \<and> length (replies s') = length (replies s) + length (jobs s)"
proof (induction "pending s" arbitrary: s)
  case 0
  then have "jobs s = []"
    by (cases "jobs s") (auto simp: pending_def live_def)
  with 0 show ?case by simp
next
  case (Suc n)
  then obtain j js where js: "jobs s = j # js" by (cases "jobs s") (auto simp: pending_def)
  with Suc.prems obtain u us where "job_todo (jobs s ! 0) = u # us"
    by (cases "job_todo j") (auto simp: live_def)
  from resume_step [OF _ this, of L] js Suc.prems obtain s1 where
    r: "resume L 0 s = Some s1" and c: "length (replies s1) + length (jobs s1) = length (replies s) + length (jobs s)"
    and p: "Suc (pending s1) = pending s" and l: "live s1" by auto
  from Suc.hyps(1) [of s1] p Suc.hyps(2) l obtain s' where
    "server_run L s1 (replicate (pending s1) (Resume 0)) = Some s'" and "jobs s' = []"
    and "length (replies s') = length (replies s1) + length (jobs s1)" by auto
  with r c p [symmetric] show ?case by auto
qed

subsection \<open>Every URL of a valid request is fetched once\<close>

text \<open>The URLs the in-flight handlers still have to fetch, and the URLs of the requests of
  a schedule that pass validation.\<close>

definition todo_urls :: "srv_state \<Rightarrow> url list" where
  "todo_urls s = concat (map job_todo (jobs s))"

fun arrived_urls :: "libs \<Rightarrow> srv_event list \<Rightarrow> url list" where
  "arrived_urls L [] = []"
| "arrived_urls L (Arrive c # es) = call_urls L c @ arrived_urls L es"
| "arrived_urls L (Resume i # es) = arrived_urls L es"

lemma arrive_fetches:
  "\<exists>cs. calls (sw (arrive L c s)) = calls (sw s) @ cs \<and>
        mset cs + mset (todo_urls (arrive L c s)) = mset (todo_urls s) + mset (call_urls L c)"
proof (induction L c s rule: arrive.induct)
  case (1 L n a s)
  show ?case
  proof (cases "n = ''fetch_urls'' \<and> list_all (url_valid L) (urls_arg a) \<and> urls_arg a \<noteq> []")
    case True
    then show ?thesis by (intro exI [of _ "[]"]) (simp add: todo_urls_def)
  next
    case False
    let ?c = "Call n (Urls_args a)"
    from False have "arrive L ?c s = s\<lparr>sw := snd (call_tool L ?c (sw s)),
                                        replies := replies s @ [(?c, fst (call_tool L ?c (sw s)))]\<rparr>"
      by (auto simp: prod.case_eq_if simp del: call_tool.simps)
    with calls_call_tool [of L ?c "sw s"] show ?thesis
      by (intro exI [of _ "call_urls L ?c"]) (simp add: todo_urls_def add.commute del: call_tool.simps call_urls.simps)
  qed
next
  case (2 L n a s)
  then show ?case using calls_call_tool [of L "Call n (Url_args a)" "sw s"]
    by (simp add: todo_urls_def prod.case_eq_if del: call_tool.simps)
qed

lemma calls_job_fetch: "calls (snd (job_fetch L j u w)) = calls w @ [u]"
  using fetch_single_url_frame [OF prod.collapse [symmetric]] by (simp add: job_fetch_def)

lemma resume_fetches:
  assumes "resume L i s = Some s'"
  shows "\<exists>u. calls (sw s') = calls (sw s) @ [u] \<and> mset (todo_urls s') + {#u#} = mset (todo_urls s)"
proof -
  from assms have i: "i < length (jobs s)" by (simp add: resume_def split: if_splits)
  with assms obtain u us where todo: "job_todo (jobs s ! i) = u # us"
    by (auto simp: resume_def split: list.splits)
  obtain r w' where f: "job_fetch L (jobs s ! i) u (sw s) = (r, w')" by fastforce
  have c: "calls w' = calls (sw s) @ [u]" using calls_job_fetch [of L "jobs s ! i" u "sw s"] f by simp
  let ?j' = "(jobs s ! i)\<lparr>job_todo := us, job_results := job_results (jobs s ! i) @ [to_item u r]\<rparr>"
  have split: "jobs s = take i (jobs s) @ jobs s ! i # drop (Suc i) (jobs s)"
    using i by (simp add: id_take_nth_drop)
  have t: "mset (todo_urls s) = mset (concat (map job_todo (take i (jobs s)))) + mset (u # us) +
             mset (concat (map job_todo (drop (Suc i) (jobs s))))"
    using arg_cong [OF split, of "\<lambda>js. mset (concat (map job_todo js))"] todo by (simp add: todo_urls_def)
  show ?thesis
  proof (cases "us = []")
    case True
    with assms i todo f have "s' = s\<lparr>sw := w', jobs := take i (jobs s) @ drop (Suc i) (jobs s),
                                   replies := replies s @ [job_reply ?j']\<rparr>"
      by (simp add: resume_def)
    with c t True show ?thesis by (simp add: todo_urls_def)
  next
    case False
    with assms i todo f have "s' = s\<lparr>sw := w', jobs := (jobs s)[i := ?j']\<rparr>"
      by (simp add: resume_def)
    moreover have "(jobs s)[i := ?j'] = take i (jobs s) @ ?j' # drop (Suc i) (jobs s)"
      using i by (simp add: upd_conv_take_nth_drop)
    ultimately show ?thesis using c t by (simp add: todo_urls_def)
  qed
qed

lemma server_run_fetches:
  "server_run L s es = Some s' \<Longrightarrow>
   \<exists>cs. calls (sw s') = calls (sw s) @ cs \<and>
        mset cs + mset (todo_urls s') = mset (todo_urls s) + mset (arrived_urls L es)"
proof (induction es arbitrary: s)
  case (Cons e es)
  then obtain s1 where e: "server_event L s e = Some s1" and r: "server_run L s1 es = Some s'"
    by (auto split: option.splits)
  from Cons.IH [OF r] obtain cs where
    cs: "calls (sw s') = calls (sw s1) @ cs" "mset cs + mset (todo_urls s') = mset (todo_urls s1) + mset (arrived_urls L es)"
    by blast
  show ?case
  proof (cases e)
    case (Arrive c)
    with e arrive_fetches [of L c s] obtain cs1 where c1:
      "calls (sw s1) = calls (sw s) @ cs1" "mset cs1 + mset (todo_urls s1) = mset (todo_urls s) + mset (call_urls L c)"
      by auto
    have "mset (cs1 @ cs) + mset (todo_urls s') = mset cs1 + (mset cs + mset (todo_urls s'))"
      by (simp add: add.assoc)
    also have "\<dots> = (mset cs1 + mset (todo_urls s1)) + mset (arrived_urls L es)"
      using cs(2) by (simp add: add.assoc)
    also have "\<dots> = mset (todo_urls s) + mset (arrived_urls L (e # es))"
      using c1(2) Arrive by (simp add: add.assoc)
    finally show ?thesis using cs(1) c1(1) by (intro exI [of _ "cs1 @ cs"]) simp
  next
    case (Resume i)
    with e resume_fetches [of L i s s1] obtain u where
      u: "calls (sw s1) = calls (sw s) @ [u]" "mset (todo_urls s) = add_mset u (mset (todo_urls s1))"
      by auto
    with cs Resume show ?thesis by (intro exI [of _ "u # cs"]) simp
  qed
qed simp

subsection \<open>Concurrent batches do not interfere\<close>

text \<open>Against a server whose answers do not depend on the time (\<open>w0\<close> is the world the
  server started in), every result an in-flight handler without metadata has pushed is the
  result of fetching its URL alone, with the handler's own options; every reply to a
  \<open>fetch_urls\<close> request without metadata is the answer of the tool called alone.\<close>

definition job_iso :: "libs \<Rightarrow> world \<Rightarrow> job \<Rightarrow> bool" where
  "job_iso L w0 j \<longleftrightarrow> list_all (url_valid L) (urls_arg (job_args j)) \<and>
     (batch_include_metadata_arg (job_args j) \<noteq> Some True \<longrightarrow>
        list_all (\<lambda>x. x = to_item (item_url x) (fst (job_fetch L j (item_url x) w0))) (job_results j))"

definition reply_iso :: "libs \<Rightarrow> world \<Rightarrow> tool_call \<times> server_reply \<Rightarrow> bool" where
  "reply_iso L w0 cr =
     (case cr of
        (Call n (Urls_args a), r) \<Rightarrow>
          n = ''fetch_urls'' \<longrightarrow> batch_include_metadata_arg a \<noteq> Some True \<longrightarrow>
            r = Reply_tool (fst (fetch_urls_tool L a w0))
      | _ \<Rightarrow> True)"

definition iso_inv :: "libs \<Rightarrow> world \<Rightarrow> srv_state \<Rightarrow> bool" where
  "iso_inv L w0 s \<longleftrightarrow> net (sw s) = net w0 \<and> list_all (job_iso L w0) (jobs s) \<and>
     list_all (reply_iso L w0) (replies s)"

lemma net_call_tool [simp]: "net (snd (call_tool L c w)) = net w"
proof (cases c)
  case (Call n args)
  then show ?thesis by (cases args) simp_all
qed

lemma net_job_fetch [simp]: "net (snd (job_fetch L j u w)) = net w"
  by (simp add: job_fetch_def)

lemma job_fetch_static:
  "\<forall>q n. net w0 q n = net w0 q 0 \<Longrightarrow> net w = net w0 \<Longrightarrow>
   batch_include_metadata_arg (job_args j) \<noteq> Some True \<Longrightarrow>
   fst (job_fetch L j u w) = fst (job_fetch L j u w0)"
  by (cases "batch_include_metadata_arg (job_args j)")
     (auto simp: job_fetch_def with_default_def intro: fetch_single_url_static)

lemma arrive_iso:
  assumes "\<forall>q n. net w0 q n = net w0 q 0" and "iso_inv L w0 s"
  shows "iso_inv L w0 (arrive L c s)"
proof (cases c)
  case (Call n args)
  show ?thesis
  proof (cases args)
    case (Urls_args a)
    let ?c = "Call n (Urls_args a)"
    show ?thesis
    proof (cases "n = ''fetch_urls'' \<and> list_all (url_valid L) (urls_arg a) \<and> urls_arg a \<noteq> []")
      case True
      with assms(2) Call Urls_args show ?thesis by (simp add: iso_inv_def job_iso_def)
    next
      case False
      from False have a: "arrive L ?c s = s\<lparr>sw := snd (call_tool L ?c (sw s)),
                                          replies := replies s @ [(?c, fst (call_tool L ?c (sw s)))]\<rparr>"
        by (auto simp: prod.case_eq_if simp del: call_tool.simps)
      have "reply_iso L w0 (?c, fst (call_tool L ?c (sw s)))"
      proof (cases "n = ''fetch_urls''")
        case True
        have "batch_include_metadata_arg a \<noteq> Some True \<Longrightarrow>
              fst (fetch_urls_tool L a (sw s)) = fst (fetch_urls_tool L a w0)"
          using fetch_urls_tool_static [OF assms(1), of "sw s" a L] fetch_urls_tool_static [OF assms(1), of w0 a L]
            assms(2) by (simp add: iso_inv_def)
        with True show ?thesis by (simp add: reply_iso_def)
      qed (simp add: reply_iso_def)
      with a assms(2) Call Urls_args show ?thesis by (simp add: iso_inv_def del: call_tool.simps)
    qed
  next
    case (Url_args a)
    with assms(2) Call show ?thesis by (simp add: iso_inv_def reply_iso_def prod.case_eq_if del: call_tool.simps)
  qed
qed

lemma resume_iso:
  assumes static: "\<forall>q n. net w0 q n = net w0 q 0"
    and r: "resume L i s = Some s'" and inv: "srv_inv s" and iso: "iso_inv L w0 s"
  shows "iso_inv L w0 s'"
proof -
  from r have i: "i < length (jobs s)" by (simp add: resume_def split: if_splits)
  let ?j = "jobs s ! i"
  from r i obtain u us where todo: "job_todo ?j = u # us"
    by (auto simp: resume_def split: list.splits)
  obtain x w' where f: "job_fetch L ?j u (sw s) = (x, w')" by fastforce
  let ?j' = "?j\<lparr>job_todo := us, job_results := job_results ?j @ [to_item u x]\<rparr>"
  from iso i have ji: "job_iso L w0 ?j" and n: "net (sw s) = net w0"
    by (auto simp: iso_inv_def list_all_length)
  from f n have n': "net w' = net w0" using net_job_fetch [of L ?j u "sw s"] by simp
  have x: "batch_include_metadata_arg (job_args ?j) \<noteq> Some True \<Longrightarrow> x = fst (job_fetch L ?j u w0)"
    using job_fetch_static [OF static n, of ?j L u] f by simp
  have ji': "job_iso L w0 ?j'"
    using ji x by (auto simp: job_iso_def job_fetch_def)
  show ?thesis
  proof (cases "us = []")
    case True
    with r i todo f have s': "s' = s\<lparr>sw := w', jobs := take i (jobs s) @ drop (Suc i) (jobs s),
                                   replies := replies s @ [job_reply ?j']\<rparr>"
      by (simp add: resume_def)
    let ?a = "job_args ?j"
    have "reply_iso L w0 (job_reply ?j')"
    proof -
      from inv i have "job_ok ?j" by (simp add: srv_inv_def list_all_length)
      with todo True have urls: "map item_url (job_results ?j') = urls_arg ?a" by (simp add: job_ok_def)
      have "batch_include_metadata_arg ?a \<noteq> Some True \<Longrightarrow>
            render_batch (job_results ?j') = render_batch (map (\<lambda>u. to_item u (fst (fetch_single_url L u False
               (with_default True (batch_simplify_arg ?a)) (with_default 30000 (batch_timeout_arg ?a)) w0)))
               (urls_arg ?a))"
      proof -
        assume m: "batch_include_metadata_arg ?a \<noteq> Some True"
        then have "with_default False (batch_include_metadata_arg ?a) = False"
          by (cases "batch_include_metadata_arg ?a") (auto simp: with_default_def)
        with ji' m have "list_all (\<lambda>x. x = to_item (item_url x) (fst (fetch_single_url L (item_url x) False
               (with_default True (batch_simplify_arg ?a)) (with_default 30000 (batch_timeout_arg ?a)) w0)))
               (job_results ?j')"
          by (simp add: job_iso_def job_fetch_def)
        then have "map (\<lambda>u. to_item u (fst (fetch_single_url L u False
               (with_default True (batch_simplify_arg ?a)) (with_default 30000 (batch_timeout_arg ?a)) w0)))
               (map item_url (job_results ?j')) = job_results ?j'"
          by (simp add: list_all_iff map_idI)
        with urls show ?thesis by simp
      qed
      with ji' fetch_urls_tool_static [OF static, of w0 ?a L] show ?thesis
        by (simp add: reply_iso_def job_reply_def job_iso_def)
    qed
    with s' n' iso list_all_remove_nth [of "job_iso L w0" "jobs s" i] show ?thesis
      by (simp add: iso_inv_def)
  next
    case False
    with r i todo f have "s' = s\<lparr>sw := w', jobs := (jobs s)[i := ?j']\<rparr>"
      by (simp add: resume_def)
    with n' ji' iso show ?thesis by (simp add: iso_inv_def list_all_update)
  qed
qed

lemma server_run_iso:
  "\<forall>q n. net w0 q n = net w0 q 0 \<Longrightarrow> server_run L s es = Some s' \<Longrightarrow> srv_inv s \<Longrightarrow> iso_inv L w0 s \<Longrightarrow>
   iso_inv L w0 s'"
proof (induction es arbitrary: s)
  case (Cons e es)
  then obtain s1 where e: "server_event L s e = Some s1" and r: "server_run L s1 es = Some s'"
    by (auto split: option.splits)
  from e Cons.prems(3) have "srv_inv s1"
    by (cases e) (auto intro: arrive_inv resume_inv)
  moreover from e Cons.prems(1,3,4) have "iso_inv L w0 s1"
    by (cases e) (auto intro: arrive_iso resume_iso)
  ultimately show ?case using Cons.IH [OF Cons.prems(1) r] by blast
qed simp

text \<open>What evaluating a schedule on the example libraries and the example world unfolds.\<close>

lemmas example_run_eval =
  server_init_def start_server_def resume_def job_fetch_def example_libs_def sublist_code
  with_default_def fetch_single_url_def ok_world_def axios_get_def follow.simps issue_def
  validate_status_def get_request_def convert_page_def extract_readable_content_def
  example_engine_def turndown_def md_join_def post_process_def is_js_space_def format_content_def
  Let_def

subsection \<open>Properties of the server\<close>

text \<open>Claim C13. Order under interleaving: whatever the schedule, with batch requests
  arriving at any time and their handlers resuming in any order, every report the server
  sends for a \<open>fetch_urls\<close> request lists that request's URLs in input order and is not
  flagged as an error.\<close>

theorem server_batch_reply_in_order:
  assumes "server_run L (server_init w) es = Some s"
    and "(Call ''fetch_urls'' (Urls_args a), Reply_tool (Tool_text txt flag)) \<in> set (replies s)"
  shows "\<exists>items. txt = render_batch items \<and> map item_url items = urls_arg a \<and> \<not> flag"
proof -
  from server_run_inv [OF assms(1) srv_inv_init] have "list_all reply_ok (replies s)"
    by (simp add: srv_inv_def)
  with assms(2) show ?thesis by (auto simp: list_all_iff reply_ok_def)
qed

theorem server_batch_reply_in_order_witness:
  "map_option replies (server_run example_libs (server_init ok_world)
     [Arrive (Call ''fetch_urls'' (Urls_args \<lparr>urls_arg = [''https://a.example'', ''https://b.example''],
          batch_include_metadata_arg = None, batch_simplify_arg = None, batch_timeout_arg = None\<rparr>)),
      Arrive (Call ''fetch_urls'' (Urls_args \<lparr>urls_arg = [''https://c.example''],
          batch_include_metadata_arg = None, batch_simplify_arg = None, batch_timeout_arg = None\<rparr>)),
      Resume 0, Resume 1, Resume 0]) =
   Some [(Call ''fetch_urls'' (Urls_args \<lparr>urls_arg = [''https://c.example''],
            batch_include_metadata_arg = None, batch_simplify_arg = None, batch_timeout_arg = None\<rparr>),
          Reply_tool (Tool_text (render_batch [Item_ok ''https://c.example'' ''<p>hi</p>'']) False)),
         (Call ''fetch_urls'' (Urls_args \<lparr>urls_arg = [''https://a.example'', ''https://b.example''],
            batch_include_metadata_arg = None, batch_simplify_arg = None, batch_timeout_arg = None\<rparr>),
          Reply_tool (Tool_text (render_batch [Item_ok ''https://a.example'' ''<p>hi</p>'',
                                               Item_ok ''https://b.example'' ''<p>hi</p>'']) False))] \<and>
   (\<exists>items. render_batch [Item_ok ''https://a.example'' ''<p>hi</p>'', Item_ok ''https://b.example'' ''<p>hi</p>''] =
              render_batch items \<and> map item_url items = [''https://a.example'', ''https://b.example''])"
proof -
  let ?A = "\<lparr>urls_arg = [''https://a.example'', ''https://b.example''],
          batch_include_metadata_arg = None, batch_simplify_arg = None, batch_timeout_arg = None\<rparr>"
  let ?C = "\<lparr>urls_arg = [''https://c.example''],
          batch_include_metadata_arg = None, batch_simplify_arg = None, batch_timeout_arg = None\<rparr>"
  let ?es = "[Arrive (Call ''fetch_urls'' (Urls_args ?A)), Arrive (Call ''fetch_urls'' (Urls_args ?C)),
              Resume 0, Resume 1, Resume 0]"
  let ?TA = "render_batch [Item_ok ''https://a.example'' ''<p>hi</p>'', Item_ok ''https://b.example'' ''<p>hi</p>'']"
  let ?rs = "[(Call ''fetch_urls'' (Urls_args ?C),
               Reply_tool (Tool_text (render_batch [Item_ok ''https://c.example'' ''<p>hi</p>'']) False)),
              (Call ''fetch_urls'' (Urls_args ?A), Reply_tool (Tool_text ?TA False))]"
  have run: "map_option replies (server_run example_libs (server_init ok_world) ?es) = Some ?rs"
    by (simp add: example_run_eval job_reply_def)
  then obtain s where s: "server_run example_libs (server_init ok_world) ?es = Some s"
    and rs: "replies s = ?rs" by auto
  have "(Call ''fetch_urls'' (Urls_args ?A), Reply_tool (Tool_text ?TA False)) \<in> set (replies s)"
    using rs by simp
  from server_batch_reply_in_order [OF s this] run show ?thesis by simp
qed

text \<open>Claim C14. Concurrent batches do not interfere: whatever the schedule, against a
  server whose answers do not depend on the time, the reply the server sends to a
  \<open>fetch_urls\<close> request without metadata is exactly the answer that request gets when the
  tool is called alone, however its fetches were interleaved with other handlers'.\<close>

theorem server_batch_reply_isolated:
  assumes "server_run L (server_init w) es = Some s" and "\<forall>q n. net w q n = net w q 0"
    and "(Call ''fetch_urls'' (Urls_args a), rep) \<in> set (replies s)"
    and "batch_include_metadata_arg a \<noteq> Some True"
  shows "rep = Reply_tool (fst (fetch_urls_tool L a w))"
proof -
  have "iso_inv L w (server_init w)" by (simp add: iso_inv_def server_init_def start_server_def)
  from server_run_iso [OF assms(2,1) srv_inv_init this] have "list_all (reply_iso L w) (replies s)"
    by (simp add: iso_inv_def)
  with assms(3,4) show ?thesis by (auto simp: list_all_iff reply_iso_def)
qed

theorem server_batch_reply_isolated_witness:
  "\<exists>s. server_run example_libs (server_init ok_world)
     [Arrive (Call ''fetch_urls'' (Urls_args \<lparr>urls_arg = [''https://a.example'', ''https://b.example''],
          batch_include_metadata_arg = None, batch_simplify_arg = None, batch_timeout_arg = None\<rparr>)),
      Arrive (Call ''fetch_urls'' (Urls_args \<lparr>urls_arg = [''https://c.example''],
          batch_include_metadata_arg = None, batch_simplify_arg = None, batch_timeout_arg = None\<rparr>)),
      Resume 0, Resume 1, Resume 0] = Some s \<and>
   (Call ''fetch_urls'' (Urls_args \<lparr>urls_arg = [''https://a.example'', ''https://b.example''],
          batch_include_metadata_arg = None, batch_simplify_arg = None, batch_timeout_arg = None\<rparr>),
    Reply_tool (Tool_text (render_batch [Item_ok ''https://a.example'' ''<p>hi</p>'',
                                         Item_ok ''https://b.example'' ''<p>hi</p>'']) False)) \<in> set (replies s) \<and>
   Reply_tool (Tool_text (render_batch [Item_ok ''https://a.example'' ''<p>hi</p>'',
                                         Item_ok ''https://b.example'' ''<p>hi</p>'']) False) =
     Reply_tool (fst (fetch_urls_tool example_libs \<lparr>urls_arg = [''https://a.example'', ''https://b.example''],
          batch_include_metadata_arg = None, batch_simplify_arg = None, batch_timeout_arg = None\<rparr> ok_world))"
proof -
  let ?A = "\<lparr>urls_arg = [''https://a.example'', ''https://b.example''],
          batch_include_metadata_arg = None, batch_simplify_arg = None, batch_timeout_arg = None\<rparr>"
  let ?C = "\<lparr>urls_arg = [''https://c.example''],
          batch_include_metadata_arg = None, batch_simplify_arg = None, batch_timeout_arg = None\<rparr>"
  let ?es = "[Arrive (Call ''fetch_urls'' (Urls_args ?A)), Arrive (Call ''fetch_urls'' (Urls_args ?C)),
              Resume 0, Resume 1, Resume 0]"
  let ?R = "Reply_tool (Tool_text (render_batch [Item_ok ''https://a.example'' ''<p>hi</p>'',
                                         Item_ok ''https://b.example'' ''<p>hi</p>'']) False)"
  have "map_option (\<lambda>s. (Call ''fetch_urls'' (Urls_args ?A), ?R) \<in> set (replies s))
          (server_run example_libs (server_init ok_world) ?es) = Some True"
    by (simp add: example_run_eval job_reply_def)
  then obtain s where s: "server_run example_libs (server_init ok_world) ?es = Some s"
    and m: "(Call ''fetch_urls'' (Urls_args ?A), ?R) \<in> set (replies s)" by auto
  have st: "\<forall>q n. net ok_world q n = net ok_world q 0" by (simp add: ok_world_def)
  from server_batch_reply_isolated [OF s st m] s m show ?thesis by auto
qed

text \<open>Claim C17. Every URL of a valid request is fetched exactly once, and nothing else is
  fetched: whatever the schedule, the URLs the server has fetched are, counted with
  multiplicity, part of the URLs of the requests that passed validation, and all of them
  once no handler is in flight.\<close>

theorem server_fetches_each_url_once:
  assumes "server_run L (server_init w) es = Some s"
  shows "\<exists>cs. calls (sw s) = calls w @ cs \<and> mset cs \<subseteq># mset (arrived_urls L es) \<and>
              (jobs s = [] \<longrightarrow> mset cs = mset (arrived_urls L es))"
proof -
  from server_run_fetches [OF assms] obtain cs where
    "calls (sw s) = calls w @ cs" and e: "mset cs + mset (concat (map job_todo (jobs s))) = mset (arrived_urls L es)"
    by (auto simp: server_init_def start_server_def todo_urls_def)
  moreover from e have "mset cs \<subseteq># mset (arrived_urls L es)" by (metis mset_subset_eq_add_left)
  moreover from e have "jobs s = [] \<longrightarrow> mset cs = mset (arrived_urls L es)" by auto
  ultimately show ?thesis by blast
qed

theorem server_fetches_each_url_once_witness:
  "\<exists>s. server_run example_libs (server_init ok_world)
     [Arrive (Call ''fetch_urls'' (Urls_args \<lparr>urls_arg = [''https://a.example'', ''https://b.example''],
          batch_include_metadata_arg = None, batch_simplify_arg = None, batch_timeout_arg = None\<rparr>)),
      Arrive (Call ''fetch_urls'' (Urls_args \<lparr>urls_arg = [''https://c.example''],
          batch_include_metadata_arg = None, batch_simplify_arg = None, batch_timeout_arg = None\<rparr>)),
      Resume 0, Resume 1, Resume 0] = Some s \<and> jobs s = [] \<and>
   (\<exists>cs. calls (sw s) = calls ok_world @ cs \<and>
      mset cs = mset [''https://a.example'', ''https://b.example'', ''https://c.example''])"
proof -
  let ?es = "[Arrive (Call ''fetch_urls'' (Urls_args \<lparr>urls_arg = [''https://a.example'', ''https://b.example''],
          batch_include_metadata_arg = None, batch_simplify_arg = None, batch_timeout_arg = None\<rparr>)),
      Arrive (Call ''fetch_urls'' (Urls_args \<lparr>urls_arg = [''https://c.example''],
          batch_include_metadata_arg = None, batch_simplify_arg = None, batch_timeout_arg = None\<rparr>)),
      Resume 0, Resume 1, Resume 0]"
  have "map_option (\<lambda>s. jobs s = []) (server_run example_libs (server_init ok_world) ?es) = Some True"
    by (simp add: example_run_eval)
  then obtain s where s: "server_run example_libs (server_init ok_world) ?es = Some s" and j: "jobs s = []"
    by auto
  have a: "arrived_urls example_libs ?es = [''https://a.example'', ''https://b.example'', ''https://c.example'']"
    by (simp add: example_libs_def sublist_code)
  from server_fetches_each_url_once [OF s] j obtain cs where
    c: "calls (sw s) = calls ok_world @ cs" and "mset cs = mset (arrived_urls example_libs ?es)" by blast
  then have "mset cs = mset [''https://a.example'', ''https://b.example'', ''https://c.example'']"
    by (simp only: a)
  with s j c show ?thesis by blast
qed

text \<open>Claim C16. A sequential session: the server answers every request once, and it
  fetches exactly the URLs of the requests that pass validation, request by request and in
  order; a request that fails validation, or names no registered tool, touches the network
  not at all.\<close>

theorem run_session_calls:
  "length (fst (run_session L cs w)) = length cs \<and>
   calls (snd (run_session L cs w)) = calls w @ concat (map (call_urls L) cs)"
  using serve_calls [of L cs "start_server w"] by (simp add: run_session_def start_server_def)

text \<open>Claim C15. Progress: from any state a schedule reaches, resuming the in-flight
  handlers once per pending fetch never gets stuck, finishes every handler, and leaves
  exactly one reply for every request that arrived.\<close>

theorem server_can_finish_all:
  assumes "server_run L (server_init w) es = Some s"
  shows "\<exists>s'. server_run L s (replicate (pending s) (Resume 0)) = Some s' \<and> jobs s' = [] \<and>
              length (replies s') = arrivals es"
proof -
  from server_run_counts [OF assms] live_init [of w]
  have "live s" and "length (replies s) + length (jobs s) = arrivals es"
    by (simp_all add: server_init_def)
  with server_run_drain [of s L] show ?thesis by auto
qed

theorem server_can_finish_all_witness:
  "\<exists>s s'. server_run example_libs (server_init ok_world)
         [Arrive (Call ''fetch_urls'' (Urls_args \<lparr>urls_arg = [''https://a.example'', ''https://b.example''],
             batch_include_metadata_arg = None, batch_simplify_arg = None, batch_timeout_arg = None\<rparr>)),
          Arrive (Call ''fetch_urls'' (Urls_args \<lparr>urls_arg = [''https://c.example''],
             batch_include_metadata_arg = None, batch_simplify_arg = None, batch_timeout_arg = None\<rparr>)),
          Resume 0] = Some s \<and>
       server_run example_libs s (replicate (pending s) (Resume 0)) = Some s' \<and> jobs s' = [] \<and>
       length (replies s') = 2"
proof -
  let ?es = "[Arrive (Call ''fetch_urls'' (Urls_args \<lparr>urls_arg = [''https://a.example'', ''https://b.example''],
             batch_include_metadata_arg = None, batch_simplify_arg = None, batch_timeout_arg = None\<rparr>)),
          Arrive (Call ''fetch_urls'' (Urls_args \<lparr>urls_arg = [''https://c.example''],
             batch_include_metadata_arg = None, batch_simplify_arg = None, batch_timeout_arg = None\<rparr>)),
          Resume 0]"
  have "server_run example_libs (server_init ok_world) ?es \<noteq> None"
    by (simp add: example_run_eval)
  then obtain s where s: "server_run example_libs (server_init ok_world) ?es = Some s" by blast
  from server_can_finish_all [OF s] s show ?thesis by auto
qed

end
