(* ===== verification/Readme.thy ===== *)
theory Readme
  imports Server
begin

text \<open>
  The interface the repository's README documents (\<open>src/unnamed/part_000\<close>): the
  parameter tables of the two tools with their defaults (lines 40--63), the two example
  calls (lines 51--54 and 65--68), the error-handling promise (lines 77--85) and the
  redirect limit (line 93). The tables are data here, and
  a documented call resolves its arguments from them; the lemmas show that the code's zod
  schemas implement exactly the documented defaults, that at most five redirects are
  followed, and what every error answer of \<open>fetch_url\<close> looks like.
\<close>

subsection \<open>The parameter tables (lines 40--63)\<close>

text \<open>A documented parameter: required, or optional with a default.\<close>

datatype param_default = Required | Default_bool bool | Default_num int

record doc_param =
  param_name :: string
  param_default :: param_default

definition readme_fetch_url_params :: "doc_param list" where
  "readme_fetch_url_params =
     [\<lparr>param_name = ''url'', param_default = Required\<rparr>,
      \<lparr>param_name = ''includeMetadata'', param_default = Default_bool False\<rparr>,
      \<lparr>param_name = ''simplify'', param_default = Default_bool True\<rparr>,
      \<lparr>param_name = ''timeout'', param_default = Default_num 30000\<rparr>]"

definition readme_fetch_urls_params :: "doc_param list" where
  "readme_fetch_urls_params =
     [\<lparr>param_name = ''urls'', param_default = Required\<rparr>,
      \<lparr>param_name = ''includeMetadata'', param_default = Default_bool False\<rparr>,
      \<lparr>param_name = ''simplify'', param_default = Default_bool True\<rparr>,
      \<lparr>param_name = ''timeout'', param_default = Default_num 30000\<rparr>]"

text \<open>The documented entry of a parameter; an undocumented one counts as required.\<close>

definition doc_default :: "doc_param list \<Rightarrow> string \<Rightarrow> param_default" where
  "doc_default ps n = (case find (\<lambda>p. param_name p = n) ps of Some p \<Rightarrow> param_default p | None \<Rightarrow> Required)"

text \<open>Resolving an argument against its documented entry: a given value is taken, an
  omitted one takes the documented default, and an omitted required one (or a default of
  the wrong kind) leaves the argument unresolved.\<close>

fun resolve_bool :: "param_default \<Rightarrow> bool option \<Rightarrow> bool option" where
  "resolve_bool d (Some b) = Some b"
| "resolve_bool (Default_bool b) None = Some b"
| "resolve_bool d None = None"

fun resolve_num :: "param_default \<Rightarrow> int option \<Rightarrow> int option" where
  "resolve_num d (Some t) = Some t"
| "resolve_num (Default_num t) None = Some t"
| "resolve_num d None = None"

text \<open>The documented tools: each runs its handler on the resolved arguments when every
  argument resolves and every URL is valid, and is refused otherwise.\<close>

definition readme_fetch_url :: "libs \<Rightarrow> fetch_url_args \<Rightarrow> world \<Rightarrow> tool_response \<times> world" where
  "readme_fetch_url L a w =
     (let ps = readme_fetch_url_params
      in case (resolve_bool (doc_default ps ''includeMetadata'') (include_metadata_arg a),
               resolve_bool (doc_default ps ''simplify'') (simplify_arg a),
               resolve_num (doc_default ps ''timeout'') (timeout_arg a)) of
           (Some i, Some s, Some t) \<Rightarrow>
             if url_valid L (url_arg a) then fetch_url_handler L (url_arg a) i s t w
             else (Invalid_params, w)
         | _ \<Rightarrow> (Invalid_params, w))"

definition readme_fetch_urls :: "libs \<Rightarrow> fetch_urls_args \<Rightarrow> world \<Rightarrow> tool_response \<times> world" where
  "readme_fetch_urls L a w =
     (let ps = readme_fetch_urls_params
      in case (resolve_bool (doc_default ps ''includeMetadata'') (batch_include_metadata_arg a),
               resolve_bool (doc_default ps ''simplify'') (batch_simplify_arg a),
               resolve_num (doc_default ps ''timeout'') (batch_timeout_arg a)) of
           (Some i, Some s, Some t) \<Rightarrow>
             if list_all (url_valid L) (urls_arg a) then fetch_urls_handler L (urls_arg a) i s t w
             else (Invalid_params, w)
         | _ \<Rightarrow> (Invalid_params, w))"

subsection \<open>The example calls (lines 51--54 and 65--68)\<close>

definition readme_example_fetch_url :: tool_call where
  "readme_example_fetch_url =
     Call ''fetch_url'' (Url_args \<lparr>url_arg = ''https://example.com/article'',
       include_metadata_arg = Some True, simplify_arg = Some True, timeout_arg = None\<rparr>)"

definition readme_example_fetch_urls :: tool_call where
  "readme_example_fetch_urls =
     Call ''fetch_urls'' (Urls_args \<lparr>urls_arg = [''https://example.com/article1'', ''https://example.com/article2''],
       batch_include_metadata_arg = Some True, batch_simplify_arg = None, batch_timeout_arg = None\<rparr>)"

subsection \<open>The redirect limit (line 93)\<close>

definition readme_redirect_cap :: nat where
  "readme_redirect_cap = 5"

text \<open>A test server: every request before tick \<open>e\<close> is redirected (to the same URL), and
  from tick \<open>e\<close> on the server answers \<open>200 OK\<close> with body \<open>d\<close>.\<close>

definition redirect_chain :: "nat \<Rightarrow> js_value \<Rightarrow> http_request \<Rightarrow> nat \<Rightarrow> net_reply" where
  "redirect_chain e d q n = (if n < e then Redirect 302 (req_url q) else Reply 200 ''OK'' d)"

subsection \<open>Lemmas\<close>

lemma resolve_bool_default: "resolve_bool (Default_bool d) v = Some (with_default d v)"
  by (cases v) (simp_all add: with_default_def)

lemma resolve_num_default: "resolve_num (Default_num d) v = Some (with_default d v)"
  by (cases v) (simp_all add: with_default_def)

lemma follow_redirect_chain:
  "net w = redirect_chain (clock w + k) d \<Longrightarrow>
   fst (follow h req w) =
     (if k \<le> h then Inr \<lparr>status = 200, status_text = ''OK'', data = d\<rparr>
      else Inl (Err_request ''Maximum number of redirects exceeded''))"
proof (induction k arbitrary: h req w)
  case 0
  then show ?case by (simp add: follow.simps issue_def redirect_chain_def validate_status_def)
next
  case (Suc k)
  let ?w1 = "w\<lparr>requests := requests w @ [req], clock := Suc (clock w)\<rparr>"
  have net1: "net ?w1 = redirect_chain (clock ?w1 + k) d" using Suc.prems by simp
  show ?case
  proof (cases h)
    case 0
    with Suc.prems show ?thesis by (simp add: follow.simps issue_def redirect_chain_def)
  next
    case (Suc h')
    have "follow h req w = follow h' (req\<lparr>req_url := req_url req\<rparr>) ?w1"
      using Suc.prems \<open>h = Suc h'\<close> by (simp add: follow.simps [of "Suc h'"] issue_def redirect_chain_def)
    with Suc.IH [OF net1, of h'] \<open>h = Suc h'\<close> show ?thesis by simp
  qed
qed

lemma fetch_urls_tool_valid_text:
  "list_all (url_valid L) (urls_arg a) \<Longrightarrow>
   \<exists>items. fst (fetch_urls_tool L a w) = Tool_text (render_batch items) False \<and>
           map item_url items = urls_arg a"
proof -
  assume v: "list_all (url_valid L) (urls_arg a)"
  let ?i = "with_default False (batch_include_metadata_arg a)" and ?s = "with_default True (batch_simplify_arg a)"
    and ?t = "with_default 30000 (batch_timeout_arg a)"
  obtain items w' where f: "fetch_loop L ?i ?s ?t [] (urls_arg a) w = (items, w')" by fastforce
  with batch_spec_urls [OF fetch_loop_batch_spec, of L ?i ?s ?t "urls_arg a" w]
  have "map item_url items = urls_arg a" by simp
  with f v show ?thesis by (auto simp: fetch_urls_tool_def fetch_urls_handler_def)
qed

subsection \<open>Properties\<close>

text \<open>Claim C10. The code's schemas implement the README's parameter tables: for every
  argument record, each tool behaves exactly as the documented tool that fills omitted
  parameters with the documented defaults (\<open>includeMetadata\<close> false, \<open>simplify\<close> true,
  \<open>timeout\<close> 30000) and refuses invalid URLs.\<close>

theorem tools_follow_readme_defaults:
  "fetch_url_tool L a w = readme_fetch_url L a w \<and> fetch_urls_tool L b w = readme_fetch_urls L b w"
  by (simp add: fetch_url_tool_def fetch_urls_tool_def readme_fetch_url_def readme_fetch_urls_def
      readme_fetch_url_params_def readme_fetch_urls_params_def doc_default_def
      resolve_bool_default resolve_num_default)

text \<open>Claim C20. Redirects are handled "up to 5": against a server that redirects \<open>k\<close>
  times before answering, a fetch resolves with the answer exactly when \<open>k\<close> is at most
  the README's limit, and rejects otherwise.\<close>

theorem axios_get_readme_redirect_cap:
  assumes "net w = redirect_chain (clock w + k) d"
  shows "fst (axios_get w u t) = Inr \<lparr>status = 200, status_text = ''OK'', data = d\<rparr> \<longleftrightarrow>
         k \<le> readme_redirect_cap"
  using assms follow_redirect_chain [of "w\<lparr>calls := calls w @ [u]\<rparr>" k d 5]
  by (simp add: axios_get_def get_request_def readme_redirect_cap_def)

theorem axios_get_readme_redirect_cap_witness:
  "fst (axios_get (ok_world\<lparr>net := redirect_chain 5 (JStr ''x'')\<rparr>) ''https://a.example'' 30000) =
     Inr \<lparr>status = 200, status_text = ''OK'', data = JStr ''x''\<rparr> \<and>
   fst (axios_get (ok_world\<lparr>net := redirect_chain 6 (JStr ''x'')\<rparr>) ''https://a.example'' 30000) \<noteq>
     Inr \<lparr>status = 200, status_text = ''OK'', data = JStr ''x''\<rparr>"
  using axios_get_readme_redirect_cap [of "ok_world\<lparr>net := redirect_chain 5 (JStr ''x'')\<rparr>" 5 "JStr ''x''"]
    axios_get_readme_redirect_cap [of "ok_world\<lparr>net := redirect_chain 6 (JStr ''x'')\<rparr>" 6 "JStr ''x''"]
  by (simp_all add: ok_world_def readme_redirect_cap_def)

text \<open>Claim C22. Errors in a user-friendly format: every answer of \<open>fetch_url\<close> flagged as
  an error names the requested URL and carries a non-empty message.\<close>

theorem fetch_url_error_answer_format:
  assumes "fetch_url_tool L a w = (Tool_text s True, w')"
  shows "\<exists>msg. msg \<noteq> [] \<and> s = ''Error fetching '' @ url_arg a @ '': '' @ msg"
  using assms
  by (auto simp: fetch_url_tool_def fetch_url_handler_def split: if_splits prod.splits fetch_result.splits)

theorem fetch_url_error_answer_format_witness:
  "fetch_url_tool example_libs
     \<lparr>url_arg = ''https://a.example'', include_metadata_arg = None, simplify_arg = None, timeout_arg = None\<rparr>
     (ok_world\<lparr>net := (\<lambda>q n. Reply 404 ''Not Found'' (JStr []))\<rparr>) =
   (Tool_text ''Error fetching https://a.example: HTTP 404: Not Found'' True,
    snd (fetch_url_tool example_libs
     \<lparr>url_arg = ''https://a.example'', include_metadata_arg = None, simplify_arg = None, timeout_arg = None\<rparr>
     (ok_world\<lparr>net := (\<lambda>q n. Reply 404 ''Not Found'' (JStr []))\<rparr>))) \<and>
   (\<exists>msg. msg \<noteq> [] \<and> ''Error fetching https://a.example: HTTP 404: Not Found'' =
      ''Error fetching '' @ ''https://a.example'' @ '': '' @ msg)"
proof -
  let ?a = "\<lparr>url_arg = ''https://a.example'', include_metadata_arg = None, simplify_arg = None,
             timeout_arg = None\<rparr>"
  let ?w = "ok_world\<lparr>net := (\<lambda>q n. Reply 404 ''Not Found'' (JStr []))\<rparr>"
  have run: "fetch_url_tool example_libs ?a ?w =
      (Tool_text ''Error fetching https://a.example: HTTP 404: Not Found'' True,
       snd (fetch_url_tool example_libs ?a ?w))"
    by (simp add: fetch_url_tool_def fetch_url_handler_def with_default_def example_libs_def sublist_code
        fetch_single_url_def axios_get_def follow.simps issue_def validate_status_def get_request_def
        show_nat_eval split: prod.split)
  from run fetch_url_error_answer_format [OF run] show ?thesis by simp
qed

text \<open>The README's examples: a session in which a client sends the
  documented \<open>fetch_url\<close> example and then the documented \<open>fetch_urls\<close> example, with
  URLs the schema accepts, gets one reply per request, fetches the three URLs once each in
  the order written, and receives a batch report listing \<open>article1\<close> then \<open>article2\<close>.\<close>

lemma readme_examples_session:
  assumes "url_valid L ''https://example.com/article''"
    and "url_valid L ''https://example.com/article1''" and "url_valid L ''https://example.com/article2''"
  shows "\<exists>r1 r2 w'. run_session L [readme_example_fetch_url, readme_example_fetch_urls] w =
                      ([Reply_tool r1, Reply_tool r2], w') \<and>
           calls w' = calls w @ [''https://example.com/article'', ''https://example.com/article1'',
                                 ''https://example.com/article2''] \<and>
           (\<exists>items. r2 = Tool_text (render_batch items) False \<and>
                    map item_url items = [''https://example.com/article1'', ''https://example.com/article2''])"
proof -
  let ?cs = "[readme_example_fetch_url, readme_example_fetch_urls]"
  let ?a = "\<lparr>url_arg = ''https://example.com/article'',
       include_metadata_arg = Some True, simplify_arg = Some True, timeout_arg = None\<rparr>"
  let ?b = "\<lparr>urls_arg = [''https://example.com/article1'', ''https://example.com/article2''],
       batch_include_metadata_arg = Some True, batch_simplify_arg = None, batch_timeout_arg = None\<rparr>"
  let ?w0 = "start_server w"
  let ?w1 = "snd (fetch_url_tool L ?a ?w0)"
  have run: "run_session L ?cs w =
      ([Reply_tool (fst (fetch_url_tool L ?a ?w0)), Reply_tool (fst (fetch_urls_tool L ?b ?w1))],
       snd (fetch_urls_tool L ?b ?w1))"
    by (simp add: run_session_def readme_example_fetch_url_def readme_example_fetch_urls_def
                  prod.case_eq_if)
  have "calls (snd (run_session L ?cs w)) = calls w @ concat (map (call_urls L) ?cs)"
    using serve_calls [of L ?cs "start_server w"] by (simp add: run_session_def start_server_def)
  then have "calls (snd (fetch_urls_tool L ?b ?w1)) = calls w @ concat (map (call_urls L) ?cs)"
    by (simp only: run snd_conv)
  with assms have calls: "calls (snd (fetch_urls_tool L ?b ?w1)) =
      calls w @ [''https://example.com/article'', ''https://example.com/article1'', ''https://example.com/article2'']"
    by (simp add: readme_example_fetch_url_def readme_example_fetch_urls_def)
  from assms(2,3) fetch_urls_tool_valid_text [of L ?b ?w1]
  obtain items where r2: "fst (fetch_urls_tool L ?b ?w1) = Tool_text (render_batch items) False"
    and u: "map item_url items = [''https://example.com/article1'', ''https://example.com/article2'']"
    by auto
  show ?thesis
    by (rule exI [of _ "fst (fetch_url_tool L ?a ?w0)"], rule exI [of _ "fst (fetch_urls_tool L ?b ?w1)"],
        rule exI [of _ "snd (fetch_urls_tool L ?b ?w1)"]) (use run calls r2 u in auto)
qed

theorem readme_examples_session_witness:
  "\<exists>r1 r2 w'. run_session example_libs [readme_example_fetch_url, readme_example_fetch_urls] ok_world =
                ([Reply_tool r1, Reply_tool r2], w') \<and>
     calls w' = [''https://example.com/article'', ''https://example.com/article1'', ''https://example.com/article2''] \<and>
     (\<exists>items. r2 = Tool_text (render_batch items) False \<and>
              map item_url items = [''https://example.com/article1'', ''https://example.com/article2''])"
  using readme_examples_session [of example_libs ok_world]
  by (simp add: example_libs_def sublist_code ok_world_def)

end
