(* ===== verification/Spec2Isabelle.thy ===== *)
theory Spec2Isabelle
  imports Readme
begin

text \<open>
  A verification development for the \<open>fetch\<close> MCP server (\<open>src/build/index.js\<close>): a
  server with two tools, \<open>fetch_url\<close> and \<open>fetch_urls\<close>, that fetch web pages with
  axios, optionally cut them down to the main article with Mozilla Readability, convert the
  HTML to markdown with a configured turndown service and optionally prepend the page's
  metadata as a front-matter block.

  \<^bold>\<open>How the program is modelled.\<close> The libraries the code calls (axios's network,
  JSDOM's parser, Readability, turndown's CommonMark rules, \<open>new Date().toISOString()\<close>,
  zod's URL check) are collaborators: the record \<open>libs\<close> (theory \<open>Pipeline\<close>) and the
  record \<open>md_engine\<close> (theory \<open>Turndown\<close>) hold them as functions, and every theorem is
  stated for all of them. What the code itself does with them is translated line by line.
  The outside world is the record \<open>world\<close> (theory \<open>Transport\<close>): the server's answer to
  each request, a clock ticked by every request, and the observable effects as logs: the
  URLs the pipeline was asked for (\<open>calls\<close>), every HTTP request issued
  (\<open>requests\<close>) and the \<open>console.error\<close> lines (\<open>errlog\<close>). Every operation passes
  the world explicitly and returns it updated. Thrown errors are values: \<open>axios_error\<close>,
  \<open>thrown\<close>, the \<open>Inl\<close> side of a sum, \<open>Fetch_err\<close>.

  \<^bold>\<open>Theories, in import order.\<close>
  \<^item> \<open>Prelude\<close>: the JavaScript operations the code relies on (truthiness, \<open>||\<close> on
    strings, \<open>trim\<close>, \<open>includes\<close>, decimal rendering of numbers, plain objects as
    insertion-ordered association lists via \<open>AList.update\<close>) and shared lemmas.
  \<^item> \<open>Html\<close>: the parsed document as a tree and the DOM operations the code calls
    (\<open>textContent\<close>, \<open>getAttribute\<close>, \<open>querySelector(All)\<close> in document order,
    \<open>outerHTML\<close>).
  \<^item> \<open>Transport\<close>: the \<open>axios.get\<close> call of \<open>fetchSingleUrl\<close> (lines 85--95): the
    request (\<open>get_request\<close>, \<open>fetch_headers\<close>), \<open>validate_status\<close>, the redirect loop
    \<open>follow\<close> with \<open>maxRedirects: 5\<close>, and \<open>axios_get\<close>; and, as the reference it
    is compared with, HTTP's uncapped redirect following \<open>http_follow\<close>, a
    \<open>partial_function (option)\<close> that does not return on a redirect cycle and returns
    the final reply, read by \<open>http_outcome\<close> (success below status 400).
  \<^item> \<open>Extract\<close>: \<open>extractReadableContent\<close> (lines 32--50): \<open>accept_article\<close>,
    \<open>extract_readable_content\<close>.
  \<^item> \<open>Turndown\<close>: the converter's configuration (lines 15--30: \<open>turndown_options_cfg\<close>,
    \<open>kept_tags\<close>, \<open>strikethrough_rule\<close>, \<open>turndown_service\<close>) and the rule dispatch and
    conversion of the turndown service it configures (\<open>for_node\<close>, \<open>md_node\<close>,
    \<open>turndown\<close>), written after the library's \<open>turndown.js\<close>.
  \<^item> \<open>Metadata\<close>: the metadata harvester and the front-matter formatter of
    \<open>fetchSingleUrl\<close> (lines 121--166: \<open>harvest_title\<close>, \<open>meta_key\<close>, \<open>harvest_tag\<close>,
    \<open>harvest_meta_tags\<close>, \<open>harvest_metadata\<close>, \<open>front_matter\<close>, \<open>format_content\<close>),
    with a consumer's reading of the front matter (\<open>parse_front_matter\<close>) and the
    spec's rule-table classification (\<open>classify\<close>, \<open>classification_rules\<close>).
  \<^item> \<open>Pipeline\<close>: \<open>fetchSingleUrl\<close> (lines 82--187) composed from the above:
    \<open>convert_page\<close> (simplify or fallback, lines 96--120), \<open>seed_metadata\<close>, the
    \<open>catch\<close> block \<open>error_message\<close>, and \<open>fetch_single_url\<close>.
  \<^item> \<open>Tools\<close>: the two tool handlers (lines 52--233) with their zod validation and
    defaults: \<open>fetch_url_tool\<close>/\<open>fetch_url_handler\<close>, the batch loop \<open>fetch_loop\<close>,
    the report loop \<open>render_step\<close>/\<open>render_batch\<close>, \<open>fetch_urls_tool\<close>; the abstract
    batch specification \<open>batch_spec\<close>, an inductive relation, and the spec's report
    \<open>batch_report\<close>.
  \<^item> \<open>Server\<close>: the MCP server (lines 9--13, 52, 189, 234--237): its identity, dispatch by
    registered tool name (\<open>call_tool\<close>), the start on stdio (\<open>start_server\<close>), a
    sequential session (\<open>serve\<close>, \<open>run_session\<close>), and concurrent requests: the state
    \<open>srv_state\<close> holds the world, the in-flight \<open>fetch_urls\<close> handlers (\<open>job\<close>) and the
    replies sent; \<open>arrive\<close> and \<open>resume\<close> are the two events (a request arrives, a
    handler resumes after its \<open>await\<close>), and \<open>server_run\<close> runs any schedule of them.
  \<^item> \<open>Readme\<close>: the interface the README (\<open>src/unnamed/part_000\<close>) documents: the
    parameter tables with their defaults (\<open>readme_fetch_url_params\<close>,
    \<open>readme_fetch_urls_params\<close>), the documented tools that resolve their arguments from
    them (\<open>readme_fetch_url\<close>, \<open>readme_fetch_urls\<close>), the two example calls and the
    redirect limit.
  \<^item> This theory: the spec's end-to-end scenario.

  \<^bold>\<open>What is proved.\<close>
  \<^item> Batch (\<open>Tools\<close>): the loop refines \<open>batch_spec\<close> (one single fetch per URL, in
    input order, each in the world the previous left) and the specification is functional;
    hence one result per URL in input order, every URL fetched exactly once with no
    short-circuit on failure, and the report answer is never flagged as an error.
  \<^item> Server: under every schedule of arrivals and resumptions, with batch handlers
    interleaving at their awaits, each batch report lists its own request's URLs in input
    order (an invariant of the server state, kept by both events); against a server whose
    answers do not depend on the time, every batch report without metadata is exactly
    the answer the tool gives that request alone, so concurrent batches never mix their
    results (a second invariant, relating each pushed result to a fetch made alone); the
    URLs fetched are, with multiplicity, the URLs of the requests that pass validation,
    all of them once no handler is in flight and each exactly once (URL accounting:
    fetched plus still to fetch equals arrived); from every reachable state, resuming
    the handlers once per pending fetch finishes them all with one reply per request
    (progress); a sequential session answers each request once and fetches exactly the
    URLs of the valid requests, in order. Lemma \<open>server_sequential_is_session\<close>
    shows the concurrent model run on the run-to-completion schedule
    (\<open>seq_events\<close>) is that session.
  \<^item> Pipeline: HTTP status \<open>\<ge> 400\<close> gives \<open>HTTP <status>: <text>\<close>; a transport failure
    gives the fixed \<open>No response received from server\<close>; an error raised before sending
    keeps its own message and sends nothing; the fallback to the whole page when nothing
    is extracted; without simplification Readability is never consulted and nothing is
    logged, and any fetch logs at most the one extraction-failure line; with metadata
    requested the text opens with the literal front-matter block ending in \<open>url\<close> and
    \<open>fetchedAt\<close>; a non-string body and an empty page are handled as the code handles
    them (findings).
  \<^item> Transport: at most 6 requests per fetch, all with the code's headers and timeout;
    statuses below 400 resolve, others reject with the response; a redirect chain longer
    than 5 rejects. On every server where following each redirect ends, \<open>axios_get\<close> as
    configured returns the outcome of the final reply when at most five redirects were
    needed and the too-many-redirects error otherwise (refinement of HTTP's redirect
    semantics); on a redirect cycle, where uncapped following does not return, it stops
    after six requests.
  \<^item> Batch traffic: a \<open>fetch_urls\<close> call issues at most six requests per URL, each with
    the fixed headers and the batch's timeout (30000 when omitted).
  \<^item> Extractor: an accepted article has non-empty title and content; a throw becomes
    \<open>null\<close> plus one log line.
  \<^item> Converter: the strikethrough rule and the kept elements act as configured.
  \<^item> Title precedence: with an extracted article, the front matter's title is the
    article's, whatever the page's \<open>title\<close> element.
  \<^item> Report: the code's loop of appends renders the spec's report (equivalence).
  \<^item> README: both tools implement the documented defaults for every argument record;
    redirects are followed up to 5, exactly; every error answer of \<open>fetch_url\<close> names
    the URL and has a non-empty message; lemma \<open>readme_examples_session\<close> runs the two
    documented example calls as a session.
  \<^item> Harvester and formatter: the key classification equals the spec's ordered rule
    table (equivalence); \<open>url\<close>, \<open>fetchedAt\<close> last; only \<open>title\<close> can be empty;
    front matter round-trips when no value holds a line break, and for every entry a
    value holding a line break followed by \<open>key: value\<close> is read back as two entries
    (forgery).

  \<^bold>\<open>Bounds and termination.\<close> No fuel is needed: \<open>follow\<close> recurses on the remaining
  redirect budget (5, from \<open>maxRedirects\<close>), so a fetch issues at most 1 + 5 = 6
  requests; only the reference \<open>http_follow\<close> may not return, and it is a
  \<open>partial_function (option)\<close> whose \<open>None\<close> is that case; the batch loop, the DOM walks and \<open>md_node\<close> recurse on their input; the
  front-matter reader \<open>parse_entries\<close> terminates by the length of its input.

  \<^bold>\<open>Not modelled.\<close> The imports (lines 1--8); the SDK's JSON-RPC framing and the
  stdio byte stream (library I/O: a request reaches the model as a \<open>tool_call\<close>); the
  suspension points inside \<open>fetchSingleUrl\<close> (its \<open>await axios.get\<close>: a whole fetch is
  one step of the server model, so interleaving is modelled between the fetches of a
  batch, not within one fetch); the internals of JSDOM, Readability,
  the HTML parser and turndown's CommonMark rule set (collaborators, see above); the
  protocol handling of axios beyond status, redirects and errors (a request axios refuses
  to send is \<open>Setup_fail\<close>); whitespace other than ASCII in \<open>trim\<close>; of the README,
  the installation steps, the settings snippet, the feature and dependency lists, which
  state no behaviour of the program, and the prose of "How It Works" and "Error Handling",
  which describes the pipeline and its error answers without saying more than the
  theorems above state of the code (fallback, title precedence, the error format and the
  failure messages).

  \<^bold>\<open>Plan.\<close> Next: suspension inside
  \<open>fetchSingleUrl\<close> at its \<open>await axios.get\<close>; the README's error-handling section as a
  taxonomy of the code's failures; converter escaping; lemmas on \<open>js_trim\<close>.
\<close>

subsection \<open>The spec's example scenario, end to end\<close>

text \<open>A page for the witness: a title, one author meta tag and a paragraph; JSDOM is
  taken to yield this tree for the fetched text.\<close>

definition scenario_page :: html where
  "scenario_page = Elem ''html'' []
     [Elem ''head'' [] [Elem ''title'' [] [Txt ''Hello''],
                      Elem ''meta'' [(''name'', ''author''), (''content'', ''Jane'')] []],
      Elem ''body'' [] [Elem ''p'' [] [Txt ''Hi'']]]"

definition scenario_libs :: libs where
  "scenario_libs = example_libs\<lparr>dom_parse := (\<lambda>s. [scenario_page])\<rparr>"

text \<open>Claim C7. End to end, through validation, transport, extraction, conversion,
  harvesting and formatting: \<open>fetch_url\<close> with metadata requested, on a page from which
  Readability extracts nothing, whose first \<open>title\<close> element is \<open>ttl\<close> and whose only
  meta tag names the author, answers with a front matter holding the trimmed title, the
  author, the URL and the completion time, followed by the markdown of the whole page.\<close>

theorem fetch_url_metadata_scenario:
  assumes "url_valid L u"
    and "net w (get_request u 30000) (clock w) = Reply st txt (JStr page)" and "st < 400"
    and "readability L page u = Parsed None"
    and "query_selector ''title'' (dom_parse L page) = Some ttl"
    and "query_selector_all ''meta'' (dom_parse L page) = [Elem ''meta'' [(''name'', ''author''), (''content'', j)] []]"
    and "j \<noteq> []"
    and "turndown (engine L) (turndown_service (engine L)) (JStr page) = Inr md"
  shows "fst (fetch_url_tool L \<lparr>url_arg = u, include_metadata_arg = Some True, simplify_arg = None,
                                 timeout_arg = None\<rparr> w) =
     Tool_text (''---\<newline>'' @ ''title: '' @ js_trim (text_content ttl) @ ''\<newline>'' @ ''author: '' @ j @ ''\<newline>'' @
                ''url: '' @ u @ ''\<newline>'' @ ''fetchedAt: '' @ iso_time L (Suc (clock w)) @ ''\<newline>'' @
                ''---\<newline>\<newline>'' @ md) False"
  using assms
  by (simp add: fetch_url_tool_def fetch_url_handler_def with_default_def fetch_single_url_def
      axios_get_direct_reply convert_page_def extract_readable_content_def harvest_metadata_def
      harvest_title_def harvest_meta_tags_def harvest_tag_def meta_key_def format_content_def
      front_matter_def front_matter_line_def sublist_code)

theorem fetch_url_metadata_scenario_witness:
  "fst (fetch_url_tool scenario_libs \<lparr>url_arg = ''https://example.com/a'', include_metadata_arg = Some True,
          simplify_arg = None, timeout_arg = None\<rparr>
          (ok_world\<lparr>net := (\<lambda>q n. Reply 200 ''OK'' (JStr ''<title>Hello</title>''))\<rparr>)) =
   Tool_text (''---\<newline>title: Hello\<newline>author: Jane\<newline>url: https://example.com/a\<newline>'' @
              ''fetchedAt: 1970-01-01T00:00:00.000Z\<newline>---\<newline>\<newline><title>Hello</title>'') False"
proof -
  let ?w = "ok_world\<lparr>net := (\<lambda>q n. Reply 200 ''OK'' (JStr ''<title>Hello</title>''))\<rparr>"
  have v: "url_valid scenario_libs ''https://example.com/a''"
    by (simp add: scenario_libs_def example_libs_def sublist_code)
  have n: "net ?w (get_request ''https://example.com/a'' 30000) (clock ?w) =
                   Reply 200 ''OK'' (JStr ''<title>Hello</title>'')" by simp
  have r: "readability scenario_libs ''<title>Hello</title>'' ''https://example.com/a'' = Parsed None"
    by (simp add: scenario_libs_def example_libs_def)
  have q: "query_selector ''title'' (dom_parse scenario_libs ''<title>Hello</title>'') =
                   Some (Elem ''title'' [] [Txt ''Hello''])"
    by (simp add: scenario_libs_def scenario_page_def query_selector_def query_selector_all_def)
  have m: "query_selector_all ''meta'' (dom_parse scenario_libs ''<title>Hello</title>'') =
                   [Elem ''meta'' [(''name'', ''author''), (''content'', ''Jane'')] []]"
    by (simp add: scenario_libs_def scenario_page_def query_selector_all_def)
  have td: "turndown (engine scenario_libs) (turndown_service (engine scenario_libs))
                   (JStr ''<title>Hello</title>'') = Inr ''<title>Hello</title>''"
    by (simp add: scenario_libs_def example_libs_def example_engine_def turndown_def md_join_def
        post_process_def is_js_space_def)
  have "fst (fetch_url_tool scenario_libs \<lparr>url_arg = ''https://example.com/a'',
          include_metadata_arg = Some True, simplify_arg = None, timeout_arg = None\<rparr> ?w) =
     Tool_text (''---\<newline>'' @ ''title: '' @ js_trim (text_content (Elem ''title'' [] [Txt ''Hello''])) @ ''\<newline>'' @
                ''author: '' @ ''Jane'' @ ''\<newline>'' @ ''url: '' @ ''https://example.com/a'' @ ''\<newline>'' @
                ''fetchedAt: '' @ iso_time scenario_libs (Suc (clock ?w)) @ ''\<newline>'' @
                ''---\<newline>\<newline>'' @ ''<title>Hello</title>'') False"
    by (rule fetch_url_metadata_scenario [OF v n _ r q m _ td]) simp_all
  then show ?thesis
    by (simp add: js_trim_def is_js_space_def scenario_libs_def example_libs_def)
qed
end
